theory Spec2Isabelle
  imports Main "HOL-Library.Word" "HOL-Library.Sublist"
begin

section \<open>Go values\<close>

text \<open>
  Go's \<open>uint64\<close> and \<open>int64\<close> are 64-bit words (\<open>+\<close> wraps around); \<open>int\<close> is the
  64-bit signed integer of the platforms the tool is built for and is read with \<open>sint\<close>.
  The SDK's \<open>math.Int\<close> is an arbitrary-precision integer and is modelled as \<open>int\<close>.
\<close>

type_synonym uint64 = "64 word"
type_synonym int64 = "64 word"
type_synonym byte = "8 word"
type_synonym bytes = "byte list"

text \<open>\<open>[]byte(s)\<close> for a string.\<close>

definition bytes_of :: "string \<Rightarrow> bytes" where
  "bytes_of s = map of_char s"

text \<open>The verb \<open>%d\<close> of \<open>fmt.Sprintf\<close>: decimal digits, with a minus sign below zero.\<close>

fun decimal :: "nat \<Rightarrow> string" where
  "decimal n =
     (if n < 10 then [''0123456789'' ! n]
      else decimal (n div 10) @ [''0123456789'' ! (n mod 10)])"

declare decimal.simps [simp del]

definition fmt_d :: "int \<Rightarrow> string" where
  "fmt_d i = (if i < 0 then CHR ''-'' # decimal (nat (- i)) else decimal (nat i))"

text \<open>
  \<open>strconv.ParseUint(s, 10, 64)\<close>: a non-empty string of decimal digits whose value fits
  64 bits; anything else is an error (\<open>None\<close>).
\<close>

definition is_digit :: "char \<Rightarrow> bool" where
  "is_digit c = (48 \<le> (of_char c :: nat) \<and> (of_char c :: nat) \<le> 57)"

definition digits_value :: "string \<Rightarrow> nat" where
  "digits_value s = foldl (\<lambda>acc c. 10 * acc + ((of_char c :: nat) - 48)) 0 s"

definition ParseUint :: "string \<Rightarrow> uint64 option" where
  "ParseUint s =
     (if s = [] \<or> \<not> list_all is_digit s then None
      else if digits_value s < 2 ^ 64 then Some (word_of_nat (digits_value s))
      else None)"

text \<open>\<open>os.Getenv\<close> is a function from names to values (\<open>''''\<close> when unset).\<close>

type_synonym os_env = "string \<Rightarrow> string"

definition getEnv :: "os_env \<Rightarrow> string \<Rightarrow> string \<Rightarrow> string" where
  "getEnv os key defaultValue = (let val = os key in if val \<noteq> [] then val else defaultValue)"

text \<open>
  An HTTP GET as the code sees it: either the transport error of \<open>http.Client.Get\<close>, or a
  response with its status code, its raw body and what \<open>json.Decoder.Decode\<close> makes of
  that body for the struct the caller decodes into (\<open>None\<close> when decoding fails).
\<close>

datatype 'a http_get = GetError string | GetResponse nat string "'a option"

definition StatusOK :: nat where "StatusOK = 200"
definition StatusNotFound :: nat where "StatusNotFound = 404"

section \<open>Library functions the code calls\<close>

text \<open>
  SHA-256, the secp256k1 key functions and the Cosmos SDK are not part of the repository.
  They are parameters of the model: every definition below takes the functions it calls
  from these records, and every theorem holds for all of them.
\<close>

record crypto =
  Sum256 :: "bytes \<Rightarrow> bytes"
  PrivKeyFromBytes :: "bytes \<Rightarrow> bytes"
  PubKey :: "bytes \<Rightarrow> bytes"
  Address :: "bytes \<Rightarrow> bytes"
  Sign :: "bytes \<Rightarrow> bytes \<Rightarrow> bytes option"
  DecodeHex :: "string \<Rightarrow> bytes option"
  DeriveMnemonic :: "string \<Rightarrow> bytes option"
  GeneratePrivKey :: "bytes \<Rightarrow> bytes"

record Coin =
  coin_Denom :: string
  coin_Amount :: int

record MsgSend =
  FromAddress :: string
  ToAddress :: string
  MsgAmount :: "Coin list"

record SignatureV2 =
  sig_PubKey :: bytes
  sig_Signature :: "bytes option"
  sig_Sequence :: uint64

record SignerData =
  sd_Address :: string
  sd_ChainID :: string
  sd_AccountNumber :: uint64
  sd_Sequence :: uint64
  sd_PubKey :: bytes

record TxBuilder =
  Msgs :: "MsgSend list"
  FeeAmount :: "Coin list"
  GasLimit :: uint64
  Signatures :: "SignatureV2 list"

record sdk =
  ValidateDenom :: "string \<Rightarrow> bool"
  AccAddressFromBech32 :: "string \<Rightarrow> bytes option"
  AccAddressString :: "bytes \<Rightarrow> string"
  ParseCoinNormalized :: "string \<Rightarrow> Coin option"
  NewIntFromString :: "string \<Rightarrow> int option"
  SetMsgs_ok :: "MsgSend list \<Rightarrow> bool"
  SetSignatures_ok :: "SignatureV2 \<Rightarrow> bool"
  GetSignBytes :: "SignerData \<Rightarrow> TxBuilder \<Rightarrow> bytes option"
  TxEncoder :: "TxBuilder \<Rightarrow> bytes option"

section \<open>Errors\<close>

text \<open>
  Each \<open>fmt.Errorf\<close> of the client and seed packages is a constructor carrying the values the
  message is formatted from; a Go panic is the constructor \<open>Panic\<close>. \<open>Error\<close> is the
  message; the text of a wrapped library error (\<open>%w\<close>) and the quoting of \<open>%q\<close> are left
  out of it.
\<close>

datatype error =
    Panic string
  | ChainIDEmpty
  | DenomEmpty
  | SinkAddressEmpty
  | InvalidSinkAddress
  | CreateStrategyFailed error
  | CreateClientFailed error
  | QueryAccountFailed string string string
  | QueryAccountHTTP nat string string
  | DecodeAccountFailed
  | ParseAccountNumberFailed
  | ParseSequenceFailed
  | InvalidFromAddress
  | CreateMessageFailed error
  | SetMessageFailed
  | SetEmptySignatureFailed
  | SignFailed
  | SetSignatureFailed
  | EncodeFailed
  | InvalidFundAmount
  | DecodePrivateKeyFailed
  | InvalidPrivateKeyLength nat
  | DeriveMnemonicFailed
  | SeedKeyNotMnemonic string
  | QuerySeedBalanceFailed string
  | QuerySeedBalanceHTTP nat string
  | DecodeBalanceFailed
  | InvalidAmount string
  | InsufficientFunds int int
  | QuerySeedAccountFailed string
  | QuerySeedAccountHTTP nat string
  | SetMessagesFailed
  | GrpcDialFailed
  | BroadcastFailed string
  | TransactionFailed string
  | TransactionFailedInBlock string int string
  | NotIncluded string
  | NotProperlyFunded

fun Error :: "error \<Rightarrow> string" where
  "Error (Panic m) = ''panic: '' @ m"
| "Error ChainIDEmpty = ''chain ID cannot be empty''"
| "Error DenomEmpty = ''denom cannot be empty''"
| "Error SinkAddressEmpty = ''sink address cannot be empty''"
| "Error InvalidSinkAddress = ''invalid sink address''"
| "Error (CreateStrategyFailed e) = ''failed to create bank send strategy: '' @ Error e"
| "Error (CreateClientFailed e) = ''failed to create PerpX bank client: '' @ Error e"
| "Error (QueryAccountFailed url a cause) =
     ''failed to query account via REST API at '' @ url @ '' (account '' @ a
       @ '' may not exist - run 'seed' command first): '' @ cause"
| "Error (QueryAccountHTTP status body a) =
     ''failed to query account: HTTP '' @ fmt_d (int status) @ '': '' @ body @ '' (account ''
       @ a @ '' may not exist - run 'seed' command first)''"
| "Error DecodeAccountFailed = ''failed to decode account response''"
| "Error ParseAccountNumberFailed = ''failed to parse account number''"
| "Error ParseSequenceFailed = ''failed to parse sequence''"
| "Error InvalidFromAddress = ''invalid from address''"
| "Error (CreateMessageFailed e) = ''failed to create message: '' @ Error e"
| "Error SetMessageFailed = ''failed to set message''"
| "Error SetEmptySignatureFailed = ''failed to set empty signature''"
| "Error SignFailed = ''failed to sign''"
| "Error SetSignatureFailed = ''failed to set signature''"
| "Error EncodeFailed = ''failed to encode transaction''"
| "Error InvalidFundAmount = ''invalid fund amount''"
| "Error DecodePrivateKeyFailed = ''failed to decode private key (must be hex-encoded)''"
| "Error (InvalidPrivateKeyLength n) =
     ''invalid private key length: expected 32 bytes, got '' @ fmt_d (int n)"
| "Error DeriveMnemonicFailed = ''failed to derive key from mnemonic''"
| "Error (SeedKeyNotMnemonic k) = ''seed-key '' @ k @ '' is not a mnemonic''"
| "Error (QuerySeedBalanceFailed cause) = ''failed to query seed balance: '' @ cause"
| "Error (QuerySeedBalanceHTTP status body) =
     ''failed to query seed balance: HTTP '' @ fmt_d (int status) @ '': '' @ body"
| "Error DecodeBalanceFailed = ''failed to decode balance response''"
| "Error (InvalidAmount a) = ''invalid amount: '' @ a"
| "Error (InsufficientFunds has needs) =
     ''insufficient funds: seed has '' @ fmt_d has @ '', needs '' @ fmt_d needs"
| "Error (QuerySeedAccountFailed cause) = ''failed to query seed account: '' @ cause"
| "Error (QuerySeedAccountHTTP status body) =
     ''failed to query seed account: HTTP '' @ fmt_d (int status) @ '': '' @ body"
| "Error SetMessagesFailed = ''failed to set messages''"
| "Error GrpcDialFailed = ''failed to connect to gRPC for broadcasting''"
| "Error (BroadcastFailed cause) = ''failed to broadcast transaction: '' @ cause"
| "Error (TransactionFailed rawLog) = ''transaction failed: '' @ rawLog"
| "Error (TransactionFailedInBlock height code rawLog) =
     ''transaction failed in block '' @ height @ '': code '' @ fmt_d code @ '', log: '' @ rawLog"
| "Error (NotIncluded txHash) =
     ''transaction '' @ txHash @ '' was not included in a block within 30s''"
| "Error NotProperlyFunded = ''some accounts were not properly funded''"

text \<open>\<open>sdk.NewCoin\<close> validates its result and panics when the denom is invalid or the amount negative.\<close>

definition NewCoin :: "sdk \<Rightarrow> string \<Rightarrow> int \<Rightarrow> error + Coin" where
  "NewCoin lib d a =
     (if \<not> ValidateDenom lib d then Inl (Panic ''invalid denom'')
      else if a < 0 then Inl (Panic ''negative coin amount'')
      else Inr \<lparr>coin_Denom = d, coin_Amount = a\<rparr>)"

text \<open>\<open>sdk.NewCoins\<close> of one coin: zero coins are dropped.\<close>

definition NewCoins1 :: "Coin \<Rightarrow> Coin list" where
  "NewCoins1 c = (if coin_Amount c = 0 then [] else [c])"

section \<open>Account derivation\<close>

record keypair =
  bk_privKey :: bytes
  bk_addr :: bytes

definition workerSeedStr :: "int64 \<Rightarrow> string" where
  "workerSeedStr i = ''bench worker '' @ fmt_d (sint i) @ '' seed phrase for load testing account''"

text \<open>seed.go, the body of the loop over \<open>i\<close> that fills \<open>benchKeys\<close>.\<close>

definition benchKey :: "crypto \<Rightarrow> int64 \<Rightarrow> keypair" where
  "benchKey cr i =
     (let seedStr = workerSeedStr i;
          seed = Sum256 cr (bytes_of seedStr);
          adjustedSeed = Sum256 cr (seed @ [ucast i]);
          privKeyBytes = PrivKeyFromBytes cr adjustedSeed
      in \<lparr>bk_privKey = privKeyBytes, bk_addr = Address cr (PubKey cr privKeyBytes)\<rparr>)"

text \<open>The loop itself: \<open>benchKeys[i]\<close> for \<open>i = 0, ..., Workers - 1\<close>.\<close>

definition benchKeys :: "crypto \<Rightarrow> nat \<Rightarrow> keypair list" where
  "benchKeys cr workers = map (\<lambda>i. benchKey cr (word_of_nat i)) [0..<workers]"

section \<open>String helpers of the client\<close>

text \<open>\<open>strings.Contains\<close>, \<open>strings.Replace\<close> (first occurrence, and all occurrences) and
  \<open>strings.TrimSuffix\<close>; the callers never pass an empty pattern.\<close>

fun Contains :: "string \<Rightarrow> string \<Rightarrow> bool" where
  "Contains [] sub = (sub = [])"
| "Contains (c # cs) sub = (prefix sub (c # cs) \<or> Contains cs sub)"

fun ReplaceFirst :: "string \<Rightarrow> string \<Rightarrow> string \<Rightarrow> string" where
  "ReplaceFirst [] old new = []"
| "ReplaceFirst (c # cs) old new =
     (if prefix old (c # cs) then new @ drop (length old) (c # cs)
      else c # ReplaceFirst cs old new)"

function ReplaceAll :: "string \<Rightarrow> string \<Rightarrow> string \<Rightarrow> string" where
  "ReplaceAll s old new =
     (if s = [] \<or> old = [] then s
      else if prefix old s then new @ ReplaceAll (drop (length old) s) old new
      else hd s # ReplaceAll (tl s) old new)"
  by pat_completeness auto
termination
  by (relation "measure (\<lambda>(s, old, new). length s)") auto

declare ReplaceAll.simps [simp del]

definition TrimSuffix :: "string \<Rightarrow> string \<Rightarrow> string" where
  "TrimSuffix s suf = (if suffix suf s then take (length s - length suf) s else s)"

definition convertWebSocketToHTTP :: "string \<Rightarrow> string" where
  "convertWebSocketToHTTP wsURL =
     (if length wsURL > 5 \<and> take 5 wsURL = ''ws://'' then
        (let httpURL = ''http://'' @ drop 5 wsURL
         in if length httpURL > 11 \<and> drop (length httpURL - 11) httpURL = ''/websocket''
            then take (length httpURL - 11) httpURL else httpURL)
      else if length wsURL > 6 \<and> take 6 wsURL = ''wss://'' then
        (let httpURL = ''https://'' @ drop 6 wsURL
         in if length httpURL > 11 \<and> drop (length httpURL - 11) httpURL = ''/websocket''
            then take (length httpURL - 11) httpURL else httpURL)
      else wsURL)"

section \<open>The bank send strategy\<close>

record BankSendStrategy =
  chainID :: string
  denom :: string
  sinkAddr :: string

definition NewBankSendStrategy :: "sdk \<Rightarrow> string \<Rightarrow> string \<Rightarrow> string \<Rightarrow> error + BankSendStrategy" where
  "NewBankSendStrategy lib chainID' denom' sinkAddr' =
     (if chainID' = [] then Inl ChainIDEmpty
      else if denom' = [] then Inl DenomEmpty
      else if sinkAddr' = [] then Inl SinkAddressEmpty
      else case AccAddressFromBech32 lib sinkAddr' of
             None \<Rightarrow> Inl InvalidSinkAddress
           | Some _ \<Rightarrow> Inr \<lparr>chainID = chainID', denom = denom', sinkAddr = sinkAddr'\<rparr>)"

definition CreateMsg :: "sdk \<Rightarrow> BankSendStrategy \<Rightarrow> string \<Rightarrow> error + MsgSend" where
  "CreateMsg lib s fromAddr =
     (case AccAddressFromBech32 lib fromAddr of
        None \<Rightarrow> Inl InvalidFromAddress
      | Some _ \<Rightarrow>
          (case NewCoin lib (denom s) 1 of
             Inl p \<Rightarrow> Inl p
           | Inr coin \<Rightarrow>
               Inr \<lparr>FromAddress = fromAddr, ToAddress = sinkAddr s, MsgAmount = NewCoins1 coin\<rparr>))"

section \<open>The per-worker client\<close>

record Config =
  Connections :: int
  Time :: int
  Count :: int
  Endpoints :: "string list"

record PerpxBankClient =
  config :: Config
  strategy :: BankSendStrategy
  privKey :: bytes
  addr :: bytes
  accountNum :: uint64
  sequence :: uint64
  accountQueried :: bool
  restURL :: string

text \<open>
  \<open>NewPerpxBankClient\<close>. The key is derived first; \<open>cfg.Endpoints[0]\<close> panics on an empty
  list. The gRPC address the function also computes is stored nowhere and is left out.
\<close>

definition NewPerpxBankClient ::
  "crypto \<Rightarrow> Config \<Rightarrow> BankSendStrategy \<Rightarrow> string \<Rightarrow> int64 \<Rightarrow> error + PerpxBankClient" where
  "NewPerpxBankClient cr cfg strategy' seedKey id' =
     (let workerID = id';
          seedStr = ''bench worker '' @ fmt_d (sint workerID)
                      @ '' seed phrase for load testing account'';
          seed = Sum256 cr (bytes_of seedStr);
          adjustedSeed = Sum256 cr (seed @ [ucast workerID]);
          privKeyBytes = PrivKeyFromBytes cr adjustedSeed;
          addr' = Address cr (PubKey cr privKeyBytes)
      in case Endpoints cfg of
           [] \<Rightarrow> Inl (Panic ''index out of range [0] with length 0'')
         | e0 # _ \<Rightarrow>
             (let rpcEndpoint =
                    (if length e0 > 0
                     then ReplaceAll (TrimSuffix (convertWebSocketToHTTP e0) ''/websocket'')
                            ''127.0.0.1'' ''localhost''
                     else ''http://localhost:36657'');
                  restURL1 = ReplaceFirst rpcEndpoint '':36657'' '':31317'';
                  restURL' =
                    (if \<not> Contains restURL1 '':31317'' then
                       (let restURL2 = ReplaceFirst rpcEndpoint '':26657'' '':1317''
                        in if \<not> Contains restURL2 '':1317'' then ''http://localhost:31317''
                           else restURL2)
                     else restURL1)
              in Inr \<lparr>config = cfg, strategy = strategy', privKey = privKeyBytes, addr = addr',
                      accountNum = 0, sequence = 0, accountQueried = False,
                      restURL = restURL'\<rparr>))"

record account_json =
  AccountNumber :: string
  Sequence :: string

text \<open>
  \<open>ensureAccountQueried\<close>. The argument \<open>resp\<close> is the ledger's answer to the account
  query, read only when the query is issued. The result is the returned error
  (\<open>None\<close> for nil) and the client afterwards.
\<close>

definition ensureAccountQueried ::
  "sdk \<Rightarrow> account_json http_get \<Rightarrow> PerpxBankClient \<Rightarrow> error option \<times> PerpxBankClient" where
  "ensureAccountQueried lib resp c =
     (if accountQueried c then (None, c)
      else
        (let accountURL = restURL c @ ''/cosmos/auth/v1beta1/accounts/''
                            @ AccAddressString lib (addr c)
         in case resp of
              GetError err \<Rightarrow>
                (Some (QueryAccountFailed accountURL (AccAddressString lib (addr c)) err), c)
            | GetResponse status body decoded \<Rightarrow>
                if status \<noteq> StatusOK
                then (Some (QueryAccountHTTP status body (AccAddressString lib (addr c))), c)
                else
                  (case decoded of
                     None \<Rightarrow> (Some DecodeAccountFailed, c)
                   | Some accountResp \<Rightarrow>
                       (case ParseUint (AccountNumber accountResp) of
                          None \<Rightarrow> (Some ParseAccountNumberFailed, c)
                        | Some accountNum' \<Rightarrow>
                            (case ParseUint (Sequence accountResp) of
                               None \<Rightarrow> (Some ParseSequenceFailed, c)
                             | Some sequence' \<Rightarrow>
                                 (None, c\<lparr>accountNum := accountNum', sequence := sequence',
                                          accountQueried := True\<rparr>))))))"

text \<open>
  \<open>tx.SignWithPrivKey\<close> of the SDK: it signs the sign bytes of the transaction and
  returns the signature together with the key's public key and the sequence it was given.
\<close>

definition SignWithPrivKey ::
  "crypto \<Rightarrow> sdk \<Rightarrow> SignerData \<Rightarrow> TxBuilder \<Rightarrow> bytes \<Rightarrow> uint64 \<Rightarrow> SignatureV2 option" where
  "SignWithPrivKey cr lib signerData b priv accSeq =
     (case GetSignBytes lib signerData b of
        None \<Rightarrow> None
      | Some signBytes \<Rightarrow>
          (case Sign cr priv signBytes of
             None \<Rightarrow> None
           | Some signature \<Rightarrow>
               Some \<lparr>sig_PubKey = PubKey cr priv, sig_Signature = Some signature,
                     sig_Sequence = accSeq\<rparr>))"

text \<open>
  What \<open>GenerateTx\<close> returns on success: the encoded bytes, and with them the transaction
  they encode (the builder's final state) and the signer data that was signed.
\<close>

record GeneratedTx =
  tx :: TxBuilder
  signer :: SignerData
  txBytes :: bytes

definition GenerateTx ::
  "crypto \<Rightarrow> sdk \<Rightarrow> account_json http_get \<Rightarrow> PerpxBankClient
     \<Rightarrow> (error + GeneratedTx) \<times> PerpxBankClient" where
  "GenerateTx cr lib resp c =
     (case ensureAccountQueried lib resp c of
        (Some err, c1) \<Rightarrow> (Inl err, c1)
      | (None, c1) \<Rightarrow>
          (let c2 = c1\<lparr>sequence := sequence c1 + 1\<rparr>;
               seq = sequence c2 - 1
           in case CreateMsg lib (strategy c2) (AccAddressString lib (addr c2)) of
                Inl (Panic m) \<Rightarrow> (Inl (Panic m), c2)
              | Inl e \<Rightarrow> (Inl (CreateMessageFailed e), c2)
              | Inr msg \<Rightarrow>
                  if \<not> SetMsgs_ok lib [msg] then (Inl SetMessageFailed, c2)
                  else
                    (let gasLimit = (200000 :: uint64);
                         minGasPrice = (25000000000 :: int);
                         feeAmount = minGasPrice * sint gasLimit
                     in case NewCoin lib (denom (strategy c2)) feeAmount of
                          Inl p \<Rightarrow> (Inl p, c2)
                        | Inr feeCoin \<Rightarrow>
                            (let b0 = \<lparr>Msgs = [msg], FeeAmount = NewCoins1 feeCoin,
                                       GasLimit = gasLimit, Signatures = []\<rparr>;
                                 sigV2Empty = \<lparr>sig_PubKey = PubKey cr (privKey c2),
                                               sig_Signature = None, sig_Sequence = seq\<rparr>
                             in if \<not> SetSignatures_ok lib sigV2Empty
                                then (Inl SetEmptySignatureFailed, c2)
                                else
                                  (let b1 = b0\<lparr>Signatures := [sigV2Empty]\<rparr>;
                                       signerData =
                                         \<lparr>sd_Address = AccAddressString lib (addr c2),
                                          sd_ChainID = chainID (strategy c2),
                                          sd_AccountNumber = accountNum c2,
                                          sd_Sequence = seq,
                                          sd_PubKey = PubKey cr (privKey c2)\<rparr>
                                   in case SignWithPrivKey cr lib signerData b1 (privKey c2) seq of
                                        None \<Rightarrow> (Inl SignFailed, c2)
                                      | Some sigV2 \<Rightarrow>
                                          if \<not> SetSignatures_ok lib sigV2
                                          then (Inl SetSignatureFailed, c2)
                                          else
                                            (let b2 = b1\<lparr>Signatures := [sigV2]\<rparr>
                                             in case TxEncoder lib b2 of
                                                  None \<Rightarrow> (Inl EncodeFailed, c2)
                                                | Some bs \<Rightarrow>
                                                    (Inr \<lparr>tx = b2, signer = signerData,
                                                          txBytes = bs\<rparr>, c2)))))))"

text \<open>
  Successive \<open>GenerateTx\<close> calls on one client; \<open>resps\<close> holds, for each call, the answer
  the ledger would give to the account query. A panic ends the process.
\<close>

definition is_Panic :: "error + 'a \<Rightarrow> bool" where
  "is_Panic r = (case r of Inl (Panic _) \<Rightarrow> True | _ \<Rightarrow> False)"

fun GenerateTxs ::
  "crypto \<Rightarrow> sdk \<Rightarrow> account_json http_get list \<Rightarrow> PerpxBankClient
     \<Rightarrow> (error + GeneratedTx) list \<times> PerpxBankClient" where
  "GenerateTxs cr lib [] c = ([], c)"
| "GenerateTxs cr lib (resp # resps) c =
     (case GenerateTx cr lib resp c of
        (r, c1) \<Rightarrow>
          if is_Panic r then ([r], c1)
          else (case GenerateTxs cr lib resps c1 of (rs, c2) \<Rightarrow> (r # rs, c2)))"

section \<open>The client factory\<close>

record PerpxBankClientFactory =
  workerCounter :: int64

definition NewPerpxBankClientFactory :: PerpxBankClientFactory where
  "NewPerpxBankClientFactory = \<lparr>workerCounter = 0\<rparr>"

definition NewClient ::
  "crypto \<Rightarrow> sdk \<Rightarrow> os_env \<Rightarrow> PerpxBankClientFactory \<Rightarrow> Config
     \<Rightarrow> (error + PerpxBankClient) \<times> PerpxBankClientFactory" where
  "NewClient cr lib os f cfg =
     (let chainID' = getEnv os ''LOADTEST_CHAIN_ID'' ''localperpxprotocol'';
          denom' = getEnv os ''LOADTEST_DENOM'' ''aperpx'';
          sinkAddr' = getEnv os ''LOADTEST_SINK_ADDRESS''
                        ''perpx1kyfmupa8z5jtxgf5f4gt285sepeg6eqnzvs25m'';
          seedKey = getEnv os ''LOADTEST_SEED_KEY'' []
      in case NewBankSendStrategy lib chainID' denom' sinkAddr' of
           Inl e \<Rightarrow> (Inl (CreateStrategyFailed e), f)
         | Inr strategy' \<Rightarrow>
             (let f1 = f\<lparr>workerCounter := workerCounter f + 1\<rparr>;
                  workerID = workerCounter f1 - 1
              in case NewPerpxBankClient cr cfg strategy' seedKey workerID of
                   Inl (Panic m) \<Rightarrow> (Inl (Panic m), f1)
                 | Inl e \<Rightarrow> (Inl (CreateClientFailed e), f1)
                 | Inr client \<Rightarrow> (Inr client, f1)))"

text \<open>
  Successive \<open>NewClient\<close> calls on one factory, each with the process environment and the
  configuration of that call. A panic ends the process: no later call is made.
\<close>

fun NewClients ::
  "crypto \<Rightarrow> sdk \<Rightarrow> (os_env \<times> Config) list \<Rightarrow> PerpxBankClientFactory
     \<Rightarrow> (error + PerpxBankClient) list \<times> PerpxBankClientFactory" where
  "NewClients cr lib [] f = ([], f)"
| "NewClients cr lib ((os, cfg) # rest) f =
     (case NewClient cr lib os f cfg of
        (r, f1) \<Rightarrow>
          if is_Panic r then ([r], f1)
          else (case NewClients cr lib rest f1 of (rs, f2) \<Rightarrow> (r # rs, f2)))"

text \<open>The clients a run of calls created, in creation order.\<close>

definition created :: "(error + PerpxBankClient) list \<Rightarrow> PerpxBankClient list" where
  "created rs = concat (map (\<lambda>r. case r of Inl _ \<Rightarrow> [] | Inr c \<Rightarrow> [c]) rs)"

section \<open>The seed command\<close>

record SeedConfig =
  Workers :: int64
  SeedKey :: string
  SeedPrivateKey :: string
  RPC :: string
  ChainID :: string
  Denom :: string
  FundAmount :: string
  BatchSize :: int64

text \<open>The JSON structs the seed command decodes responses into.\<close>

record Balance =
  bal_Denom :: string
  bal_Amount :: string

record TxResponse =
  tx_Height :: string
  tx_Code :: int
  tx_RawLog :: string

text \<open>The answer to \<open>BroadcastTx\<close>: an error, or the response's code, raw log and hash.\<close>

datatype broadcast_result = BroadcastError string | BroadcastResponse nat string string

text \<open>
  The ledger as the seed command meets it. Each field is the answer to one of the
  requests \<open>seedAccounts\<close> makes: the seed account's balance and account queries, the
  balance query for \<open>benchKeys[i]\<close> before funding, and for the batch number \<open>k\<close> whether
  \<open>grpc.Dial\<close> fails, the answer to the broadcast of the encoded transaction, and the
  answers to the status polls that start within \<open>maxWait\<close> (30 s) of the broadcast, in
  order; at last the balance query for \<open>needsFunding[i]\<close> after funding.
\<close>

record ledger =
  seedBalanceResp :: "Balance list http_get"
  seedAccountResp :: "account_json http_get"
  workerBalanceResp :: "nat \<Rightarrow> Balance list http_get"
  dialFails :: "nat \<Rightarrow> bool"
  broadcastResp :: "nat \<Rightarrow> bytes \<Rightarrow> broadcast_result"
  txStatusResps :: "nat \<Rightarrow> TxResponse http_get list"
  verifyBalanceResp :: "nat \<Rightarrow> Balance list http_get"

text \<open>
  What the seed command does to the outside and to its key: it signs the transaction of
  batch \<open>k\<close>, sends its bytes, and sees it included in a block.
\<close>

datatype event =
    Signed nat SignerData TxBuilder
  | Broadcast nat bytes
  | Included nat string

text \<open>
  \<open>sdk.Coins\<close> as the list of the coins added; \<open>AmountOf\<close> is the total amount of a denom.
\<close>

definition Coins_Add :: "Coin list \<Rightarrow> Coin \<Rightarrow> Coin list" where
  "Coins_Add coins c = coins @ [c]"

definition AmountOf :: "Coin list \<Rightarrow> string \<Rightarrow> int" where
  "AmountOf coins d = sum_list (map coin_Amount (filter (\<lambda>c. coin_Denom c = d) coins))"

definition TrimPrefix :: "string \<Rightarrow> string \<Rightarrow> string" where
  "TrimPrefix s pre = (if prefix pre s then drop (length pre) s else s)"

text \<open>The total the seed account must hold: the fund amount for every worker and 10000 per worker for fees.\<close>

definition totalRequired :: "sdk \<Rightarrow> SeedConfig \<Rightarrow> Coin \<Rightarrow> error + Coin list" where
  "totalRequired lib cfg fundCoin =
     (let totalNeeded = coin_Amount fundCoin * sint (Workers cfg)
      in case NewCoin lib (Denom cfg) (sint (Workers cfg * 10000)) of
           Inl p \<Rightarrow> Inl p
         | Inr feeCoin \<Rightarrow>
             (let estimatedFees = NewCoins1 feeCoin
              in case NewCoin lib (Denom cfg) (totalNeeded + AmountOf estimatedFees (Denom cfg)) of
                   Inl p \<Rightarrow> Inl p
                 | Inr c \<Rightarrow> Inr (NewCoins1 c)))"

text \<open>The seed account's key and address: from the private key when one is given, from the mnemonic otherwise.\<close>

definition seedKey :: "crypto \<Rightarrow> SeedConfig \<Rightarrow> error + bytes \<times> bytes" where
  "seedKey cr cfg =
     (if SeedPrivateKey cfg \<noteq> [] then
        (case DecodeHex cr (TrimPrefix (SeedPrivateKey cfg) ''0x'') of
           None \<Rightarrow> Inl DecodePrivateKeyFailed
         | Some keyBytes \<Rightarrow>
             if length keyBytes \<noteq> 32 then Inl (InvalidPrivateKeyLength (length keyBytes))
             else
               (let seedPrivKey = PrivKeyFromBytes cr keyBytes
                in Inr (seedPrivKey, Address cr (PubKey cr seedPrivKey))))
      else
        (let SeedKey' =
               (if SeedKey cfg = ''alice''
                then ''merge panther lobster crazy road hollow amused security before critic about cliff exhibit cause coyote talent happy where lion river tobacco option coconut small''
                else SeedKey cfg)
         in if Contains SeedKey' '' '' then
              (case DeriveMnemonic cr SeedKey' of
                 None \<Rightarrow> Inl DeriveMnemonicFailed
               | Some derivedPriv \<Rightarrow>
                   (let seedPrivKey = GeneratePrivKey cr derivedPriv
                    in Inr (seedPrivKey, Address cr (PubKey cr seedPrivKey))))
            else Inl (SeedKeyNotMnemonic SeedKey')))"

text \<open>The seed account's balance: every amount must parse.\<close>

fun sumSeedBalance :: "sdk \<Rightarrow> Balance list \<Rightarrow> Coin list \<Rightarrow> error + Coin list" where
  "sumSeedBalance lib [] seedBalance = Inr seedBalance"
| "sumSeedBalance lib (bal # rest) seedBalance =
     (case NewIntFromString lib (bal_Amount bal) of
        None \<Rightarrow> Inl (InvalidAmount (bal_Amount bal))
      | Some amount \<Rightarrow>
          (case NewCoin lib (bal_Denom bal) amount of
             Inl p \<Rightarrow> Inl p
           | Inr coin \<Rightarrow> sumSeedBalance lib rest (Coins_Add seedBalance coin)))"

definition querySeedBalance :: "sdk \<Rightarrow> Balance list http_get \<Rightarrow> error + Coin list" where
  "querySeedBalance lib balanceResp =
     (case balanceResp of
        GetError err \<Rightarrow> Inl (QuerySeedBalanceFailed err)
      | GetResponse status body decoded \<Rightarrow>
          if status \<noteq> StatusOK then Inl (QuerySeedBalanceHTTP status body)
          else
            (case decoded of
               None \<Rightarrow> Inl DecodeBalanceFailed
             | Some balanceData \<Rightarrow> sumSeedBalance lib balanceData []))"

text \<open>The seed account's number and sequence.\<close>

definition querySeedAccount :: "account_json http_get \<Rightarrow> error + uint64 \<times> uint64" where
  "querySeedAccount accountResp =
     (case accountResp of
        GetError err \<Rightarrow> Inl (QuerySeedAccountFailed err)
      | GetResponse status body decoded \<Rightarrow>
          if status \<noteq> StatusOK then Inl (QuerySeedAccountHTTP status body)
          else
            (case decoded of
               None \<Rightarrow> Inl DecodeAccountFailed
             | Some accountData \<Rightarrow>
                 (case ParseUint (AccountNumber accountData) of
                    None \<Rightarrow> Inl ParseAccountNumberFailed
                  | Some accountNum' \<Rightarrow>
                      (case ParseUint (Sequence accountData) of
                         None \<Rightarrow> Inl ParseSequenceFailed
                       | Some sequence' \<Rightarrow> Inr (accountNum', sequence')))))"

text \<open>
  A worker's balance in the configured denom, as both the check before funding and the
  verification after it compute it: amounts that do not parse are skipped.
\<close>

fun sumBalance :: "sdk \<Rightarrow> Balance list \<Rightarrow> Coin list \<Rightarrow> error + Coin list" where
  "sumBalance lib [] balance = Inr balance"
| "sumBalance lib (bal # rest) balance =
     (case NewIntFromString lib (bal_Amount bal) of
        None \<Rightarrow> sumBalance lib rest balance
      | Some amount \<Rightarrow>
          (case NewCoin lib (bal_Denom bal) amount of
             Inl p \<Rightarrow> Inl p
           | Inr coin \<Rightarrow> sumBalance lib rest (Coins_Add balance coin)))"

text \<open>
  One round of the loop that fills \<open>needsFunding\<close>: whether the account of this balance
  answer is appended.
\<close>

definition needsFundingCheck ::
  "sdk \<Rightarrow> SeedConfig \<Rightarrow> Coin \<Rightarrow> Balance list http_get \<Rightarrow> error + bool" where
  "needsFundingCheck lib cfg fundCoin balanceResp =
     (case balanceResp of
        GetError err \<Rightarrow> Inr True
      | GetResponse status body decoded \<Rightarrow>
          if status \<noteq> StatusOK then Inr True
          else
            (case decoded of
               None \<Rightarrow> Inr True
             | Some balanceData \<Rightarrow>
                 (case sumBalance lib balanceData [] of
                    Inl p \<Rightarrow> Inl p
                  | Inr balance \<Rightarrow>
                      Inr (AmountOf balance (Denom cfg) < coin_Amount fundCoin))))"

fun needsFundingLoop ::
  "sdk \<Rightarrow> SeedConfig \<Rightarrow> Coin \<Rightarrow> (nat \<Rightarrow> Balance list http_get) \<Rightarrow> nat \<Rightarrow> keypair list
     \<Rightarrow> bytes list \<Rightarrow> error + bytes list" where
  "needsFundingLoop lib cfg fundCoin resp i [] needsFunding = Inr needsFunding"
| "needsFundingLoop lib cfg fundCoin resp i (bk # rest) needsFunding =
     (case needsFundingCheck lib cfg fundCoin (resp i) of
        Inl p \<Rightarrow> Inl p
      | Inr True \<Rightarrow>
          needsFundingLoop lib cfg fundCoin resp (Suc i) rest (needsFunding @ [bk_addr bk])
      | Inr False \<Rightarrow> needsFundingLoop lib cfg fundCoin resp (Suc i) rest needsFunding)"

text \<open>
  Polling for inclusion: \<open>Inr True\<close> when a poll reports a height and code 0, an error
  when it reports a height and another code, \<open>Inr False\<close> (\<open>txIncluded\<close> still false) when
  the polls made within \<open>maxWait\<close> are used up.
\<close>

fun pollTx :: "TxResponse http_get list \<Rightarrow> error + bool" where
  "pollTx [] = Inr False"
| "pollTx (GetError err # rest) = pollTx rest"
| "pollTx (GetResponse status body None # rest) = pollTx rest"
| "pollTx (GetResponse status body (Some txStatusData) # rest) =
     (if status = StatusOK then
        (if tx_Height txStatusData \<noteq> [] \<and> tx_Height txStatusData \<noteq> ''0'' then
           (if tx_Code txStatusData \<noteq> 0
            then Inl (TransactionFailedInBlock (tx_Height txStatusData) (tx_Code txStatusData)
                        (tx_RawLog txStatusData))
            else Inr True)
         else pollTx rest)
      else pollTx rest)"

text \<open>The height the successful poll reported (for the event).\<close>

fun includedHeight :: "TxResponse http_get list \<Rightarrow> string" where
  "includedHeight [] = []"
| "includedHeight (GetResponse status body (Some txStatusData) # rest) =
     (if status = StatusOK \<and> tx_Height txStatusData \<noteq> [] \<and> tx_Height txStatusData \<noteq> ''0''
      then tx_Height txStatusData else includedHeight rest)"
| "includedHeight (r # rest) = includedHeight rest"

text \<open>The variables of \<open>seedAccounts\<close> that the batch loop reads and does not change.\<close>

record funding =
  f_cfg :: SeedConfig
  f_fundCoin :: Coin
  f_seedPrivKey :: bytes
  f_seedAddr :: bytes
  f_accountNum :: uint64
  f_needsFunding :: "bytes list"

text \<open>
  The body of the batch loop for the index \<open>i\<close>, the sequence \<open>currentSeq\<close> and the batch
  number \<open>k\<close>: the error it returns with (\<open>None\<close> when it reaches \<open>currentSeq++\<close>) and its
  events. A negative batch size makes the slice expression panic; a batch size of 0 makes
  the division \<open>i/cfg.BatchSize\<close> in the progress line panic, once the broadcast was
  accepted and before the first poll.
\<close>

definition fundBatch ::
  "crypto \<Rightarrow> sdk \<Rightarrow> ledger \<Rightarrow> funding \<Rightarrow> nat \<Rightarrow> uint64 \<Rightarrow> nat \<Rightarrow> error option \<times> event list" where
  "fundBatch cr lib led f i currentSeq k =
     (let end0 = int i + sint (BatchSize (f_cfg f));
          end' = (if end0 > int (length (f_needsFunding f)) then int (length (f_needsFunding f))
                 else end0)
      in if end' < int i then (Some (Panic ''slice bounds out of range''), [])
         else
           (let batch = take (nat end' - i) (drop i (f_needsFunding f));
                msgs = map (\<lambda>a. \<lparr>FromAddress = AccAddressString lib (f_seedAddr f),
                                  ToAddress = AccAddressString lib a,
                                  MsgAmount = NewCoins1 (f_fundCoin f)\<rparr>) batch
            in if \<not> SetMsgs_ok lib msgs then (Some SetMessagesFailed, [])
               else
                 (let gasLimit = (100000 :: uint64) * word_of_nat (length batch);
                      minGasPrice = (25000000000 :: int);
                      feeAmount = minGasPrice * sint gasLimit
                  in case NewCoin lib (Denom (f_cfg f)) feeAmount of
                       Inl p \<Rightarrow> (Some p, [])
                     | Inr feeCoin \<Rightarrow>
                         (let b0 = \<lparr>Msgs = msgs, FeeAmount = NewCoins1 feeCoin,
                                    GasLimit = gasLimit, Signatures = []\<rparr>;
                              sigV2Empty = \<lparr>sig_PubKey = PubKey cr (f_seedPrivKey f),
                                            sig_Signature = None, sig_Sequence = currentSeq\<rparr>
                          in if \<not> SetSignatures_ok lib sigV2Empty
                             then (Some SetEmptySignatureFailed, [])
                             else
                               (let b1 = b0\<lparr>Signatures := [sigV2Empty]\<rparr>;
                                    signerData =
                                      \<lparr>sd_Address = AccAddressString lib (f_seedAddr f),
                                       sd_ChainID = ChainID (f_cfg f),
                                       sd_AccountNumber = f_accountNum f,
                                       sd_Sequence = currentSeq,
                                       sd_PubKey = PubKey cr (f_seedPrivKey f)\<rparr>
                                in case SignWithPrivKey cr lib signerData b1 (f_seedPrivKey f)
                                          currentSeq of
                                     None \<Rightarrow> (Some SignFailed, [])
                                   | Some sigV2 \<Rightarrow>
                                       if \<not> SetSignatures_ok lib sigV2
                                       then (Some SetSignatureFailed, [])
                                       else
                                         (let b2 = b1\<lparr>Signatures := [sigV2]\<rparr>;
                                              signedEv = [Signed k signerData b2]
                                          in case TxEncoder lib b2 of
                                               None \<Rightarrow> (Some EncodeFailed, signedEv)
                                             | Some txBytes' \<Rightarrow>
                                                 if dialFails led k
                                                 then (Some GrpcDialFailed, signedEv)
                                                 else
                                                   (let sentEv = signedEv @ [Broadcast k txBytes']
                                                    in case broadcastResp led k txBytes' of
                                                         BroadcastError err \<Rightarrow>
                                                           (Some (BroadcastFailed err), sentEv)
                                                       | BroadcastResponse code rawLog txHash \<Rightarrow>
                                                           if code \<noteq> 0
                                                           then (Some (TransactionFailed rawLog), sentEv)
                                                           else if sint (BatchSize (f_cfg f)) = 0
                                                           then (Some (Panic
                                                             ''runtime error: integer divide by zero''),
                                                             sentEv)
                                                           else
                                                             (case pollTx (txStatusResps led k) of
                                                                Inl e \<Rightarrow> (Some e, sentEv)
                                                              | Inr False \<Rightarrow>
                                                                  (Some (NotIncluded txHash), sentEv)
                                                              | Inr True \<Rightarrow>
                                                                  (None, sentEv @
                                                                    [Included k (includedHeight
                                                                      (txStatusResps led k))])))))))))"

text \<open>
  The batch loop \<open>for i := 0; i < len(needsFunding); i += cfg.BatchSize\<close>, with the batch
  number \<open>k\<close> counted along and the events so far in \<open>evs\<close>. The step of the index is the
  batch size, which the configuration does not bound from below, so the recursion is
  written with an option result, \<open>None\<close> standing for a loop that runs forever; since a
  round with a batch size that is not positive ends in an error or a panic, the loop
  always returns (\<open>fundLoop_total\<close> below). The result holds the error returned from
  inside the loop (\<open>None\<close> when the loop ends), \<open>currentSeq\<close> at that point, and the events.
\<close>

partial_function (option) fundLoop ::
  "crypto \<Rightarrow> sdk \<Rightarrow> ledger \<Rightarrow> funding \<Rightarrow> nat \<Rightarrow> uint64 \<Rightarrow> nat \<Rightarrow> event list
     \<Rightarrow> (error option \<times> uint64 \<times> event list) option" where
  "fundLoop cr lib led f i currentSeq k evs =
     (if i < length (f_needsFunding f) then
        (case fundBatch cr lib led f i currentSeq k of
           (Some err, ev) \<Rightarrow> Some (Some err, currentSeq, evs @ ev)
         | (None, ev) \<Rightarrow>
             fundLoop cr lib led f (nat (int i + sint (BatchSize (f_cfg f)))) (currentSeq + 1)
               (Suc k) (evs @ ev))
      else Some (None, currentSeq, evs))"

text \<open>The verification after funding: the warning one round prints, if any.\<close>

datatype warning =
    QueryBalanceWarning bytes
  | DecodeBalanceWarning bytes
  | InsufficientBalanceWarning bytes nat int

definition verifyCheck ::
  "sdk \<Rightarrow> SeedConfig \<Rightarrow> Coin \<Rightarrow> nat \<Rightarrow> bytes \<Rightarrow> Balance list http_get \<Rightarrow> error + warning option" where
  "verifyCheck lib cfg fundCoin i addr' balanceResp =
     (case balanceResp of
        GetError err \<Rightarrow> Inr (Some (QueryBalanceWarning addr'))
      | GetResponse status body decoded \<Rightarrow>
          if status \<noteq> StatusOK then Inr (Some (QueryBalanceWarning addr'))
          else
            (case decoded of
               None \<Rightarrow> Inr (Some (DecodeBalanceWarning addr'))
             | Some balanceData \<Rightarrow>
                 (case sumBalance lib balanceData [] of
                    Inl p \<Rightarrow> Inl p
                  | Inr balance \<Rightarrow>
                      if AmountOf balance (Denom cfg) < coin_Amount fundCoin
                      then Inr (Some (InsufficientBalanceWarning addr' i
                                        (AmountOf balance (Denom cfg))))
                      else Inr None)))"

fun verifyLoop ::
  "sdk \<Rightarrow> SeedConfig \<Rightarrow> Coin \<Rightarrow> (nat \<Rightarrow> Balance list http_get) \<Rightarrow> nat \<Rightarrow> bytes list
     \<Rightarrow> bool \<Rightarrow> warning list \<Rightarrow> error + bool \<times> warning list" where
  "verifyLoop lib cfg fundCoin resp i [] allFunded warnings = Inr (allFunded, warnings)"
| "verifyLoop lib cfg fundCoin resp i (a # rest) allFunded warnings =
     (case verifyCheck lib cfg fundCoin i a (resp i) of
        Inl p \<Rightarrow> Inl p
      | Inr (Some w) \<Rightarrow> verifyLoop lib cfg fundCoin resp (Suc i) rest False (warnings @ [w])
      | Inr None \<Rightarrow> verifyLoop lib cfg fundCoin resp (Suc i) rest allFunded warnings)"

text \<open>
  \<open>seedAccounts\<close>: the returned error (\<open>Inr ()\<close> for nil), the events and the warnings
  printed by the verification; the option is that of the batch loop (\<open>seedAccounts_total\<close>
  below shows that it is never \<open>None\<close>). \<open>make\<close> panics on a negative worker count.
\<close>

record seed_result =
  returned :: "error + unit"
  events :: "event list"
  warnings :: "warning list"

definition seedAccounts :: "crypto \<Rightarrow> sdk \<Rightarrow> ledger \<Rightarrow> SeedConfig \<Rightarrow> seed_result option" where
  "seedAccounts cr lib led cfg =
     (case ParseCoinNormalized lib (FundAmount cfg) of
        None \<Rightarrow> Some \<lparr>returned = Inl InvalidFundAmount, events = [], warnings = []\<rparr>
      | Some fundCoin \<Rightarrow>
     (case totalRequired lib cfg fundCoin of
        Inl p \<Rightarrow> Some \<lparr>returned = Inl p, events = [], warnings = []\<rparr>
      | Inr totalRequired' \<Rightarrow>
     (case seedKey cr cfg of
        Inl e \<Rightarrow> Some \<lparr>returned = Inl e, events = [], warnings = []\<rparr>
      | Inr (seedPrivKey, seedAddr) \<Rightarrow>
     (case querySeedBalance lib (seedBalanceResp led) of
        Inl e \<Rightarrow> Some \<lparr>returned = Inl e, events = [], warnings = []\<rparr>
      | Inr seedBalance \<Rightarrow>
     if AmountOf seedBalance (Denom cfg) < AmountOf totalRequired' (Denom cfg)
     then Some \<lparr>returned = Inl (InsufficientFunds (AmountOf seedBalance (Denom cfg))
                                  (AmountOf totalRequired' (Denom cfg))),
                events = [], warnings = []\<rparr>
     else
     (case querySeedAccount (seedAccountResp led) of
        Inl e \<Rightarrow> Some \<lparr>returned = Inl e, events = [], warnings = []\<rparr>
      | Inr (accountNum', sequence') \<Rightarrow>
     if sint (Workers cfg) < 0
     then Some \<lparr>returned = Inl (Panic ''makeslice: len out of range''), events = [],
                warnings = []\<rparr>
     else
     (case needsFundingLoop lib cfg fundCoin (workerBalanceResp led) 0
             (benchKeys cr (nat (sint (Workers cfg)))) [] of
        Inl p \<Rightarrow> Some \<lparr>returned = Inl p, events = [], warnings = []\<rparr>
      | Inr needsFunding \<Rightarrow>
     if length needsFunding = 0
     then Some \<lparr>returned = Inr (), events = [], warnings = []\<rparr>
     else
     (case fundLoop cr lib led
             \<lparr>f_cfg = cfg, f_fundCoin = fundCoin, f_seedPrivKey = seedPrivKey,
              f_seedAddr = seedAddr, f_accountNum = accountNum', f_needsFunding = needsFunding\<rparr>
             0 sequence' 0 [] of
        None \<Rightarrow> None
      | Some (Some err, currentSeq, evs) \<Rightarrow>
          Some \<lparr>returned = Inl err, events = evs, warnings = []\<rparr>
      | Some (None, currentSeq, evs) \<Rightarrow>
     (case verifyLoop lib cfg fundCoin (verifyBalanceResp led) 0 needsFunding True [] of
        Inl p \<Rightarrow> Some \<lparr>returned = Inl p, events = evs, warnings = []\<rparr>
      | Inr (allFunded, ws) \<Rightarrow>
          if \<not> allFunded
          then Some \<lparr>returned = Inl NotProperlyFunded, events = evs, warnings = ws\<rparr>
          else Some \<lparr>returned = Inr (), events = evs, warnings = ws\<rparr>))))))))"

text \<open>
  The batch loop once more, as a relation between the loop variables at the head of the
  loop and what the loop returns from there: one rule for each way a round can go.
  \<open>funding_run cr lib led f i currentSeq k evs res seq'\<close> holds when the loop, started with
  index \<open>i\<close>, sequence \<open>currentSeq\<close> and batch number \<open>k\<close>, produces the events \<open>evs\<close> and ends with
  the error \<open>res\<close> and the sequence \<open>seq'\<close>.
\<close>

inductive funding_run ::
  "crypto \<Rightarrow> sdk \<Rightarrow> ledger \<Rightarrow> funding \<Rightarrow> nat \<Rightarrow> uint64 \<Rightarrow> nat \<Rightarrow> event list \<Rightarrow> error option
     \<Rightarrow> uint64 \<Rightarrow> bool"
  for cr lib led f where
    finished:
      "\<not> i < length (f_needsFunding f) \<Longrightarrow> funding_run cr lib led f i currentSeq k [] None currentSeq"
  | failed:
      "i < length (f_needsFunding f) \<Longrightarrow> fundBatch cr lib led f i currentSeq k = (Some err, ev) \<Longrightarrow>
       funding_run cr lib led f i currentSeq k ev (Some err) currentSeq"
  | confirmed:
      "i < length (f_needsFunding f) \<Longrightarrow> fundBatch cr lib led f i currentSeq k = (None, ev) \<Longrightarrow>
       funding_run cr lib led f (nat (int i + sint (BatchSize (f_cfg f)))) (currentSeq + 1) (Suc k)
         evs res seq' \<Longrightarrow>
       funding_run cr lib led f i currentSeq k (ev @ evs) res seq'"

text \<open>The batch an event belongs to.\<close>

fun batch_of :: "event \<Rightarrow> nat" where
  "batch_of (Signed k sd b) = k"
| "batch_of (Broadcast k bs) = k"
| "batch_of (Included k h) = k"

section \<open>Concrete instances\<close>

text \<open>
  Small stand-ins for the library functions and for a ledger, used to run the definitions
  on concrete inputs.
\<close>

definition demo_crypto :: crypto where
  "demo_crypto =
     \<lparr>Sum256 = (\<lambda>b. b), PrivKeyFromBytes = (\<lambda>b. b), PubKey = (\<lambda>b. b),
      Address = (\<lambda>b. b), Sign = (\<lambda>k m. Some m),
      DecodeHex = (\<lambda>s. if even (length s) then Some (bytes_of (take (length s div 2) s)) else None),
      DeriveMnemonic = (\<lambda>m. Some (bytes_of m)), GeneratePrivKey = (\<lambda>b. b)\<rparr>"

definition demo_sdk :: sdk where
  "demo_sdk =
     \<lparr>ValidateDenom = (\<lambda>d. 3 \<le> length d),
      AccAddressFromBech32 = (\<lambda>s. if s = [] then None else Some (bytes_of s)),
      AccAddressString = (\<lambda>b. ''perpx1'' @ decimal (length b)),
      ParseCoinNormalized =
        (\<lambda>s. if takeWhile is_digit s = [] \<or> dropWhile is_digit s = [] then None
             else Some \<lparr>coin_Denom = dropWhile is_digit s,
                        coin_Amount = int (digits_value (takeWhile is_digit s))\<rparr>),
      NewIntFromString =
        (\<lambda>s. if s \<noteq> [] \<and> list_all is_digit s then Some (int (digits_value s)) else None),
      SetMsgs_ok = (\<lambda>ms. True),
      SetSignatures_ok = (\<lambda>s. True),
      GetSignBytes = (\<lambda>sd b. Some []),
      TxEncoder = (\<lambda>b. Some [])\<rparr>"

definition demo_os :: os_env where
  "demo_os = (\<lambda>key. [])"

definition demo_cfg :: Config where
  "demo_cfg = \<lparr>Connections = 1, Time = 10, Count = 0,
               Endpoints = [''ws://localhost:36657/websocket'']\<rparr>"

definition demo_strategy :: BankSendStrategy where
  "demo_strategy = \<lparr>chainID = ''localperpxprotocol'', denom = ''aperpx'',
                     sinkAddr = ''perpx1kyfmupa8z5jtxgf5f4gt285sepeg6eqnzvs25m''\<rparr>"

definition demo_client :: PerpxBankClient where
  "demo_client =
     \<lparr>config = demo_cfg, strategy = demo_strategy, privKey = [1, 2, 3], addr = [4, 5, 6],
      accountNum = 0, sequence = 0, accountQueried = False,
      restURL = ''http://localhost:31317''\<rparr>"

definition demo_account :: "account_json http_get" where
  "demo_account = GetResponse 200 ''{}'' (Some \<lparr>AccountNumber = ''7'', Sequence = ''41''\<rparr>)"

text \<open>A seed run for three workers in batches of two, against a ledger that confirms every batch.\<close>

definition demo_seed_cfg :: SeedConfig where
  "demo_seed_cfg =
     \<lparr>Workers = 3, SeedKey = ''alice'', SeedPrivateKey = [], RPC = ''http://localhost:36657'',
      ChainID = ''localperpxprotocol'', Denom = ''aperpx'', FundAmount = ''1000000aperpx'',
      BatchSize = 2\<rparr>"

definition demo_fundCoin :: Coin where
  "demo_fundCoin = \<lparr>coin_Denom = ''aperpx'', coin_Amount = 1000000\<rparr>"

definition demo_funded :: "Balance list http_get" where
  "demo_funded = GetResponse 200 ''{}'' (Some [\<lparr>bal_Denom = ''aperpx'', bal_Amount = ''1000000''\<rparr>])"

definition demo_ledger :: ledger where
  "demo_ledger =
     \<lparr>seedBalanceResp =
        GetResponse 200 ''{}'' (Some [\<lparr>bal_Denom = ''aperpx'', bal_Amount = ''99000000''\<rparr>]),
      seedAccountResp = demo_account,
      workerBalanceResp = (\<lambda>i. GetResponse 404 ''not found'' None),
      dialFails = (\<lambda>k. False),
      broadcastResp = (\<lambda>k bs. BroadcastResponse 0 [] ''ABCD''),
      txStatusResps =
        (\<lambda>k. [GetResponse 404 ''tx not found'' None,
              GetResponse 200 ''{}'' (Some \<lparr>tx_Height = ''12'', tx_Code = 0, tx_RawLog = []\<rparr>)]),
      verifyBalanceResp = (\<lambda>i. demo_funded)\<rparr>"

text \<open>A ledger on which every worker is funded and the seed account is empty.\<close>

definition demo_spent_ledger :: ledger where
  "demo_spent_ledger =
     demo_ledger\<lparr>seedBalanceResp := GetResponse 200 ''{}'' (Some []),
                 workerBalanceResp := (\<lambda>i. demo_funded)\<rparr>"

text \<open>
  A ledger that includes the first batch and never answers the polls for the later ones
  with a height.
\<close>

definition demo_timeout_ledger :: ledger where
  "demo_timeout_ledger =
     demo_ledger\<lparr>txStatusResps :=
       (\<lambda>k. if k = 0 then txStatusResps demo_ledger 0
            else [GetResponse 404 ''tx not found'' None, GetError ''timeout''])\<rparr>"

text \<open>The same run for ten workers in batches of four.\<close>

definition demo_seed_cfg10 :: SeedConfig where
  "demo_seed_cfg10 = demo_seed_cfg\<lparr>Workers := 10, BatchSize := 4\<rparr>"

section \<open>Decimal text\<close>

lemma digit_nth_value: "n < 10 \<Longrightarrow> (of_char (''0123456789'' ! n) :: nat) - 48 = n"
proof -
  assume "n < 10"
  then have "n \<in> {0,1,2,3,4,5,6,7,8,9}" by auto
  then show ?thesis by auto
qed

lemma digit_nth_is_digit: "n < 10 \<Longrightarrow> is_digit (''0123456789'' ! n)"
proof -
  assume "n < 10"
  then have "n \<in> {0,1,2,3,4,5,6,7,8,9}" by auto
  then show ?thesis by (auto simp: is_digit_def)
qed

lemma digits_value_snoc:
  "digits_value (s @ [c]) = 10 * digits_value s + ((of_char c :: nat) - 48)"
  by (simp add: digits_value_def)

lemma decimal_value: "digits_value (decimal n) = n"
proof (induction n rule: decimal.induct)
  case (1 n)
  show ?case
  proof (cases "n < 10")
    case True
    then show ?thesis
      by (subst decimal.simps) (simp add: digits_value_def digit_nth_value)
  next
    case False
    with 1 have "digits_value (decimal (n div 10)) = n div 10" by simp
    with False show ?thesis
      by (subst decimal.simps) (simp add: digits_value_snoc digit_nth_value)
  qed
qed

lemma decimal_digits: "list_all is_digit (decimal n)"
proof (induction n rule: decimal.induct)
  case (1 n)
  show ?case
  proof (cases "n < 10")
    case True
    then show ?thesis
      by (subst decimal.simps) (simp add: digit_nth_is_digit)
  next
    case False
    with 1 have "list_all is_digit (decimal (n div 10))" by simp
    with False show ?thesis
      by (subst decimal.simps) (simp add: digit_nth_is_digit)
  qed
qed

lemma decimal_inj: "decimal m = decimal n \<Longrightarrow> m = n"
  by (metis decimal_value)

lemma minus_not_decimal: "CHR ''-'' # s \<noteq> decimal n"
proof
  assume "CHR ''-'' # s = decimal n"
  then have "list_all is_digit (CHR ''-'' # s)" using decimal_digits [of n] by simp
  then have "is_digit CHR ''-''" by simp
  then show False by (simp add: is_digit_def)
qed

lemma fmt_d_inj: "fmt_d i = fmt_d j \<Longrightarrow> i = j"
proof -
  assume eq: "fmt_d i = fmt_d j"
  consider "i < 0" "j < 0" | "i < 0" "0 \<le> j" | "0 \<le> i" "j < 0" | "0 \<le> i" "0 \<le> j"
    by linarith
  then show ?thesis
  proof cases
    case 1
    with eq have "nat (- i) = nat (- j)" by (simp add: fmt_d_def decimal_inj)
    with 1 show ?thesis by simp
  next
    case 2
    with eq show ?thesis using minus_not_decimal by (simp add: fmt_d_def)
  next
    case 3
    with eq show ?thesis using minus_not_decimal [of "decimal (nat (- j))" "nat i"]
      by (simp add: fmt_d_def)
  next
    case 4
    with eq have "nat i = nat j" by (simp add: fmt_d_def decimal_inj)
    with 4 show ?thesis by simp
  qed
qed

lemma sint_inj64: "sint (i :: 64 word) = sint j \<Longrightarrow> i = j"
proof -
  assume "sint i = sint j"
  then have "(of_int (sint i) :: 64 word) = of_int (sint j)" by simp
  then show "i = j" by simp
qed

lemma of_char_word8_inj: "(of_char c :: 8 word) = of_char d \<Longrightarrow> c = d"
proof -
  assume eq: "(of_char c :: 8 word) = of_char d"
  have u: "unat (of_char x :: 8 word) = of_char x" for x
  proof -
    have "(of_char x :: 8 word) = of_nat (of_char x)" by (simp add: of_nat_of_char)
    then have "unat (of_char x :: 8 word) = (of_char x :: nat) mod 256" by (simp add: unat_of_nat)
    then show ?thesis using nat_of_char_less_256 [of x] by simp
  qed
  from eq have "(of_char c :: nat) = of_char d" by (metis u)
  then show ?thesis by simp
qed

lemma bytes_of_inj: "bytes_of s = bytes_of t \<Longrightarrow> s = t"
  unfolding bytes_of_def
  by (rule map_injective) (auto simp: inj_on_def dest: of_char_word8_inj)

section \<open>Account derivation: the seed command and the client agree\<close>

lemma workerSeedStr_inj: "workerSeedStr i = workerSeedStr j \<Longrightarrow> i = j"
  by (auto simp: workerSeedStr_def dest!: fmt_d_inj sint_inj64)

lemma benchKey_inj:
  assumes "inj (Sum256 cr)" "inj (PrivKeyFromBytes cr)" "inj (PubKey cr)" "inj (Address cr)"
    and "bk_addr (benchKey cr i) = bk_addr (benchKey cr j)"
  shows "i = j"
proof -
  from assms have "Sum256 cr (bytes_of (workerSeedStr i)) @ [ucast i :: byte]
      = Sum256 cr (bytes_of (workerSeedStr j)) @ [ucast j]"
    by (simp add: benchKey_def Let_def inj_eq)
  then have "bytes_of (workerSeedStr i) = bytes_of (workerSeedStr j)"
    using assms(1) by (simp add: inj_eq)
  then show ?thesis by (blast dest: bytes_of_inj workerSeedStr_inj)
qed

lemma NewPerpxBankClient_key:
  "NewPerpxBankClient cr cfg st sk w = Inr c \<Longrightarrow>
   privKey c = bk_privKey (benchKey cr w) \<and> addr c = bk_addr (benchKey cr w)"
  by (auto simp: NewPerpxBankClient_def benchKey_def workerSeedStr_def Let_def split: list.splits)

lemma NewPerpxBankClient_Inl:
  "NewPerpxBankClient cr cfg st sk w = Inl e \<Longrightarrow> \<exists>m. e = Panic m"
  by (auto simp: NewPerpxBankClient_def Let_def split: list.splits)

lemma NewPerpxBankClient_Inr:
  "Endpoints cfg \<noteq> [] \<Longrightarrow> \<exists>c. NewPerpxBankClient cr cfg st sk w = Inr c"
  by (auto simp: NewPerpxBankClient_def Let_def split: list.splits)

lemma benchKeys_nth: "i < workers \<Longrightarrow> benchKeys cr workers ! i = benchKey cr (word_of_nat i)"
  by (simp add: benchKeys_def)

text \<open>
  C3. For every worker index \<open>i\<close> below the worker count, the key pair the seed command
  stores in \<open>benchKeys[i]\<close> and the key pair of the client created with id \<open>i\<close> are the
  same: the same private key bytes and the same address, whatever the client's
  configuration, strategy and seed key are. Both are the value of one function of the
  index (and of the hash and key functions) alone.
\<close>

theorem seed_and_client_derive_same_account:
  assumes "i < workers"
    and "NewPerpxBankClient cr cfg st sk (word_of_nat i) = Inr c"
  shows "privKey c = bk_privKey (benchKeys cr workers ! i)
       \<and> addr c = bk_addr (benchKeys cr workers ! i)
       \<and> benchKeys cr workers ! i = benchKey cr (word_of_nat i)"
  using assms by (simp add: NewPerpxBankClient_key benchKeys_nth)

theorem seed_and_client_derive_same_account_witness:
  "\<exists>c. NewPerpxBankClient demo_crypto demo_cfg demo_strategy [] (word_of_nat 3) = Inr c
     \<and> (3 :: nat) < 10
     \<and> privKey c = bk_privKey (benchKeys demo_crypto 10 ! 3)
     \<and> addr c = bk_addr (benchKeys demo_crypto 10 ! 3)"
proof -
  have "Endpoints demo_cfg \<noteq> []" by (simp add: demo_cfg_def)
  from NewPerpxBankClient_Inr [OF this]
  obtain c where c: "NewPerpxBankClient demo_crypto demo_cfg demo_strategy [] (word_of_nat 3) = Inr c"
    by blast
  have lt: "(3 :: nat) < 10" by simp
  from seed_and_client_derive_same_account [OF lt c] c lt show ?thesis by blast
qed

section \<open>The per-worker sequence counter\<close>

lemma ensure_queried: "accountQueried c \<Longrightarrow> ensureAccountQueried lib resp c = (None, c)"
  by (simp add: ensureAccountQueried_def)

lemma ensure_None_queried:
  "ensureAccountQueried lib resp c = (None, c0) \<Longrightarrow> accountQueried c0"
  by (auto simp: ensureAccountQueried_def Let_def split: if_splits http_get.splits option.splits)

lemma ensure_Some_unchanged:
  "ensureAccountQueried lib resp c = (Some e, c0) \<Longrightarrow> c0 = c"
  by (auto simp: ensureAccountQueried_def Let_def split: if_splits http_get.splits option.splits)

lemma GenerateTx_state:
  "ensureAccountQueried lib resp c = (None, c0) \<Longrightarrow>
   snd (GenerateTx cr lib resp c) = c0\<lparr>sequence := sequence c0 + 1\<rparr>"
  by (simp add: GenerateTx_def Let_def split: sum.split error.split option.split)

lemma GenerateTx_Inr:
  "GenerateTx cr lib resp c = (Inr t, c') \<Longrightarrow> ensureAccountQueried lib resp c = (None, c0) \<Longrightarrow>
   sd_Sequence (signer t) = sequence c0 \<and> map sig_Sequence (Signatures (tx t)) = [sequence c0]
   \<and> sd_AccountNumber (signer t) = accountNum c0"
  by (auto simp: GenerateTx_def Let_def SignWithPrivKey_def
           split: sum.splits error.splits option.splits if_splits)

lemma GenerateTx_fail:
  "ensureAccountQueried lib resp c = (Some e, c0) \<Longrightarrow> GenerateTx cr lib resp c = (Inl e, c)"
  by (frule ensure_Some_unchanged) (simp add: GenerateTx_def)

lemma map_upt_shift: "map f [0..<Suc n] = f 0 # map (\<lambda>k. f (Suc k)) [0..<n]"
proof -
  have "[0..<Suc n] = 0 # map Suc [0..<n]"
    by (simp add: upt_conv_Cons map_Suc_upt del: upt_Suc)
  then show ?thesis by (simp only: list.map map_map o_def)
qed

lemma GenerateTxs_resolved:
  "accountQueried c \<Longrightarrow> GenerateTxs cr lib resps c = (map Inr txs, c') \<Longrightarrow>
   length txs = length resps
   \<and> map (\<lambda>t. sd_Sequence (signer t)) txs = map (\<lambda>k. sequence c + word_of_nat k) [0..<length resps]
   \<and> map (\<lambda>t. map sig_Sequence (Signatures (tx t))) txs
       = map (\<lambda>k. [sequence c + word_of_nat k]) [0..<length resps]
   \<and> list_all (\<lambda>t. sd_AccountNumber (signer t) = accountNum c) txs
   \<and> sequence c' = sequence c + word_of_nat (length resps)
   \<and> accountQueried c' \<and> accountNum c' = accountNum c"
proof (induction resps arbitrary: c txs)
  case Nil
  then show ?case by simp
next
  case (Cons resp resps)
  obtain r c1 where g: "GenerateTx cr lib resp c = (r, c1)" by (cases "GenerateTx cr lib resp c")
  obtain rs c2 where g2: "GenerateTxs cr lib resps c1 = (rs, c2)"
    by (cases "GenerateTxs cr lib resps c1")
  have e: "ensureAccountQueried lib resp c = (None, c)" using Cons.prems(1) by (rule ensure_queried)
  have c1: "c1 = c\<lparr>sequence := sequence c + 1\<rparr>" using GenerateTx_state [OF e, of cr] g by simp
  have np: "\<not> is_Panic r"
  proof
    assume "is_Panic r"
    with Cons.prems(2) g have "map Inr txs = [r]" by simp
    with \<open>is_Panic r\<close> show False by (auto simp: is_Panic_def map_eq_Cons_conv)
  qed
  with Cons.prems(2) g g2 have eq: "map Inr txs = r # rs" and c2: "c2 = c'" by simp_all
  then obtain t txs' where txs: "txs = t # txs'" and r: "r = Inr t" and rs: "rs = map Inr txs'"
    by (auto simp: map_eq_Cons_conv)
  have q1: "accountQueried c1" using c1 Cons.prems(1) by simp
  from g2 rs c2 have run': "GenerateTxs cr lib resps c1 = (map Inr txs', c')" by simp
  note ih = Cons.IH [OF q1 run']
  note hd = GenerateTx_Inr [OF g [unfolded r] e]
  have sh: "sequence c1 + word_of_nat k = sequence c + word_of_nat (Suc k)" for k
    by (simp add: c1)
  have len: "length txs = length (resp # resps)" using ih by (simp add: txs)
  have s1: "map (\<lambda>t. sd_Sequence (signer t)) txs
      = map (\<lambda>k. sequence c + word_of_nat k) [0..<length (resp # resps)]"
    using ih hd unfolding sh txs length_Cons map_upt_shift [of _ "length resps"] by simp
  have s2: "map (\<lambda>t. map sig_Sequence (Signatures (tx t))) txs
      = map (\<lambda>k. [sequence c + word_of_nat k]) [0..<length (resp # resps)]"
    using ih hd unfolding sh txs length_Cons map_upt_shift [of _ "length resps"] by simp
  have s3: "list_all (\<lambda>t. sd_AccountNumber (signer t) = accountNum c) txs"
    using ih hd by (simp add: txs c1)
  have s4: "sequence c' = sequence c + word_of_nat (length (resp # resps))"
    using ih unfolding sh by simp
  have s5: "accountQueried c' \<and> accountNum c' = accountNum c"
    using ih by (simp add: c1)
  show ?case using len s1 s2 s3 s4 s5 by blast
qed

lemma GenerateTxs_first:
  assumes e: "ensureAccountQueried lib resp c = (None, c0)"
    and run: "GenerateTxs cr lib (resp # resps) c = (map Inr txs, c')"
  shows "GenerateTxs cr lib (resp # resps) c0 = (map Inr txs, c')"
proof -
  have q: "accountQueried c0" using e by (rule ensure_None_queried)
  have e0: "ensureAccountQueried lib resp c0 = (None, c0)" using q by (rule ensure_queried)
  have "GenerateTx cr lib resp c = GenerateTx cr lib resp c0"
    by (simp add: GenerateTx_def e e0)
  with run show ?thesis by simp
qed

lemma word64_of_nat_inj:
  "j < 2 ^ 64 \<Longrightarrow> k < 2 ^ 64 \<Longrightarrow> (word_of_nat j :: 64 word) = word_of_nat k \<Longrightarrow> j = k"
  by (simp add: word_of_nat_eq_iff take_bit_nat_eq_self)

lemma distinct_word_offsets:
  assumes "n \<le> 2 ^ 64"
  shows "distinct (map (\<lambda>k. (s :: 64 word) + word_of_nat k) [0..<n])"
proof -
  have "inj_on (\<lambda>k. s + word_of_nat k) (set [0..<n])"
  proof (rule inj_onI)
    fix x y
    assume "x \<in> set [0..<n]" "y \<in> set [0..<n]" and eq: "s + word_of_nat x = s + word_of_nat y"
    then have "x < 2 ^ 64" "y < 2 ^ 64" using assms by auto
    moreover from eq have "(word_of_nat x :: 64 word) = word_of_nat y" by simp
    ultimately show "x = y" by (rule word64_of_nat_inj)
  qed
  then show ?thesis by (simp add: distinct_map)
qed

lemma unat_word_offset:
  "unat (s :: 64 word) + k < 2 ^ 64 \<Longrightarrow> unat (s + word_of_nat k) = unat s + k"
  by (simp add: unat_word_ariths unat_of_nat)

lemma unat_word_offsets:
  "unat (s :: 64 word) + n \<le> 2 ^ 64 \<Longrightarrow>
   map (\<lambda>k. unat (s + word_of_nat k)) [0..<n] = [unat s..<unat s + n]"
proof -
  assume b: "unat s + n \<le> 2 ^ 64"
  have "map (\<lambda>k. unat (s + word_of_nat k)) [0..<n] = map (\<lambda>k. unat s + k) [0..<n]"
    using b by (intro map_cong refl) (simp add: unat_word_offset)
  also have "\<dots> = map (\<lambda>k. k + unat s) [0..<n]"
    by (simp add: add.commute)
  also have "\<dots> = [unat s..<unat s + n]"
    by (simp add: map_add_upt add.commute)
  finally show ?thesis .
qed

text \<open>
  C1. Take a client whose account resolution succeeds in its first call, with starting
  sequence \<open>s0 = sequence c0\<close>, and a run of \<open>n\<close> calls of \<open>GenerateTx\<close> that all succeed.
  The call number \<open>k\<close> (from 0) returns a transaction signed with sequence \<open>s0 + k\<close>, in the
  signer data and in the signature entry of the transaction: each one greater than that
  of the call before. The sequence numbers form the set \<open>{s0, ..., s0 + n - 1}\<close> without
  duplicates, and the counter ends at \<open>s0 + n\<close>. Sequence numbers are \<open>uint64\<close> and \<open>+\<close> is
  Go's addition on them, which wraps at \<open>2 ^ 64\<close>; as long as \<open>s0 + n\<close> stays within
  \<open>2 ^ 64\<close> the numbers are the natural numbers \<open>s0, s0 + 1, ..., s0 + n - 1\<close>.
\<close>

theorem GenerateTx_sequence_numbers:
  assumes "ensureAccountQueried lib resp c = (None, c0)"
    and "GenerateTxs cr lib (resp # resps) c = (map Inr txs, c')"
  shows "length txs = length (resp # resps)
       \<and> map (\<lambda>t. sd_Sequence (signer t)) txs
           = map (\<lambda>k. sequence c0 + word_of_nat k) [0..<length txs]
       \<and> map (\<lambda>t. map sig_Sequence (Signatures (tx t))) txs
           = map (\<lambda>k. [sequence c0 + word_of_nat k]) [0..<length txs]
       \<and> set (map (\<lambda>t. sd_Sequence (signer t)) txs)
           = (\<lambda>k. sequence c0 + word_of_nat k) ` {0..<length txs}
       \<and> (length txs \<le> 2 ^ 64 \<longrightarrow> distinct (map (\<lambda>t. sd_Sequence (signer t)) txs))
       \<and> (unat (sequence c0) + length txs \<le> 2 ^ 64 \<longrightarrow>
            map (\<lambda>t. unat (sd_Sequence (signer t))) txs
              = [unat (sequence c0)..<unat (sequence c0) + length txs])
       \<and> sequence c' = sequence c0 + word_of_nat (length txs)
       \<and> accountQueried c'"
proof -
  have q: "accountQueried c0" using assms(1) by (rule ensure_None_queried)
  note r = GenerateTxs_resolved [OF q GenerateTxs_first [OF assms]]
  from r have len: "length txs = length (resp # resps)" by blast
  from r have s1: "map (\<lambda>t. sd_Sequence (signer t)) txs
           = map (\<lambda>k. sequence c0 + word_of_nat k) [0..<length txs]"
    unfolding len by blast
  from r have s2: "map (\<lambda>t. map sig_Sequence (Signatures (tx t))) txs
           = map (\<lambda>k. [sequence c0 + word_of_nat k]) [0..<length txs]"
    unfolding len by blast
  have s3: "set (map (\<lambda>t. sd_Sequence (signer t)) txs)
           = (\<lambda>k. sequence c0 + word_of_nat k) ` {0..<length txs}"
    unfolding s1 by simp
  have s4: "length txs \<le> 2 ^ 64 \<longrightarrow> distinct (map (\<lambda>t. sd_Sequence (signer t)) txs)"
    unfolding s1 by (simp add: distinct_word_offsets)
  have s5: "unat (sequence c0) + length txs \<le> 2 ^ 64 \<longrightarrow>
            map (\<lambda>t. unat (sd_Sequence (signer t))) txs
              = [unat (sequence c0)..<unat (sequence c0) + length txs]"
  proof
    assume b: "unat (sequence c0) + length txs \<le> 2 ^ 64"
    have "map (\<lambda>t. unat (sd_Sequence (signer t))) txs
        = map unat (map (\<lambda>t. sd_Sequence (signer t)) txs)" by simp
    also have "\<dots> = map (\<lambda>k. unat (sequence c0 + word_of_nat k)) [0..<length txs]"
      unfolding s1 by simp
    also have "\<dots> = [unat (sequence c0)..<unat (sequence c0) + length txs]"
      using b by (rule unat_word_offsets)
    finally show "map (\<lambda>t. unat (sd_Sequence (signer t))) txs
        = [unat (sequence c0)..<unat (sequence c0) + length txs]" .
  qed
  from r have s6: "sequence c' = sequence c0 + word_of_nat (length txs)"
    unfolding len by blast
  from r have s7: "accountQueried c'" by blast
  show ?thesis using len s1 s2 s3 s4 s5 s6 s7 by blast
qed

lemma all_Inr_map: "list_all (\<lambda>r. \<not> isl r) rs \<Longrightarrow> \<exists>xs. rs = map Inr xs"
proof (induction rs)
  case Nil
  then show ?case by simp
next
  case (Cons r rs)
  then obtain xs where "rs = map Inr xs" by auto
  moreover from Cons.prems obtain x where "r = Inr x" by (cases r) auto
  ultimately have "r # rs = map Inr (x # xs)" by simp
  then show ?case by (rule exI [of _ "x # xs"])
qed

text \<open>When no library call fails, a call on a resolved account returns a transaction.\<close>

lemma GenerateTx_succeeds:
  assumes "ensureAccountQueried lib resp c = (None, c0)"
    and "AccAddressFromBech32 lib (AccAddressString lib (addr c0)) \<noteq> None"
    and "ValidateDenom lib (denom (strategy c0))"
    and "\<And>ms. SetMsgs_ok lib ms" and "\<And>s. SetSignatures_ok lib s"
    and "\<And>sd b. GetSignBytes lib sd b \<noteq> None" and "\<And>k m. Sign cr k m \<noteq> None"
    and "\<And>b. TxEncoder lib b \<noteq> None"
  shows "\<exists>t. GenerateTx cr lib resp c = (Inr t, c0\<lparr>sequence := sequence c0 + 1\<rparr>)"
proof -
  have "\<exists>t. fst (GenerateTx cr lib resp c) = Inr t"
    by (simp add: GenerateTx_def Let_def CreateMsg_def NewCoin_def SignWithPrivKey_def assms
             split: option.split)
  with GenerateTx_state [OF assms(1), of cr] show ?thesis
    by (metis prod.collapse)
qed

lemma GenerateTxs_succeed:
  assumes "\<And>ms. SetMsgs_ok lib ms" and "\<And>s. SetSignatures_ok lib s"
    and "\<And>sd b. GetSignBytes lib sd b \<noteq> None" and "\<And>k m. Sign cr k m \<noteq> None"
    and "\<And>b. TxEncoder lib b \<noteq> None"
  shows "accountQueried c \<Longrightarrow> AccAddressFromBech32 lib (AccAddressString lib (addr c)) \<noteq> None \<Longrightarrow>
         ValidateDenom lib (denom (strategy c)) \<Longrightarrow>
         \<exists>txs c'. GenerateTxs cr lib resps c = (map Inr txs, c')"
proof (induction resps arbitrary: c)
  case Nil
  have "GenerateTxs cr lib [] c = (map Inr [], c)" by simp
  then show ?case by blast
next
  case (Cons resp resps)
  have e: "ensureAccountQueried lib resp c = (None, c)" using Cons.prems(1) by (rule ensure_queried)
  from GenerateTx_succeeds [OF e Cons.prems(2,3) assms]
  obtain t where t: "GenerateTx cr lib resp c = (Inr t, c\<lparr>sequence := sequence c + 1\<rparr>)" by blast
  let ?c1 = "c\<lparr>sequence := sequence c + 1\<rparr>"
  have "\<exists>txs c'. GenerateTxs cr lib resps ?c1 = (map Inr txs, c')"
    using Cons.prems by (intro Cons.IH) simp_all
  then obtain txs c' where r: "GenerateTxs cr lib resps ?c1 = (map Inr txs, c')" by blast
  have "GenerateTxs cr lib (resp # resps) c = (map Inr (t # txs), c')"
    using t r by (simp add: is_Panic_def)
  then show ?case by blast
qed

theorem GenerateTx_sequence_numbers_witness:
  "\<exists>txs c'. GenerateTxs demo_crypto demo_sdk [demo_account, demo_account, demo_account] demo_client
              = (map Inr txs, c')
     \<and> map (\<lambda>t. sd_Sequence (signer t)) txs = [41, 42, 43]
     \<and> map (\<lambda>t. unat (sd_Sequence (signer t))) txs = [41, 42, 43]
     \<and> distinct (map (\<lambda>t. sd_Sequence (signer t)) txs)
     \<and> sequence c' = 44"
proof -
  let ?c0 = "demo_client\<lparr>accountNum := 7, sequence := 41, accountQueried := True\<rparr>"
  let ?resps = "[demo_account, demo_account, demo_account]"
  have e: "ensureAccountQueried demo_sdk demo_account demo_client = (None, ?c0)"
    by (simp add: ensureAccountQueried_def demo_account_def demo_client_def StatusOK_def
          ParseUint_def is_digit_def digits_value_def)
  have e0: "ensureAccountQueried demo_sdk demo_account ?c0 = (None, ?c0)"
    by (simp add: ensureAccountQueried_def)
  have "GenerateTx demo_crypto demo_sdk demo_account demo_client
      = GenerateTx demo_crypto demo_sdk demo_account ?c0"
    by (simp add: GenerateTx_def e e0)
  then have same: "GenerateTxs demo_crypto demo_sdk ?resps demo_client
      = GenerateTxs demo_crypto demo_sdk ?resps ?c0" by simp
  have "\<exists>txs c'. GenerateTxs demo_crypto demo_sdk ?resps ?c0 = (map Inr txs, c')"
    by (rule GenerateTxs_succeed)
       (simp_all add: demo_sdk_def demo_crypto_def demo_client_def demo_strategy_def)
  then obtain txs c'
    where run: "GenerateTxs demo_crypto demo_sdk ?resps demo_client = (map Inr txs, c')"
    using same by auto
  note t = GenerateTx_sequence_numbers [OF e run]
  have s0: "sequence ?c0 = 41" by simp
  from t have len: "length txs = 3" by simp
  have u: "[0..<3] = [0, 1, 2]" by (simp add: upt_rec)
  from t have a: "map (\<lambda>t. sd_Sequence (signer t)) txs = [41, 42, 43]"
    unfolding len s0 u by simp
  have b: "map (\<lambda>t. unat (sd_Sequence (signer t))) txs = map unat [41, 42, 43 :: 64 word]"
    unfolding a [symmetric] by simp
  have d: "distinct (map (\<lambda>t. sd_Sequence (signer t)) txs)"
    unfolding a by simp
  from t have f: "sequence c' = 44" unfolding len s0 by simp
  from run a b d f show ?thesis by simp
qed

section \<open>An account that cannot be resolved\<close>

text \<open>
  C6. When the client has not resolved its account yet and the account query fails
  (a transport error, or a response whose status is not 200), \<open>GenerateTx\<close> returns an
  error whose message says the account may not exist and advises running the seed
  command first, and the client is left exactly as it was: the sequence counter, the
  account number and the resolved flag are unchanged.
\<close>

theorem GenerateTx_unresolved_account:
  assumes "\<not> accountQueried c"
    and "case resp of GetError err \<Rightarrow> True | GetResponse status body decoded \<Rightarrow> status \<noteq> StatusOK"
  shows "\<exists>e. GenerateTx cr lib resp c = (Inl e, c)
           \<and> sublist ''may not exist - run 'seed' command first'' (Error e)
           \<and> sequence (snd (GenerateTx cr lib resp c)) = sequence c
           \<and> accountNum (snd (GenerateTx cr lib resp c)) = accountNum c
           \<and> accountQueried (snd (GenerateTx cr lib resp c)) = False"
proof (cases resp)
  case (GetError err)
  let ?e = "QueryAccountFailed
              (restURL c @ ''/cosmos/auth/v1beta1/accounts/'' @ AccAddressString lib (addr c))
              (AccAddressString lib (addr c)) err"
  have "ensureAccountQueried lib resp c = (Some ?e, c)"
    using assms(1) GetError by (simp add: ensureAccountQueried_def Let_def)
  then have g: "GenerateTx cr lib resp c = (Inl ?e, c)" by (rule GenerateTx_fail)
  have "sublist ''may not exist - run 'seed' command first'' (Error ?e)"
    unfolding sublist_def
    by (rule exI [of _ "''failed to query account via REST API at ''
          @ (restURL c @ ''/cosmos/auth/v1beta1/accounts/'' @ AccAddressString lib (addr c))
          @ '' (account '' @ AccAddressString lib (addr c) @ '' ''"],
        rule exI [of _ "''): '' @ err"]) simp
  with g assms(1) show ?thesis by simp
next
  case (GetResponse status body decoded)
  let ?e = "QueryAccountHTTP status body (AccAddressString lib (addr c))"
  have "ensureAccountQueried lib resp c = (Some ?e, c)"
    using assms GetResponse by (simp add: ensureAccountQueried_def Let_def)
  then have g: "GenerateTx cr lib resp c = (Inl ?e, c)" by (rule GenerateTx_fail)
  have "sublist ''may not exist - run 'seed' command first'' (Error ?e)"
    unfolding sublist_def
    by (rule exI [of _ "''failed to query account: HTTP '' @ fmt_d (int status) @ '': '' @ body
          @ '' (account '' @ AccAddressString lib (addr c) @ '' ''"],
        rule exI [of _ "'')''"]) simp
  with g assms(1) show ?thesis by simp
qed

theorem GenerateTx_unresolved_account_witness:
  "\<exists>e. GenerateTx demo_crypto demo_sdk (GetResponse 404 ''account not found'' None) demo_client
          = (Inl e, demo_client)
      \<and> sublist ''may not exist - run 'seed' command first'' (Error e)
      \<and> sequence (snd (GenerateTx demo_crypto demo_sdk
            (GetResponse 404 ''account not found'' None) demo_client)) = 0"
proof -
  have q: "\<not> accountQueried demo_client" by (simp add: demo_client_def)
  have r: "case (GetResponse 404 ''account not found'' None :: account_json http_get) of
             GetError err \<Rightarrow> True
           | GetResponse status body decoded \<Rightarrow> status \<noteq> StatusOK"
    by (simp add: StatusOK_def)
  from GenerateTx_unresolved_account [OF q r, of demo_crypto demo_sdk]
  show ?thesis by (auto simp: demo_client_def)
qed

section \<open>Worker ids handed out by the factory\<close>

lemma NewClient_result:
  assumes "NewClient cr lib os f cfg = (r, f1)" and "\<not> is_Panic r"
  shows "case r of
           Inl e \<Rightarrow> f1 = f
         | Inr c \<Rightarrow> f1 = f\<lparr>workerCounter := workerCounter f + 1\<rparr>
                    \<and> (\<exists>st sk. NewPerpxBankClient cr cfg st sk (workerCounter f) = Inr c)"
proof (cases "NewBankSendStrategy lib (getEnv os ''LOADTEST_CHAIN_ID'' ''localperpxprotocol'')
                (getEnv os ''LOADTEST_DENOM'' ''aperpx'')
                (getEnv os ''LOADTEST_SINK_ADDRESS''
                   ''perpx1kyfmupa8z5jtxgf5f4gt285sepeg6eqnzvs25m'')")
  case (Inl e)
  with assms(1) show ?thesis by (auto simp: NewClient_def Let_def)
next
  case (Inr st)
  let ?sk = "getEnv os ''LOADTEST_SEED_KEY'' []"
  show ?thesis
  proof (cases "NewPerpxBankClient cr cfg st ?sk (workerCounter f)")
    case (Inl e)
    then obtain m where "e = Panic m" by (blast dest: NewPerpxBankClient_Inl)
    with Inl Inr assms(1) have "r = Inl (Panic m)" by (auto simp: NewClient_def Let_def)
    with assms(2) show ?thesis by (simp add: is_Panic_def)
  next
    case c: (Inr c)
    with Inr assms(1) have "r = Inr c" "f1 = f\<lparr>workerCounter := workerCounter f + 1\<rparr>"
      by (auto simp: NewClient_def Let_def)
    with c show ?thesis by auto
  qed
qed

lemma created_Cons_Inl [simp]: "created (Inl e # rs) = created rs"
  by (simp add: created_def)

lemma created_Cons_Inr [simp]: "created (Inr c # rs) = c # created rs"
  by (simp add: created_def)

lemma created_Nil [simp]: "created [] = []"
  by (simp add: created_def)

lemma created_single_Panic: "is_Panic r \<Longrightarrow> created [r] = []"
  by (cases r) (auto simp: is_Panic_def created_def)

lemma NewClients_ids:
  "NewClients cr lib calls f = (rs, f') \<Longrightarrow> k < length (created rs) \<Longrightarrow>
   \<exists>cfg st sk. NewPerpxBankClient cr cfg st sk (workerCounter f + word_of_nat k)
                 = Inr (created rs ! k)"
proof (induction calls arbitrary: f rs k f')
  case Nil
  then show ?case by simp
next
  case (Cons call calls)
  obtain os cfg where call: "call = (os, cfg)" by (cases call)
  obtain r f1 where n: "NewClient cr lib os f cfg = (r, f1)" by (cases "NewClient cr lib os f cfg")
  show ?case
  proof (cases "is_Panic r")
    case True
    with Cons.prems call n have "rs = [r]" by simp
    with True Cons.prems(2) show ?thesis by (simp add: created_single_Panic)
  next
    case False
    obtain rs1 f2 where n1: "NewClients cr lib calls f1 = (rs1, f2)"
      by (cases "NewClients cr lib calls f1")
    with False Cons.prems(1) call n have rs: "rs = r # rs1" by simp
    note res = NewClient_result [OF n False]
    show ?thesis
    proof (cases r)
      case (Inl e)
      with res have "f1 = f" by simp
      with Cons.IH [OF n1, of k] Cons.prems(2) rs Inl show ?thesis by simp
    next
      case (Inr c)
      with res have f1: "f1 = f\<lparr>workerCounter := workerCounter f + 1\<rparr>"
        and c: "\<exists>st sk. NewPerpxBankClient cr cfg st sk (workerCounter f) = Inr c" by simp_all
      show ?thesis
      proof (cases k)
        case 0
        with c rs Inr show ?thesis by auto
      next
        case (Suc k')
        with Cons.prems(2) rs Inr have "k' < length (created rs1)" by simp
        from Cons.IH [OF n1 this]
        have "\<exists>cfg st sk. NewPerpxBankClient cr cfg st sk (workerCounter f1 + word_of_nat k')
                = Inr (created rs1 ! k')" .
        moreover have "workerCounter f1 + word_of_nat k' = workerCounter f + word_of_nat k"
          by (simp add: f1 Suc)
        ultimately show ?thesis by (simp add: rs Inr Suc)
      qed
    qed
  qed
qed

lemma sint_word64_of_nat: "k < 2 ^ 63 \<Longrightarrow> sint (word_of_nat k :: 64 word) = int k"
proof -
  assume k: "k < 2 ^ 63"
  have "sint (word_of_nat k :: 64 word) = sint (word_of_int (int k) :: 64 word)" by simp
  also have "\<dots> = signed_take_bit 63 (int k)" by (simp only: sint_sbintrunc') simp
  also have "\<dots> = int k" using k by (intro signed_take_bit_int_eq_self) auto
  finally show ?thesis .
qed

text \<open>
  C9. Starting from a new factory, the \<open>k\<close>-th client that \<open>NewClient\<close> creates (counting
  from 0, in creation order, whatever calls failed in between) is the client
  \<open>NewPerpxBankClient\<close> builds for worker id \<open>k\<close>, so its key pair is the one derived from
  \<open>k\<close>. Ids of different clients differ (the counter is an \<open>int64\<close>; it does not wrap
  before \<open>2 ^ 63\<close> clients), and so do the accounts, provided the hash and key functions
  do not collide.
\<close>

theorem NewClient_worker_ids:
  assumes "NewClients cr lib calls NewPerpxBankClientFactory = (rs, f')"
    and "k < length (created rs)"
  shows "(\<exists>cfg st sk. NewPerpxBankClient cr cfg st sk (word_of_nat k) = Inr (created rs ! k))
       \<and> privKey (created rs ! k) = bk_privKey (benchKey cr (word_of_nat k))
       \<and> addr (created rs ! k) = bk_addr (benchKey cr (word_of_nat k))
       \<and> (length (created rs) \<le> 2 ^ 63 \<longrightarrow>
            sint (word_of_nat k :: int64) = int k
            \<and> (\<forall>j<k. (word_of_nat j :: int64) \<noteq> word_of_nat k))
       \<and> (length (created rs) \<le> 2 ^ 63 \<and> inj (Sum256 cr) \<and> inj (PrivKeyFromBytes cr)
              \<and> inj (PubKey cr) \<and> inj (Address cr) \<longrightarrow>
            (\<forall>j<k. addr (created rs ! j) \<noteq> addr (created rs ! k)))"
proof -
  have id: "\<exists>cfg st sk. NewPerpxBankClient cr cfg st sk (word_of_nat i) = Inr (created rs ! i)"
    if "i < length (created rs)" for i
    using NewClients_ids [OF assms(1) that] by (simp add: NewPerpxBankClientFactory_def)
  have key: "privKey (created rs ! i) = bk_privKey (benchKey cr (word_of_nat i))
           \<and> addr (created rs ! i) = bk_addr (benchKey cr (word_of_nat i))"
    if "i < length (created rs)" for i
    using id [OF that] by (blast dest: NewPerpxBankClient_key)
  have ne: "(word_of_nat j :: int64) \<noteq> word_of_nat k"
    if "length (created rs) \<le> 2 ^ 63" "j < k" for j
  proof
    assume eq: "(word_of_nat j :: int64) = word_of_nat k"
    have "k < 2 ^ 64" "j < 2 ^ 64" using that assms(2) by simp_all
    with eq have "j = k" by (intro word64_of_nat_inj)
    with that show False by simp
  qed
  have s: "sint (word_of_nat k :: int64) = int k" if "length (created rs) \<le> 2 ^ 63"
    using that assms(2) by (intro sint_word64_of_nat) simp
  have acc: "addr (created rs ! j) \<noteq> addr (created rs ! k)"
    if "length (created rs) \<le> 2 ^ 63" "inj (Sum256 cr)" "inj (PrivKeyFromBytes cr)"
       "inj (PubKey cr)" "inj (Address cr)" "j < k" for j
  proof
    assume eq: "addr (created rs ! j) = addr (created rs ! k)"
    have "j < length (created rs)" using that(6) assms(2) by simp
    with eq key [of j] key [OF assms(2)]
    have "bk_addr (benchKey cr (word_of_nat j)) = bk_addr (benchKey cr (word_of_nat k))" by simp
    from benchKey_inj [OF that(2-5) this] ne [OF that(1,6)] show False by simp
  qed
  show ?thesis using id [OF assms(2)] key [OF assms(2)] ne s acc by blast
qed

lemma NewClient_succeeds:
  assumes "Endpoints cfg \<noteq> []"
    and "\<And>s. s \<noteq> [] \<Longrightarrow> AccAddressFromBech32 lib s \<noteq> None"
  shows "\<exists>c. NewClient cr lib os f cfg = (Inr c, f\<lparr>workerCounter := workerCounter f + 1\<rparr>)"
proof -
  let ?chain = "getEnv os ''LOADTEST_CHAIN_ID'' ''localperpxprotocol''"
  let ?denom = "getEnv os ''LOADTEST_DENOM'' ''aperpx''"
  let ?sink = "getEnv os ''LOADTEST_SINK_ADDRESS'' ''perpx1kyfmupa8z5jtxgf5f4gt285sepeg6eqnzvs25m''"
  have ne: "?chain \<noteq> []" "?denom \<noteq> []" "?sink \<noteq> []" by (simp_all add: getEnv_def Let_def)
  from assms(2) [OF ne(3)] obtain a where "AccAddressFromBech32 lib ?sink = Some a" by blast
  with ne have st: "NewBankSendStrategy lib ?chain ?denom ?sink
      = Inr \<lparr>chainID = ?chain, denom = ?denom, sinkAddr = ?sink\<rparr>"
    by (simp add: NewBankSendStrategy_def)
  from NewPerpxBankClient_Inr [OF assms(1)]
  obtain c where "NewPerpxBankClient cr cfg \<lparr>chainID = ?chain, denom = ?denom, sinkAddr = ?sink\<rparr>
      (getEnv os ''LOADTEST_SEED_KEY'' []) (workerCounter f) = Inr c" by blast
  with st have "NewClient cr lib os f cfg = (Inr c, f\<lparr>workerCounter := workerCounter f + 1\<rparr>)"
    by (simp add: NewClient_def Let_def)
  then show ?thesis by blast
qed

theorem NewClient_worker_ids_witness:
  "\<exists>rs f'. NewClients demo_crypto demo_sdk [(demo_os, demo_cfg), (demo_os, demo_cfg)]
              NewPerpxBankClientFactory = (rs, f')
     \<and> length (created rs) = 2
     \<and> privKey (created rs ! 1) = bk_privKey (benchKey demo_crypto 1)
     \<and> addr (created rs ! 0) \<noteq> addr (created rs ! 1)"
proof -
  have ep: "Endpoints demo_cfg \<noteq> []" by (simp add: demo_cfg_def)
  have b: "\<And>s. s \<noteq> [] \<Longrightarrow> AccAddressFromBech32 demo_sdk s \<noteq> None" by (simp add: demo_sdk_def)
  let ?f0 = NewPerpxBankClientFactory
  from NewClient_succeeds [OF ep b] obtain c0
    where c0: "NewClient demo_crypto demo_sdk demo_os ?f0 demo_cfg
                 = (Inr c0, ?f0\<lparr>workerCounter := workerCounter ?f0 + 1\<rparr>)" by blast
  let ?f1 = "?f0\<lparr>workerCounter := workerCounter ?f0 + 1\<rparr>"
  from NewClient_succeeds [OF ep b] obtain c1
    where c1: "NewClient demo_crypto demo_sdk demo_os ?f1 demo_cfg
                 = (Inr c1, ?f1\<lparr>workerCounter := workerCounter ?f1 + 1\<rparr>)" by blast
  let ?f2 = "?f1\<lparr>workerCounter := workerCounter ?f1 + 1\<rparr>"
  have run: "NewClients demo_crypto demo_sdk [(demo_os, demo_cfg), (demo_os, demo_cfg)] ?f0
      = ([Inr c0, Inr c1], ?f2)"
    using c0 c1 by (simp add: is_Panic_def)
  have len: "length (created [Inr c0 :: error + PerpxBankClient, Inr c1]) = 2" by simp
  have k: "1 < length (created [Inr c0 :: error + PerpxBankClient, Inr c1])" by simp
  have i: "inj (Sum256 demo_crypto)" "inj (PrivKeyFromBytes demo_crypto)"
    "inj (PubKey demo_crypto)" "inj (Address demo_crypto)"
    by (simp_all add: demo_crypto_def)
  note t = NewClient_worker_ids [OF run k]
  from t have p: "privKey (created [Inr c0, Inr c1] ! 1) = bk_privKey (benchKey demo_crypto 1)"
    by simp
  have lenb: "length (created [Inr c0 :: error + PerpxBankClient, Inr c1]) \<le> 2 ^ 63" by simp
  from t have "length (created [Inr c0 :: error + PerpxBankClient, Inr c1]) \<le> 2 ^ 63
      \<and> inj (Sum256 demo_crypto) \<and> inj (PrivKeyFromBytes demo_crypto)
      \<and> inj (PubKey demo_crypto) \<and> inj (Address demo_crypto) \<longrightarrow>
    (\<forall>j<1. addr (created [Inr c0, Inr c1] ! j) \<noteq> addr (created [Inr c0, Inr c1] ! 1))"
    by blast
  with lenb i
  have "\<forall>j<1. addr (created [Inr c0, Inr c1] ! j) \<noteq> addr (created [Inr c0, Inr c1] ! 1)"
    by blast
  then have a: "addr (created [Inr c0, Inr c1] ! 0) \<noteq> addr (created [Inr c0, Inr c1] ! 1)"
    by simp
  from run len p a show ?thesis by blast
qed

section \<open>Which accounts need funding\<close>






lemmas demo_balance_simps =
  needsFundingCheck_def verifyCheck_def demo_funded_def demo_sdk_def demo_seed_cfg_def
  demo_fundCoin_def StatusOK_def NewCoin_def Coins_Add_def AmountOf_def is_digit_def
  digits_value_def


section \<open>A balance equal to the fund amount\<close>

text \<open>
  C10. An account whose balance in the configured denom equals the fund amount counts as
  funded: the check before funding does not put it on the \<open>needsFunding\<close> list, and the
  verification after funding prints no warning for it and leaves \<open>allFunded\<close> as it is.
  Both compare with strict less-than.
\<close>

theorem balance_equal_to_fund_amount_is_funded:
  assumes "sumBalance lib balanceData [] = Inr balance"
    and "AmountOf balance (Denom cfg) = coin_Amount fundCoin"
  shows "needsFundingCheck lib cfg fundCoin (GetResponse StatusOK body (Some balanceData)) = Inr False
       \<and> verifyCheck lib cfg fundCoin i a (GetResponse StatusOK body (Some balanceData)) = Inr None
       \<and> needsFundingLoop lib cfg fundCoin
            (\<lambda>j. GetResponse StatusOK body (Some balanceData)) i (bk # rest) needsFunding
           = needsFundingLoop lib cfg fundCoin
               (\<lambda>j. GetResponse StatusOK body (Some balanceData)) (Suc i) rest needsFunding
       \<and> verifyLoop lib cfg fundCoin
            (\<lambda>j. GetResponse StatusOK body (Some balanceData)) i (a # as) allFunded ws
           = verifyLoop lib cfg fundCoin
               (\<lambda>j. GetResponse StatusOK body (Some balanceData)) (Suc i) as allFunded ws"
  using assms by (simp add: needsFundingCheck_def verifyCheck_def)

theorem balance_equal_to_fund_amount_is_funded_witness:
  "sumBalance demo_sdk [\<lparr>bal_Denom = ''aperpx'', bal_Amount = ''1000000''\<rparr>] []
     = Inr [\<lparr>coin_Denom = ''aperpx'', coin_Amount = 1000000\<rparr>]
   \<and> AmountOf [\<lparr>coin_Denom = ''aperpx'', coin_Amount = 1000000\<rparr>] (Denom demo_seed_cfg)
       = coin_Amount demo_fundCoin
   \<and> needsFundingCheck demo_sdk demo_seed_cfg demo_fundCoin demo_funded = Inr False
   \<and> verifyCheck demo_sdk demo_seed_cfg demo_fundCoin 0 [1, 2, 3] demo_funded = Inr None"
proof -
  have s: "sumBalance demo_sdk [\<lparr>bal_Denom = ''aperpx'', bal_Amount = ''1000000''\<rparr>] []
     = Inr [\<lparr>coin_Denom = ''aperpx'', coin_Amount = 1000000\<rparr>]"
    by (simp add: demo_balance_simps)
  have e: "AmountOf [\<lparr>coin_Denom = ''aperpx'', coin_Amount = 1000000\<rparr>] (Denom demo_seed_cfg)
       = coin_Amount demo_fundCoin"
    by (simp add: demo_balance_simps)
  from balance_equal_to_fund_amount_is_funded [OF s e, of "''{}''" 0 "[1, 2, 3]"] s e
  show ?thesis by (simp add: demo_funded_def StatusOK_def)
qed

section \<open>The seed account's balance check\<close>

lemma AmountOf_NewCoins1:
  "AmountOf (NewCoins1 \<lparr>coin_Denom = d, coin_Amount = a\<rparr>) d = a"
  by (simp add: AmountOf_def NewCoins1_def)

lemma totalRequired_amount:
  "totalRequired lib cfg fundCoin = Inr required \<Longrightarrow>
   AmountOf required (Denom cfg)
     = coin_Amount fundCoin * sint (Workers cfg) + sint (Workers cfg * 10000)"
  by (auto simp: totalRequired_def NewCoin_def Let_def AmountOf_NewCoins1
           split: sum.splits if_splits)

lemma sint_times_10000:
  assumes "0 \<le> sint (w :: 64 word)" and "sint w * 10000 < 2 ^ 63"
  shows "sint (w * 10000) = sint w * 10000"
proof -
  have "sint (w * 10000) = signed_take_bit 63 (sint w * sint (10000 :: 64 word))"
    by (simp only: sint_word_mult) simp
  also have "sint (10000 :: 64 word) = 10000" by simp
  also have "signed_take_bit 63 (sint w * 10000) = sint w * 10000"
    using assms by (intro signed_take_bit_int_eq_self) auto
  finally show ?thesis .
qed

text \<open>
  C4. When the seed account's balance in the configured denom is strictly below the total
  required, \<open>seedAccounts\<close> returns the insufficient-funds error with both amounts and has
  sent nothing: its event list is empty. The total required is the fund amount times
  the worker count plus the fee reserve of 10000 per worker (computed in \<open>int64\<close>).
\<close>

theorem insufficient_seed_funds:
  assumes "ParseCoinNormalized lib (FundAmount cfg) = Some fundCoin"
    and "totalRequired lib cfg fundCoin = Inr required"
    and "seedKey cr cfg = Inr key"
    and "querySeedBalance lib (seedBalanceResp led) = Inr seedBalance"
    and "AmountOf seedBalance (Denom cfg) < AmountOf required (Denom cfg)"
  shows "seedAccounts cr lib led cfg
           = Some \<lparr>returned = Inl (InsufficientFunds (AmountOf seedBalance (Denom cfg))
                                      (AmountOf required (Denom cfg))),
                   events = [], warnings = []\<rparr>
       \<and> AmountOf required (Denom cfg)
           = coin_Amount fundCoin * sint (Workers cfg) + sint (Workers cfg * 10000)
       \<and> (0 \<le> sint (Workers cfg) \<and> sint (Workers cfg) * 10000 < 2 ^ 63 \<longrightarrow>
            AmountOf required (Denom cfg)
              = coin_Amount fundCoin * sint (Workers cfg) + sint (Workers cfg) * 10000)"
proof -
  obtain seedPrivKey seedAddr where key: "key = (seedPrivKey, seedAddr)" by (cases key)
  have r: "seedAccounts cr lib led cfg
           = Some \<lparr>returned = Inl (InsufficientFunds (AmountOf seedBalance (Denom cfg))
                                      (AmountOf required (Denom cfg))),
                   events = [], warnings = []\<rparr>"
    using assms by (simp add: seedAccounts_def key)
  note a = totalRequired_amount [OF assms(2)]
  from a have "AmountOf required (Denom cfg)
              = coin_Amount fundCoin * sint (Workers cfg) + sint (Workers cfg) * 10000"
    if "0 \<le> sint (Workers cfg)" "sint (Workers cfg) * 10000 < 2 ^ 63"
    using that by (simp add: sint_times_10000)
  with r a show ?thesis by blast
qed

lemmas demo_seed_simps =
  demo_seed_cfg_def demo_sdk_def demo_crypto_def demo_fundCoin_def demo_funded_def
  demo_ledger_def demo_spent_ledger_def demo_account_def
  totalRequired_def seedKey_def querySeedBalance_def querySeedAccount_def
  NewCoin_def NewCoins1_def Coins_Add_def AmountOf_def StatusOK_def ParseUint_def
  is_digit_def digits_value_def Let_def

lemma demo_ParseCoin:
  "ParseCoinNormalized demo_sdk (FundAmount demo_seed_cfg) = Some demo_fundCoin"
  by (simp add: demo_seed_simps)

lemma demo_totalRequired:
  "totalRequired demo_sdk demo_seed_cfg demo_fundCoin
     = Inr [\<lparr>coin_Denom = ''aperpx'', coin_Amount = 3030000\<rparr>]"
  by (simp add: demo_seed_simps)

lemma demo_seedKey: "\<exists>key. seedKey demo_crypto demo_seed_cfg = Inr key"
  by (simp add: demo_seed_simps)

theorem insufficient_seed_funds_witness:
  "seedAccounts demo_crypto demo_sdk demo_spent_ledger demo_seed_cfg
     = Some \<lparr>returned = Inl (InsufficientFunds 0 3030000), events = [], warnings = []\<rparr>"
proof -
  obtain key where k: "seedKey demo_crypto demo_seed_cfg = Inr key" using demo_seedKey by blast
  have b: "querySeedBalance demo_sdk (seedBalanceResp demo_spent_ledger) = Inr []"
    by (simp add: demo_seed_simps)
  have lt: "AmountOf [] (Denom demo_seed_cfg)
      < AmountOf [\<lparr>coin_Denom = ''aperpx'', coin_Amount = 3030000\<rparr>] (Denom demo_seed_cfg)"
    by (simp add: demo_seed_simps)
  from insufficient_seed_funds [OF demo_ParseCoin demo_totalRequired k b lt]
  show ?thesis by (simp add: AmountOf_def demo_seed_cfg_def)
qed

section \<open>A run on accounts that are all funded\<close>

lemma needsFundingLoop_none:
  "(\<And>j. j < length bks \<Longrightarrow> needsFundingCheck lib cfg fundCoin (resp (i + j)) = Inr False) \<Longrightarrow>
   needsFundingLoop lib cfg fundCoin resp i bks acc = Inr acc"
proof (induction bks arbitrary: i)
  case Nil
  then show ?case by simp
next
  case (Cons bk rest)
  from Cons.prems [of 0] have h: "needsFundingCheck lib cfg fundCoin (resp i) = Inr False" by simp
  have "needsFundingLoop lib cfg fundCoin resp (Suc i) rest acc = Inr acc"
  proof (rule Cons.IH)
    fix j assume "j < length rest"
    with Cons.prems [of "Suc j"]
    show "needsFundingCheck lib cfg fundCoin (resp (Suc i + j)) = Inr False" by simp
  qed
  with h show ?case by simp
qed

text \<open>
  C7, as the code has it. When every worker account's balance query succeeds and shows at
  least the fund amount, \<open>seedAccounts\<close> returns without any event: nothing is signed or
  sent, whatever else happens. It returns success (and skips the batch loop and the
  verification) provided the steps before the classification succeed: the total required
  is computed, the seed key resolves, the seed balance query succeeds and covers the total
  required, and the seed account query succeeds. When one of these steps fails, its error
  is returned instead.
\<close>

theorem all_funded_no_broadcast:
  assumes "ParseCoinNormalized lib (FundAmount cfg) = Some fundCoin"
    and "\<forall>i<nat (sint (Workers cfg)).
           needsFundingCheck lib cfg fundCoin (workerBalanceResp led i) = Inr False"
  shows "\<exists>r. seedAccounts cr lib led cfg = Some r \<and> events r = []
           \<and> ((\<exists>required key seedBalance acct.
                   totalRequired lib cfg fundCoin = Inr required
                 \<and> seedKey cr cfg = Inr key
                 \<and> querySeedBalance lib (seedBalanceResp led) = Inr seedBalance
                 \<and> \<not> AmountOf seedBalance (Denom cfg) < AmountOf required (Denom cfg)
                 \<and> querySeedAccount (seedAccountResp led) = Inr acct
                 \<and> 0 \<le> sint (Workers cfg))
                \<longrightarrow> returned r = Inr () \<and> warnings r = [])
           \<and> (\<forall>p. totalRequired lib cfg fundCoin = Inl p \<longrightarrow> returned r = Inl p)
           \<and> (\<forall>required e.
                   totalRequired lib cfg fundCoin = Inr required
                 \<and> seedKey cr cfg = Inl e
                \<longrightarrow> returned r = Inl e)
           \<and> (\<forall>required key e.
                   totalRequired lib cfg fundCoin = Inr required
                 \<and> seedKey cr cfg = Inr key
                 \<and> querySeedBalance lib (seedBalanceResp led) = Inl e
                \<longrightarrow> returned r = Inl e)
           \<and> (\<forall>required key seedBalance.
                   totalRequired lib cfg fundCoin = Inr required
                 \<and> seedKey cr cfg = Inr key
                 \<and> querySeedBalance lib (seedBalanceResp led) = Inr seedBalance
                 \<and> AmountOf seedBalance (Denom cfg) < AmountOf required (Denom cfg)
                \<longrightarrow> returned r = Inl (InsufficientFunds (AmountOf seedBalance (Denom cfg))
                                       (AmountOf required (Denom cfg))))
           \<and> (\<forall>required key seedBalance e.
                   totalRequired lib cfg fundCoin = Inr required
                 \<and> seedKey cr cfg = Inr key
                 \<and> querySeedBalance lib (seedBalanceResp led) = Inr seedBalance
                 \<and> \<not> AmountOf seedBalance (Denom cfg) < AmountOf required (Denom cfg)
                 \<and> querySeedAccount (seedAccountResp led) = Inl e
                \<longrightarrow> returned r = Inl e)
           \<and> (\<forall>required key seedBalance acct.
                   totalRequired lib cfg fundCoin = Inr required
                 \<and> seedKey cr cfg = Inr key
                 \<and> querySeedBalance lib (seedBalanceResp led) = Inr seedBalance
                 \<and> \<not> AmountOf seedBalance (Denom cfg) < AmountOf required (Denom cfg)
                 \<and> querySeedAccount (seedAccountResp led) = Inr acct
                 \<and> sint (Workers cfg) < 0
                \<longrightarrow> returned r = Inl (Panic ''makeslice: len out of range''))"
proof -
  have nf: "needsFundingLoop lib cfg fundCoin (workerBalanceResp led) 0
              (benchKeys cr (nat (sint (Workers cfg)))) [] = Inr []"
    using assms(2) by (intro needsFundingLoop_none) (simp add: benchKeys_def)
  show ?thesis
    using assms(1) nf
    by (auto simp: seedAccounts_def split: sum.splits prod.splits)
qed

theorem all_funded_no_broadcast_witness:
  "seedAccounts demo_crypto demo_sdk (demo_ledger\<lparr>workerBalanceResp := (\<lambda>i. demo_funded)\<rparr>)
     demo_seed_cfg
     = Some \<lparr>returned = Inr (), events = [], warnings = []\<rparr>"
proof -
  let ?led = "demo_ledger\<lparr>workerBalanceResp := (\<lambda>i. demo_funded)\<rparr>"
  have c: "needsFundingCheck demo_sdk demo_seed_cfg demo_fundCoin demo_funded = Inr False"
    by (simp add: demo_balance_simps)
  then have all: "\<forall>i<nat (sint (Workers demo_seed_cfg)).
      needsFundingCheck demo_sdk demo_seed_cfg demo_fundCoin (workerBalanceResp ?led i) = Inr False"
    by simp
  obtain key where k: "seedKey demo_crypto demo_seed_cfg = Inr key" using demo_seedKey by blast
  have b: "querySeedBalance demo_sdk (seedBalanceResp ?led)
             = Inr [\<lparr>coin_Denom = ''aperpx'', coin_Amount = 99000000\<rparr>]"
    by (simp add: demo_seed_simps)
  have ge: "\<not> AmountOf [\<lparr>coin_Denom = ''aperpx'', coin_Amount = 99000000\<rparr>] (Denom demo_seed_cfg)
      < AmountOf [\<lparr>coin_Denom = ''aperpx'', coin_Amount = 3030000\<rparr>] (Denom demo_seed_cfg)"
    by (simp add: demo_seed_simps)
  have a: "querySeedAccount (seedAccountResp ?led) = Inr (7, 41)"
    by (simp add: demo_seed_simps)
  have w: "0 \<le> sint (Workers demo_seed_cfg)" by (simp add: demo_seed_cfg_def)
  from all_funded_no_broadcast [OF demo_ParseCoin all, of demo_crypto]
  obtain r where r: "seedAccounts demo_crypto demo_sdk ?led demo_seed_cfg = Some r"
    and e: "events r = []"
    and imp: "(\<exists>required key seedBalance acct.
                   totalRequired demo_sdk demo_seed_cfg demo_fundCoin = Inr required
                 \<and> seedKey demo_crypto demo_seed_cfg = Inr key
                 \<and> querySeedBalance demo_sdk (seedBalanceResp ?led) = Inr seedBalance
                 \<and> \<not> AmountOf seedBalance (Denom demo_seed_cfg)
                       < AmountOf required (Denom demo_seed_cfg)
                 \<and> querySeedAccount (seedAccountResp ?led) = Inr acct
                 \<and> 0 \<le> sint (Workers demo_seed_cfg))
                \<longrightarrow> returned r = Inr () \<and> warnings r = []"
    by (elim exE conjE) (rule that)
  from imp demo_totalRequired k b ge a w have "returned r = Inr () \<and> warnings r = []" by blast
  with r e show ?thesis by simp
qed

text \<open>
  The claim as stated fails: with every worker funded and a seed account that no longer
  covers the total required, the run returns the insufficient-funds error, not success.
\<close>

theorem all_funded_returns_success_counterexample:
  "list_all (\<lambda>i. needsFundingCheck demo_sdk demo_seed_cfg demo_fundCoin
                    (workerBalanceResp demo_spent_ledger i) = Inr False) [0, 1, 2]
   \<and> ParseCoinNormalized demo_sdk (FundAmount demo_seed_cfg) = Some demo_fundCoin
   \<and> sint (Workers demo_seed_cfg) = 3
   \<and> seedAccounts demo_crypto demo_sdk demo_spent_ledger demo_seed_cfg
       = Some \<lparr>returned = Inl (InsufficientFunds 0 3030000), events = [], warnings = []\<rparr>
   \<and> returned (the (seedAccounts demo_crypto demo_sdk demo_spent_ledger demo_seed_cfg)) \<noteq> Inr ()"
proof -
  have c: "needsFundingCheck demo_sdk demo_seed_cfg demo_fundCoin demo_funded = Inr False"
    by (simp add: demo_balance_simps)
  have w: "workerBalanceResp demo_spent_ledger i = demo_funded" for i
    by (simp add: demo_spent_ledger_def)
  obtain key where k: "seedKey demo_crypto demo_seed_cfg = Inr key" using demo_seedKey by blast
  obtain seedPrivKey seedAddr where key: "key = (seedPrivKey, seedAddr)" by (cases key)
  have b: "querySeedBalance demo_sdk (seedBalanceResp demo_spent_ledger) = Inr []"
    by (simp add: demo_seed_simps)
  have s: "seedAccounts demo_crypto demo_sdk demo_spent_ledger demo_seed_cfg
       = Some \<lparr>returned = Inl (InsufficientFunds 0 3030000), events = [], warnings = []\<rparr>"
  proof -
    have d: "Denom demo_seed_cfg = ''aperpx''" by (simp add: demo_seed_cfg_def)
    show ?thesis
      by (simp add: seedAccounts_def demo_ParseCoin demo_totalRequired k key b AmountOf_def d)
  qed
  have n: "sint (Workers demo_seed_cfg) = 3" by (simp add: demo_seed_cfg_def)
  from c w demo_ParseCoin s n show ?thesis by simp
qed

section \<open>The batch loop\<close>

lemma sint_zero64: "sint (w :: 64 word) = 0 \<Longrightarrow> w = 0"
  using sint_inj64 [of w 0] by simp

lemma fundBatch_shape:
  "fundBatch cr lib led f i currentSeq k = (r, ev) \<Longrightarrow>
   (r = None \<and> (\<exists>sd b bs h. ev = [Signed k sd b, Broadcast k bs, Included k h]))
   \<or> (r \<noteq> None \<and> (ev = [] \<or> (\<exists>sd b. ev = [Signed k sd b])
                     \<or> (\<exists>sd b bs. ev = [Signed k sd b, Broadcast k bs])))"
  by (auto simp: fundBatch_def Let_def
           split: if_splits sum.splits option.splits broadcast_result.splits bool.splits)

lemma fundBatch_signed:
  "fundBatch cr lib led f i currentSeq k = (r, ev) \<Longrightarrow> Signed j sd b \<in> set ev \<Longrightarrow>
   j = k \<and> sd_Sequence sd = currentSeq \<and> map sig_Sequence (Signatures b) = [currentSeq]
   \<and> sd_AccountNumber sd = f_accountNum f \<and> sd_ChainID sd = ChainID (f_cfg f)
   \<and> int i \<le> int i + sint (BatchSize (f_cfg f))
   \<and> Msgs b = map (\<lambda>a. \<lparr>FromAddress = AccAddressString lib (f_seedAddr f),
                          ToAddress = AccAddressString lib a,
                          MsgAmount = NewCoins1 (f_fundCoin f)\<rparr>)
                (take (nat (min (int i + sint (BatchSize (f_cfg f)))
                               (int (length (f_needsFunding f)))) - i)
                   (drop i (f_needsFunding f)))
   \<and> GasLimit b = 100000 * word_of_nat (length (Msgs b))
   \<and> FeeAmount b = NewCoins1 \<lparr>coin_Denom = Denom (f_cfg f),
                              coin_Amount = 25000000000 * sint (GasLimit b)\<rparr>"
  by (auto simp: fundBatch_def Let_def SignWithPrivKey_def NewCoin_def min_def
           split: if_splits sum.splits option.splits broadcast_result.splits bool.splits
           dest!: sint_zero64)

text \<open>What a round returns once its transaction was sent, read off the node's answers.\<close>

lemma fundBatch_broadcast:
  "fundBatch cr lib led f i currentSeq k = (r, ev) \<Longrightarrow> Broadcast j bs \<in> set ev \<Longrightarrow>
   j = k \<and> r = (case broadcastResp led k bs of
                   BroadcastError err \<Rightarrow> Some (BroadcastFailed err)
                 | BroadcastResponse code rawLog txHash \<Rightarrow>
                     if code \<noteq> 0 then Some (TransactionFailed rawLog)
                     else if sint (BatchSize (f_cfg f)) = 0
                     then Some (Panic ''runtime error: integer divide by zero'')
                     else (case pollTx (txStatusResps led k) of
                             Inl e \<Rightarrow> Some e
                           | Inr False \<Rightarrow> Some (NotIncluded txHash)
                           | Inr True \<Rightarrow> None))"
  by (auto simp: fundBatch_def Let_def
           split: if_splits sum.splits option.splits broadcast_result.splits bool.splits)

lemma fundBatch_included:
  "fundBatch cr lib led f i currentSeq k = (r, ev) \<Longrightarrow> Included j h \<in> set ev \<Longrightarrow>
   j = k \<and> r = None \<and> h = includedHeight (txStatusResps led k)
   \<and> (\<exists>bs. Broadcast k bs \<in> set ev)"
  by (auto simp: fundBatch_def Let_def
           split: if_splits sum.splits option.splits broadcast_result.splits bool.splits)

lemma fundLoop_run_aux:
  assumes "fundLoop cr lib led f i currentSeq k evs = Some y"
  shows "\<exists>new. snd (snd y) = evs @ new
        \<and> funding_run cr lib led f i currentSeq k new (fst y) (fst (snd y))"
  using assms
proof (induction cr lib led f i currentSeq k evs y rule: fundLoop.raw_induct)
  case (1 fundLoop' cr lib led f i currentSeq k evs y)
  show ?case
  proof (cases "i < length (f_needsFunding f)")
    case False
    with 1(2) have y: "y = (None, currentSeq, evs)" by simp
    have "funding_run cr lib led f i currentSeq k [] None currentSeq"
      using False by (rule funding_run.finished)
    with y show ?thesis by simp
  next
    case True
    obtain r ev where b: "fundBatch cr lib led f i currentSeq k = (r, ev)"
      by (cases "fundBatch cr lib led f i currentSeq k")
    show ?thesis
    proof (cases r)
      case None
      with 1(2) True b
      have "fundLoop' cr lib led f (nat (int i + sint (BatchSize (f_cfg f)))) (currentSeq + 1)
              (Suc k) (evs @ ev) = Some y" by simp
      moreover have "fundLoop cr lib led f (nat (int i + sint (BatchSize (f_cfg f)))) (currentSeq + 1)
              (Suc k) (evs @ ev) = Some y"
        using 1(3) True b None by (subst (asm) fundLoop.simps) simp
      ultimately obtain new where n: "snd (snd y) = (evs @ ev) @ new"
        and r: "funding_run cr lib led f (nat (int i + sint (BatchSize (f_cfg f)))) (currentSeq + 1)
               (Suc k) new (fst y) (fst (snd y))" using 1(1) by blast
      from funding_run.confirmed [OF True b [unfolded None] r] n show ?thesis by simp
    next
      case (Some err)
      with 1(2) True b have "y = (Some err, currentSeq, evs @ ev)" by simp
      with funding_run.failed [OF True b [unfolded Some]] show ?thesis by simp
    qed
  qed
qed (fact assms)
lemma fundLoop_run:
  "fundLoop cr lib led f i currentSeq k evs = Some (res, seq', trace) \<Longrightarrow>
   \<exists>new. trace = evs @ new \<and> funding_run cr lib led f i currentSeq k new res seq'"
  using fundLoop_run_aux [of cr lib led f i currentSeq k evs "(res, seq', trace)"] by simp

lemma funding_run_fundLoop:
  "funding_run cr lib led f i currentSeq k new res seq' \<Longrightarrow>
   fundLoop cr lib led f i currentSeq k evs = Some (res, seq', evs @ new)"
proof (induction arbitrary: evs rule: funding_run.induct)
  case (finished i currentSeq k)
  then show ?case by (subst fundLoop.simps) simp
next
  case (failed i currentSeq k err ev)
  then show ?case by (subst fundLoop.simps) simp
next
  case (confirmed i currentSeq k ev evs' res seq')
  show ?case
    using confirmed.hyps(1,2) confirmed.IH [of "evs @ ev"]
    by (subst fundLoop.simps) simp
qed

lemma funding_run_batches:
  "funding_run cr lib led f i currentSeq k new res seq' \<Longrightarrow> e \<in> set new \<Longrightarrow> k \<le> batch_of e"
proof (induction rule: funding_run.induct)
  case (finished i currentSeq k)
  then show ?case by simp
next
  case (failed i currentSeq k err ev)
  from fundBatch_shape [OF failed.hyps(2)] failed.prems show ?case by auto
next
  case (confirmed i currentSeq k ev evs res seq')
  from fundBatch_shape [OF confirmed.hyps(2)] confirmed.prems confirmed.IH show ?case by auto
qed

lemma funding_run_sequence:
  "funding_run cr lib led f i currentSeq k new res seq' \<Longrightarrow> Signed j sd b \<in> set new \<Longrightarrow>
   sd_Sequence sd = currentSeq + word_of_nat (j - k)
   \<and> map sig_Sequence (Signatures b) = [currentSeq + word_of_nat (j - k)]
   \<and> sd_AccountNumber sd = f_accountNum f \<and> sd_ChainID sd = ChainID (f_cfg f)"
proof (induction rule: funding_run.induct)
  case (finished i currentSeq k)
  then show ?case by simp
next
  case (failed i currentSeq k err ev)
  from fundBatch_signed [OF failed.hyps(2) failed.prems] show ?case by simp
next
  case (confirmed i currentSeq k ev evs res seq')
  show ?case
  proof (cases "Signed j sd b \<in> set ev")
    case True
    from fundBatch_signed [OF confirmed.hyps(2) True] show ?thesis by simp
  next
    case False
    with confirmed.prems have in': "Signed j sd b \<in> set evs" by simp
    from funding_run_batches [OF confirmed.hyps(3) in'] have "Suc k \<le> j" by simp
    then have d: "j - k = Suc (j - Suc k)" by simp
    have "(currentSeq + 1) + word_of_nat (j - Suc k) = currentSeq + word_of_nat (j - k)"
      unfolding d by simp
    with confirmed.IH [OF in'] show ?thesis by simp
  qed
qed

lemma funding_run_order:
  "funding_run cr lib led f i currentSeq k new res seq' \<Longrightarrow>
   new = xs @ Signed (Suc j) sd b # ys \<Longrightarrow> k \<le> j \<Longrightarrow> \<exists>h. Included j h \<in> set xs"
proof (induction arbitrary: xs rule: funding_run.induct)
  case (finished i currentSeq k)
  then show ?case by simp
next
  case (failed i currentSeq k err ev)
  then have "Signed (Suc j) sd b \<in> set ev" by simp
  from fundBatch_signed [OF failed.hyps(2) this] failed.prems(2) show ?case by simp
next
  case (confirmed i currentSeq k ev evs res seq')
  have notin: "Signed (Suc j) sd b \<notin> set ev"
  proof
    assume "Signed (Suc j) sd b \<in> set ev"
    from fundBatch_signed [OF confirmed.hyps(2) this] confirmed.prems(2) show False by simp
  qed
  from fundBatch_shape [OF confirmed.hyps(2)]
  obtain sd0 b0 bs0 h0 where ev: "ev = [Signed k sd0 b0, Broadcast k bs0, Included k h0]" by auto
  from confirmed.prems(1) obtain us
    where "(ev = xs @ us \<and> us @ evs = Signed (Suc j) sd b # ys)
         \<or> (ev @ us = xs \<and> evs = us @ Signed (Suc j) sd b # ys)"
    by (auto simp: append_eq_append_conv2)
  then show ?case
  proof
    assume a: "ev = xs @ us \<and> us @ evs = Signed (Suc j) sd b # ys"
    show ?thesis
    proof (cases us)
      case Nil
      with a have xs: "xs = ev" and evs: "evs = [] @ Signed (Suc j) sd b # ys" by simp_all
      show ?thesis
      proof (cases "Suc k \<le> j")
        case True
        from confirmed.IH [OF evs True] show ?thesis by simp
      next
        case False
        with confirmed.prems(2) have "j = k" by simp
        with xs ev show ?thesis by auto
      qed
    next
      case (Cons u us')
      with a have "Signed (Suc j) sd b \<in> set ev" by auto
      with notin show ?thesis by simp
    qed
  next
    assume a: "ev @ us = xs \<and> evs = us @ Signed (Suc j) sd b # ys"
    show ?thesis
    proof (cases "Suc k \<le> j")
      case True
      from a confirmed.IH [of us, OF _ True] obtain h where "Included j h \<in> set us" by blast
      with a show ?thesis by auto
    next
      case False
      with confirmed.prems(2) have "j = k" by simp
      with a ev show ?thesis by auto
    qed
  qed
qed

lemma funding_run_unconfirmed:
  "funding_run cr lib led f i currentSeq k new res seq' \<Longrightarrow> Signed j sd b \<in> set new \<Longrightarrow>
   \<forall>h. Included j h \<notin> set new \<Longrightarrow> res \<noteq> None \<and> (\<forall>e\<in>set new. batch_of e \<le> j)"
proof (induction rule: funding_run.induct)
  case (finished i currentSeq k)
  then show ?case by simp
next
  case (failed i currentSeq k err ev)
  from fundBatch_signed [OF failed.hyps(2) failed.prems(1)] have "j = k" by simp
  with fundBatch_shape [OF failed.hyps(2)] show ?case by auto
next
  case (confirmed i currentSeq k ev evs res seq')
  from fundBatch_shape [OF confirmed.hyps(2)]
  obtain sd0 b0 bs0 h0 where ev: "ev = [Signed k sd0 b0, Broadcast k bs0, Included k h0]" by auto
  have jk: "j \<noteq> k" using confirmed.prems(2) ev by auto
  have "Signed j sd b \<notin> set ev" using jk ev by auto
  with confirmed.prems have in': "Signed j sd b \<in> set evs" and no: "\<forall>h. Included j h \<notin> set evs"
    by simp_all
  from funding_run_batches [OF confirmed.hyps(3) in'] have "k < j" by simp
  with confirmed.IH [OF in' no] ev show ?case by auto
qed

lemma funding_run_success:
  "funding_run cr lib led f i currentSeq k new res seq' \<Longrightarrow> res = None \<Longrightarrow>
   Signed j sd b \<in> set new \<Longrightarrow> \<exists>h. Included j h \<in> set new"
  using funding_run_unconfirmed by blast

lemma funding_run_counter:
  "funding_run cr lib led f i currentSeq k new res seq' \<Longrightarrow>
   seq' = currentSeq + word_of_nat (length (filter (\<lambda>e. \<exists>j h. e = Included j h) new))"
proof (induction rule: funding_run.induct)
  case (finished i currentSeq k)
  then show ?case by simp
next
  case (failed i currentSeq k err ev)
  from fundBatch_shape [OF failed.hyps(2)] show ?case by auto
next
  case (confirmed i currentSeq k ev evs res seq')
  from fundBatch_shape [OF confirmed.hyps(2)]
  obtain sd0 b0 bs0 h0 where ev: "ev = [Signed k sd0 b0, Broadcast k bs0, Included k h0]" by auto
  with confirmed.IH show ?case by simp
qed


lemma take_min_drop:
  assumes "0 \<le> B"
  shows "take (nat (min (int i + B) (int (length xs))) - i) (drop i xs) = take (nat B) (drop i xs)"
proof (cases "int i + B \<le> int (length xs)")
  case True
  then have "nat (min (int i + B) (int (length xs))) - i = nat B" using assms by (simp add: min_def; linarith?)
  then show ?thesis by simp
next
  case False
  then have "nat (min (int i + B) (int (length xs))) - i = length xs - i" by (simp add: min_def)
  moreover have "length (drop i xs) \<le> nat B" using False assms by (simp; linarith?)
  ultimately show ?thesis by simp
qed

lemma funding_run_index:
  "funding_run cr lib led f i currentSeq k new res seq' \<Longrightarrow> 0 \<le> sint (BatchSize (f_cfg f)) \<Longrightarrow>
   Signed j sd b \<in> set new \<Longrightarrow>
   i + (j - k) * nat (sint (BatchSize (f_cfg f))) < length (f_needsFunding f)
   \<and> Msgs b = map (\<lambda>a. \<lparr>FromAddress = AccAddressString lib (f_seedAddr f),
                          ToAddress = AccAddressString lib a,
                          MsgAmount = NewCoins1 (f_fundCoin f)\<rparr>)
                (take (nat (sint (BatchSize (f_cfg f))))
                   (drop (i + (j - k) * nat (sint (BatchSize (f_cfg f)))) (f_needsFunding f)))
   \<and> GasLimit b = 100000 * word_of_nat (length (Msgs b))
   \<and> FeeAmount b = NewCoins1 \<lparr>coin_Denom = Denom (f_cfg f),
                              coin_Amount = 25000000000 * sint (GasLimit b)\<rparr>"
proof (induction rule: funding_run.induct)
  case (finished i currentSeq k)
  then show ?case by simp
next
  case (failed i currentSeq k err ev)
  from fundBatch_signed [OF failed.hyps(2) failed.prems(2)] failed.hyps(1) failed.prems(1)
  show ?case by (simp add: take_min_drop)
next
  case (confirmed i currentSeq k ev evs res seq')
  show ?case
  proof (cases "Signed j sd b \<in> set ev")
    case True
    from fundBatch_signed [OF confirmed.hyps(2) True] confirmed.hyps(1) confirmed.prems(1)
    show ?thesis by (simp add: take_min_drop)
  next
    case False
    with confirmed.prems have in': "Signed j sd b \<in> set evs" by simp
    from funding_run_batches [OF confirmed.hyps(3) in'] have "Suc k \<le> j" by simp
    then have d: "j - k = Suc (j - Suc k)" by simp
    have "nat (int i + sint (BatchSize (f_cfg f))) + (j - Suc k) * nat (sint (BatchSize (f_cfg f)))
        = i + (j - k) * nat (sint (BatchSize (f_cfg f)))"
      unfolding d using confirmed.prems(1) by (simp add: nat_add_distrib)
    with confirmed.IH [OF confirmed.prems(1) in'] show ?thesis by simp
  qed
qed

lemma funding_run_complete:
  "funding_run cr lib led f i currentSeq k new res seq' \<Longrightarrow> res = None \<Longrightarrow>
   0 \<le> sint (BatchSize (f_cfg f)) \<Longrightarrow>
   i + m * nat (sint (BatchSize (f_cfg f))) < length (f_needsFunding f) \<Longrightarrow>
   \<exists>sd b. Signed (k + m) sd b \<in> set new"
proof (induction arbitrary: m rule: funding_run.induct)
  case (finished i currentSeq k)
  then show ?case by simp
next
  case (failed i currentSeq k err ev)
  then show ?case by simp
next
  case (confirmed i currentSeq k ev evs res seq')
  from fundBatch_shape [OF confirmed.hyps(2)]
  obtain sd0 b0 bs0 h0 where ev: "ev = [Signed k sd0 b0, Broadcast k bs0, Included k h0]" by auto
  show ?case
  proof (cases m)
    case 0
    with ev show ?thesis by auto
  next
    case (Suc m')
    have "nat (int i + sint (BatchSize (f_cfg f))) + m' * nat (sint (BatchSize (f_cfg f)))
        = i + m * nat (sint (BatchSize (f_cfg f)))"
      using confirmed.prems(2) by (simp add: Suc nat_add_distrib)
    with confirmed.prems(3)
    have "nat (int i + sint (BatchSize (f_cfg f))) + m' * nat (sint (BatchSize (f_cfg f)))
        < length (f_needsFunding f)" by simp
    from confirmed.IH [OF confirmed.prems(1,2) this] Suc show ?thesis by auto
  qed
qed

text \<open>With a positive batch size the batch loop ends, whatever the ledger answers.\<close>

lemma fundLoop_terminates:
  assumes "0 < sint (BatchSize (f_cfg f))"
  shows "\<exists>y. fundLoop cr lib led f i currentSeq k evs = Some y"
proof (induction "length (f_needsFunding f) - i" arbitrary: i currentSeq k evs rule: less_induct)
  case less
  show ?case
  proof (cases "i < length (f_needsFunding f)")
    case False
    then show ?thesis by (subst fundLoop.simps) simp
  next
    case True
    obtain r ev where b: "fundBatch cr lib led f i currentSeq k = (r, ev)"
      by (cases "fundBatch cr lib led f i currentSeq k")
    show ?thesis
    proof (cases r)
      case (Some err)
      with True b show ?thesis by (subst fundLoop.simps) simp
    next
      case None
      let ?i' = "nat (int i + sint (BatchSize (f_cfg f)))"
      have "length (f_needsFunding f) - ?i' < length (f_needsFunding f) - i"
        using True assms by linarith
      from less [OF this] obtain y
        where y: "fundLoop cr lib led f ?i' (currentSeq + 1) (Suc k) (evs @ ev) = Some y" by blast
      have "fundLoop cr lib led f i currentSeq k evs = Some y"
        using True b None y by (subst fundLoop.simps) simp
      then show ?thesis by (rule exI)
    qed
  qed
qed

lemma sint_gas:
  assumes "n * 100000 < 2 ^ 63"
  shows "sint (100000 * word_of_nat n :: 64 word) = int n * 100000"
    and "unat (100000 * word_of_nat n :: 64 word) = n * 100000"
proof -
  have w: "(100000 * word_of_nat n :: 64 word) = word_of_nat (n * 100000)" by simp
  show "sint (100000 * word_of_nat n :: 64 word) = int n * 100000"
    unfolding w using assms sint_word64_of_nat [of "n * 100000"] by simp
  have "n * 100000 < 2 ^ 64" using assms by simp
  then have "(n * 100000) mod 2 ^ 64 = n * 100000" by simp
  moreover have "unat (word_of_nat (n * 100000) :: 64 word) = (n * 100000) mod 2 ^ 64"
    by (simp only: unat_of_nat) simp
  ultimately have "unat (word_of_nat (n * 100000) :: 64 word) = n * 100000" by simp
  then show "unat (100000 * word_of_nat n :: 64 word) = n * 100000"
    by (simp only: w)
qed

text \<open>
  What \<open>seedAccounts\<close> returns, in terms of the batch loop: either it returned before the
  loop, without an event, or its events are those of the loop started at index 0 with
  the queried sequence and batch number 0, and an error of the loop is what it returns.
\<close>

lemma seedAccounts_run:
  assumes "seedAccounts cr lib led cfg = Some r"
  obtains (early) "events r = []" "warnings r = []"
      "returned r = Inr () \<Longrightarrow>
         \<exists>fundCoin. ParseCoinNormalized lib (FundAmount cfg) = Some fundCoin
            \<and> needsFundingLoop lib cfg fundCoin (workerBalanceResp led) 0
                 (benchKeys cr (nat (sint (Workers cfg)))) [] = Inr []"
    | (loop) fundCoin seedPrivKey seedAddr acct sequence0 needsFunding res seq'
      where "ParseCoinNormalized lib (FundAmount cfg) = Some fundCoin"
        "seedKey cr cfg = Inr (seedPrivKey, seedAddr)"
        "querySeedAccount (seedAccountResp led) = Inr (acct, sequence0)"
        "needsFundingLoop lib cfg fundCoin (workerBalanceResp led) 0
           (benchKeys cr (nat (sint (Workers cfg)))) [] = Inr needsFunding"
        "needsFunding \<noteq> []"
        "fundLoop cr lib led
           \<lparr>f_cfg = cfg, f_fundCoin = fundCoin, f_seedPrivKey = seedPrivKey,
            f_seedAddr = seedAddr, f_accountNum = acct, f_needsFunding = needsFunding\<rparr>
           0 sequence0 0 [] = Some (res, seq', events r)"
        "case res of Some err \<Rightarrow> returned r = Inl err | None \<Rightarrow> True"
  using assms
  by (auto simp: seedAccounts_def
           split: option.splits sum.splits prod.splits if_splits)

section \<open>The batch loop and the node's answers\<close>

text \<open>
  A round reaches \<open>currentSeq++\<close> only with a positive batch size, so the loop returns
  whatever the configuration and the node's answers are.
\<close>

lemma fundBatch_None_positive:
  assumes "fundBatch cr lib led f i currentSeq k = (None, ev)"
  shows "0 < sint (BatchSize (f_cfg f))"
proof -
  from fundBatch_shape [OF assms]
  obtain sd b bs h where ev: "ev = [Signed k sd b, Broadcast k bs, Included k h]" by auto
  then have s: "Signed k sd b \<in> set ev" and t: "Broadcast k bs \<in> set ev" by simp_all
  from fundBatch_signed [OF assms s] have "0 \<le> sint (BatchSize (f_cfg f))" by simp
  moreover from fundBatch_broadcast [OF assms t] have "sint (BatchSize (f_cfg f)) \<noteq> 0"
    by (auto split: broadcast_result.splits if_splits)
  ultimately show ?thesis by simp
qed

lemma fundLoop_total: "\<exists>y. fundLoop cr lib led f i currentSeq k evs = Some y"
proof (cases "0 < sint (BatchSize (f_cfg f))")
  case True
  then show ?thesis by (rule fundLoop_terminates)
next
  case False
  show ?thesis
  proof (cases "i < length (f_needsFunding f)")
    case False
    then show ?thesis by (subst fundLoop.simps) simp
  next
    case True
    obtain r ev where b: "fundBatch cr lib led f i currentSeq k = (r, ev)"
      by (cases "fundBatch cr lib led f i currentSeq k")
    show ?thesis
    proof (cases r)
      case None
      with b fundBatch_None_positive [of cr lib led f i currentSeq k ev] \<open>\<not> 0 < sint (BatchSize (f_cfg f))\<close>
      show ?thesis by simp
    next
      case (Some err)
      with True b show ?thesis by (subst fundLoop.simps) simp
    qed
  qed
qed

lemma fundLoop_not_None: "(fundLoop cr lib led f i currentSeq k evs = None) = False"
  using fundLoop_total [of cr lib led f i currentSeq k evs] by auto

lemma seedAccounts_total: "\<exists>r. seedAccounts cr lib led cfg = Some r"
  by (simp add: seedAccounts_def fundLoop_not_None
           split: option.split sum.split prod.split bool.split)

text \<open>
  The polling loop, read off the list of answers: the first answer with status 200, a
  body that decodes and a height other than \<open>""\<close> and \<open>"0"\<close> decides; without one,
  \<open>txIncluded\<close> stays false.
\<close>

lemma pollTx_first:
  assumes "\<forall>body' d'. GetResponse StatusOK body' (Some d') \<in> set pre
             \<longrightarrow> tx_Height d' = [] \<or> tx_Height d' = ''0''"
    and "tx_Height d \<noteq> []" "tx_Height d \<noteq> ''0''"
  shows "pollTx (pre @ GetResponse StatusOK body (Some d) # rest)
           = (if tx_Code d \<noteq> 0
              then Inl (TransactionFailedInBlock (tx_Height d) (tx_Code d) (tx_RawLog d))
              else Inr True)
       \<and> includedHeight (pre @ GetResponse StatusOK body (Some d) # rest) = tx_Height d"
  using assms(1)
proof (induction pre)
  case Nil
  then show ?case using assms(2,3) by simp
next
  case (Cons x pre)
  then have ih: "pollTx (pre @ GetResponse StatusOK body (Some d) # rest)
           = (if tx_Code d \<noteq> 0
              then Inl (TransactionFailedInBlock (tx_Height d) (tx_Code d) (tx_RawLog d))
              else Inr True)
       \<and> includedHeight (pre @ GetResponse StatusOK body (Some d) # rest) = tx_Height d"
    by simp
  show ?case
  proof (cases x)
    case (GetError e)
    with ih show ?thesis by simp
  next
    case (GetResponse st bd dec)
    show ?thesis
    proof (cases dec)
      case None
      with GetResponse ih show ?thesis by simp
    next
      case (Some d')
      with GetResponse Cons.prems
      have "st = StatusOK \<longrightarrow> tx_Height d' = [] \<or> tx_Height d' = ''0''" by simp
      with GetResponse Some ih show ?thesis by auto
    qed
  qed
qed

lemma pollTx_timeout:
  "\<forall>body' d'. GetResponse StatusOK body' (Some d') \<in> set rs
     \<longrightarrow> tx_Height d' = [] \<or> tx_Height d' = ''0'' \<Longrightarrow> pollTx rs = Inr False"
proof (induction rs rule: pollTx.induct)
  case 1
  then show ?case by simp
next
  case (2 err rest)
  then show ?case by simp
next
  case (3 status body rest)
  then show ?case by simp
next
  case (4 status body txStatusData rest)
  then show ?case by auto
qed

lemma pollTx_included:
  "pollTx rs = Inr True \<Longrightarrow>
   \<exists>pre body d rest. rs = pre @ GetResponse StatusOK body (Some d) # rest
     \<and> (\<forall>body' d'. GetResponse StatusOK body' (Some d') \<in> set pre
            \<longrightarrow> tx_Height d' = [] \<or> tx_Height d' = ''0'')
     \<and> tx_Height d = includedHeight rs \<and> tx_Height d \<noteq> [] \<and> tx_Height d \<noteq> ''0''
     \<and> tx_Code d = 0"
proof (induction rs rule: pollTx.induct)
  case 1
  then show ?case by simp
next
  case (2 err rest)
  then obtain pre body d rest' where p: "rest = pre @ GetResponse StatusOK body (Some d) # rest'"
    "\<forall>body' d'. GetResponse StatusOK body' (Some d') \<in> set pre
            \<longrightarrow> tx_Height d' = [] \<or> tx_Height d' = ''0''"
    "tx_Height d = includedHeight rest" "tx_Height d \<noteq> []" "tx_Height d \<noteq> ''0''" "tx_Code d = 0"
    by auto
  show ?case
    apply (rule exI [of _ "GetError err # pre"])
    apply (rule exI [of _ body])
    apply (rule exI [of _ d])
    apply (rule exI [of _ rest'])
    using p by simp
next
  case (3 status body0 rest)
  then obtain pre body d rest' where p: "rest = pre @ GetResponse StatusOK body (Some d) # rest'"
    "\<forall>body' d'. GetResponse StatusOK body' (Some d') \<in> set pre
            \<longrightarrow> tx_Height d' = [] \<or> tx_Height d' = ''0''"
    "tx_Height d = includedHeight rest" "tx_Height d \<noteq> []" "tx_Height d \<noteq> ''0''" "tx_Code d = 0"
    by auto
  show ?case
    apply (rule exI [of _ "GetResponse status body0 None # pre"])
    apply (rule exI [of _ body])
    apply (rule exI [of _ d])
    apply (rule exI [of _ rest'])
    using p by simp
next
  case (4 status body0 txStatusData rest)
  show ?case
  proof (cases "status = StatusOK \<and> tx_Height txStatusData \<noteq> [] \<and> tx_Height txStatusData \<noteq> ''0''")
    case True
    with 4(3) have c: "tx_Code txStatusData = 0" by (auto split: if_splits)
    show ?thesis
      apply (rule exI [of _ "[]"])
      apply (rule exI [of _ body0])
      apply (rule exI [of _ txStatusData])
      apply (rule exI [of _ rest])
      using True c by simp
  next
    case False
    with 4 have "pollTx rest = Inr True" by (auto split: if_splits)
    with 4 False obtain pre body d rest'
      where p: "rest = pre @ GetResponse StatusOK body (Some d) # rest'"
        "\<forall>body' d'. GetResponse StatusOK body' (Some d') \<in> set pre
            \<longrightarrow> tx_Height d' = [] \<or> tx_Height d' = ''0''"
        "tx_Height d = includedHeight rest" "tx_Height d \<noteq> []" "tx_Height d \<noteq> ''0''"
        "tx_Code d = 0"
      by (auto split: if_splits)
    show ?thesis
      apply (rule exI [of _ "GetResponse status body0 (Some txStatusData) # pre"])
      apply (rule exI [of _ body])
      apply (rule exI [of _ d])
      apply (rule exI [of _ rest'])
      using p False by auto
  qed
qed

text \<open>The same for a whole run of the loop.\<close>

lemma funding_run_broadcast:
  "funding_run cr lib led f i currentSeq k new res seq' \<Longrightarrow> Broadcast j bs \<in> set new \<Longrightarrow>
   (case broadcastResp led j bs of
      BroadcastError err \<Rightarrow> res = Some (BroadcastFailed err)
    | BroadcastResponse code rawLog txHash \<Rightarrow>
        if code \<noteq> 0 then res = Some (TransactionFailed rawLog)
        else if sint (BatchSize (f_cfg f)) = 0
        then res = Some (Panic ''runtime error: integer divide by zero'')
        else (case pollTx (txStatusResps led j) of
                Inl e \<Rightarrow> res = Some e
              | Inr False \<Rightarrow> res = Some (NotIncluded txHash)
              | Inr True \<Rightarrow> Included j (includedHeight (txStatusResps led j)) \<in> set new))"
proof (induction rule: funding_run.induct)
  case (finished i currentSeq k)
  then show ?case by simp
next
  case (failed i currentSeq k err ev)
  from fundBatch_broadcast [OF failed.hyps(2) failed.prems]
  show ?case by (auto split: broadcast_result.splits if_splits sum.splits bool.splits)
next
  case (confirmed i currentSeq k ev evs res seq')
  show ?case
  proof (cases "Broadcast j bs \<in> set ev")
    case True
    from fundBatch_shape [OF confirmed.hyps(2)]
    obtain sd0 b0 bs0 h0 where ev: "ev = [Signed k sd0 b0, Broadcast k bs0, Included k h0]" by auto
    then have "Included k h0 \<in> set ev" by simp
    from fundBatch_included [OF confirmed.hyps(2) this]
    have h0: "h0 = includedHeight (txStatusResps led k)" by simp
    from fundBatch_broadcast [OF confirmed.hyps(2) True] ev h0
    show ?thesis by (auto split: broadcast_result.splits if_splits sum.splits bool.splits)
  next
    case False
    with confirmed.prems have "Broadcast j bs \<in> set evs" by simp
    from confirmed.IH [OF this]
    show ?thesis by (auto split: broadcast_result.splits if_splits sum.splits bool.splits)
  qed
qed

lemma funding_run_included:
  "funding_run cr lib led f i currentSeq k new res seq' \<Longrightarrow> Included j h \<in> set new \<Longrightarrow>
   sint (BatchSize (f_cfg f)) \<noteq> 0 \<and> pollTx (txStatusResps led j) = Inr True
   \<and> h = includedHeight (txStatusResps led j)
   \<and> (\<exists>bs. Broadcast j bs \<in> set new)
   \<and> (\<forall>bs. Broadcast j bs \<in> set new
          \<longrightarrow> (\<exists>rawLog txHash. broadcastResp led j bs = BroadcastResponse 0 rawLog txHash))"
proof (induction rule: funding_run.induct)
  case (finished i currentSeq k)
  then show ?case by simp
next
  case (failed i currentSeq k err ev)
  from fundBatch_included [OF failed.hyps(2) failed.prems] show ?case by simp
next
  case (confirmed i currentSeq k ev evs res seq')
  show ?case
  proof (cases "Included j h \<in> set ev")
    case True
    from fundBatch_included [OF confirmed.hyps(2) True]
    obtain bs0 where j: "j = k" and h: "h = includedHeight (txStatusResps led k)"
      and bs0: "Broadcast k bs0 \<in> set ev" by blast
    have acc: "sint (BatchSize (f_cfg f)) \<noteq> 0 \<and> pollTx (txStatusResps led k) = Inr True
        \<and> (\<exists>rawLog txHash. broadcastResp led k bs = BroadcastResponse 0 rawLog txHash)"
      if "Broadcast k bs \<in> set ev" for bs
      using fundBatch_broadcast [OF confirmed.hyps(2) that]
      by (auto split: broadcast_result.splits if_splits sum.splits bool.splits)
    have "\<exists>rawLog txHash. broadcastResp led k bs = BroadcastResponse 0 rawLog txHash"
      if "Broadcast k bs \<in> set (ev @ evs)" for bs
    proof (cases "Broadcast k bs \<in> set ev")
      case True
      with acc show ?thesis by blast
    next
      case False
      with that have "Broadcast k bs \<in> set evs" by simp
      from funding_run_batches [OF confirmed.hyps(3) this] show ?thesis by simp
    qed
    with acc [OF bs0] j h bs0 show ?thesis by auto
  next
    case False
    with confirmed.prems have in': "Included j h \<in> set evs" by simp
    from funding_run_batches [OF confirmed.hyps(3) in'] have lt: "k < j" by simp
    have "Broadcast j bs \<notin> set ev" for bs
      using fundBatch_broadcast [OF confirmed.hyps(2), of j bs] lt by auto
    with confirmed.IH [OF in'] show ?thesis by auto
  qed
qed

lemma funding_run_sent_signed:
  "funding_run cr lib led f i currentSeq k new res seq' \<Longrightarrow> Broadcast j bs \<in> set new \<Longrightarrow>
   \<exists>sd b. Signed j sd b \<in> set new"
proof (induction rule: funding_run.induct)
  case (finished i currentSeq k)
  then show ?case by simp
next
  case (failed i currentSeq k err ev)
  from fundBatch_shape [OF failed.hyps(2)] failed.prems show ?case by auto
next
  case (confirmed i currentSeq k ev evs res seq')
  show ?case
  proof (cases "Broadcast j bs \<in> set ev")
    case True
    from fundBatch_broadcast [OF confirmed.hyps(2) True] have j: "j = k" by simp
    from fundBatch_shape [OF confirmed.hyps(2)]
    obtain sd0 b0 bs0 h0 where ev: "ev = [Signed k sd0 b0, Broadcast k bs0, Included k h0]" by auto
    then have "Signed j sd0 b0 \<in> set (ev @ evs)" using j by simp
    then show ?thesis by blast
  next
    case False
    with confirmed.prems have "Broadcast j bs \<in> set evs" by simp
    from confirmed.IH [OF this] obtain sd b where "Signed j sd b \<in> set evs" by blast
    then have "Signed j sd b \<in> set (ev @ evs)" by simp
    then show ?thesis by blast
  qed
qed

text \<open>
  When no library call fails and the ledger accepts and includes every transaction, a
  round of the loop reaches \<open>currentSeq++\<close>, and with a positive batch size the loop ends
  without an error.
\<close>

lemma fundBatch_succeeds:
  assumes lib: "\<And>ms. SetMsgs_ok lib ms" "\<And>s. SetSignatures_ok lib s"
      "\<And>sd b. GetSignBytes lib sd b \<noteq> None" "\<And>k m. Sign cr k m \<noteq> None"
      "\<And>b. TxEncoder lib b \<noteq> None" "ValidateDenom lib (Denom (f_cfg f))"
    and size: "0 < sint (BatchSize (f_cfg f))" "length (f_needsFunding f) * 100000 < 2 ^ 63"
      "i < length (f_needsFunding f)"
    and led: "\<not> dialFails led k" "\<And>bs. broadcastResp led k bs = BroadcastResponse 0 (rl bs) (h bs)"
      "pollTx (txStatusResps led k) = Inr True"
  shows "\<exists>ev. fundBatch cr lib led f i currentSeq k = (None, ev)"
proof -
  define batch where
    "batch = take (nat (if int (length (f_needsFunding f)) < int i + sint (BatchSize (f_cfg f))
                        then int (length (f_needsFunding f))
                        else int i + sint (BatchSize (f_cfg f))) - i)
               (drop i (f_needsFunding f))"
  have nopanic: "((if int (length (f_needsFunding f)) < int i + sint (BatchSize (f_cfg f))
                   then int (length (f_needsFunding f))
                   else int i + sint (BatchSize (f_cfg f))) < int i) = False"
    using size by simp
  have "length batch \<le> length (f_needsFunding f)" by (simp add: batch_def)
  with size(2) have "length batch * 100000 < 2 ^ 63" by linarith
  from sint_gas(1) [OF this]
  have gas: "sint (100000 * word_of_nat (length batch) :: 64 word) = int (length batch) * 100000" .
  have nz: "(sint (BatchSize (f_cfg f)) = 0) = False" using size(1) by simp
  show ?thesis
    unfolding fundBatch_def Let_def nopanic batch_def [symmetric] if_False
    by (simp add: lib led gas nz NewCoin_def SignWithPrivKey_def split: option.split)
qed

text \<open>Under the same conditions on the library a round signs and sends, whatever the node answers.\<close>

lemma fundBatch_sent:
  assumes lib: "\<And>ms. SetMsgs_ok lib ms" "\<And>s. SetSignatures_ok lib s"
      "\<And>sd b. GetSignBytes lib sd b \<noteq> None" "\<And>k m. Sign cr k m \<noteq> None"
      "\<And>b. TxEncoder lib b \<noteq> None" "ValidateDenom lib (Denom (f_cfg f))"
    and size: "0 < sint (BatchSize (f_cfg f))" "length (f_needsFunding f) * 100000 < 2 ^ 63"
      "i < length (f_needsFunding f)"
    and led: "\<not> dialFails led k"
  shows "\<exists>sd b bs. Signed k sd b \<in> set (snd (fundBatch cr lib led f i currentSeq k))
           \<and> Broadcast k bs \<in> set (snd (fundBatch cr lib led f i currentSeq k))"
proof -
  define batch where
    "batch = take (nat (if int (length (f_needsFunding f)) < int i + sint (BatchSize (f_cfg f))
                        then int (length (f_needsFunding f))
                        else int i + sint (BatchSize (f_cfg f))) - i)
               (drop i (f_needsFunding f))"
  have nopanic: "((if int (length (f_needsFunding f)) < int i + sint (BatchSize (f_cfg f))
                   then int (length (f_needsFunding f))
                   else int i + sint (BatchSize (f_cfg f))) < int i) = False"
    using size by simp
  have "length batch \<le> length (f_needsFunding f)" by (simp add: batch_def)
  with size(2) have "length batch * 100000 < 2 ^ 63" by linarith
  from sint_gas(1) [OF this]
  have gas: "sint (100000 * word_of_nat (length batch) :: 64 word) = int (length batch) * 100000" .
  have nz: "(sint (BatchSize (f_cfg f)) = 0) = False" using size(1) by simp
  show ?thesis
    unfolding fundBatch_def Let_def nopanic batch_def [symmetric] if_False
    by (simp add: lib led gas nz NewCoin_def SignWithPrivKey_def
          split: option.split broadcast_result.split sum.split bool.split)
qed

lemma fundLoop_succeeds:
  assumes lib: "\<And>ms. SetMsgs_ok lib ms" "\<And>s. SetSignatures_ok lib s"
      "\<And>sd b. GetSignBytes lib sd b \<noteq> None" "\<And>k m. Sign cr k m \<noteq> None"
      "\<And>b. TxEncoder lib b \<noteq> None" "ValidateDenom lib (Denom (f_cfg f))"
    and size: "0 < sint (BatchSize (f_cfg f))" "length (f_needsFunding f) * 100000 < 2 ^ 63"
    and led: "\<And>k. \<not> dialFails led k"
      "\<And>k bs. broadcastResp led k bs = BroadcastResponse 0 (rl k bs) (h k bs)"
      "\<And>k. pollTx (txStatusResps led k) = Inr True"
  shows "\<exists>seq' trace. fundLoop cr lib led f i currentSeq k evs = Some (None, seq', trace)"
proof (induction "length (f_needsFunding f) - i" arbitrary: i currentSeq k evs rule: less_induct)
  case less
  show ?case
  proof (cases "i < length (f_needsFunding f)")
    case False
    then show ?thesis by (subst fundLoop.simps) simp
  next
    case True
    from fundBatch_succeeds [OF lib size(1) size(2) True led(1) led(2) led(3)]
    obtain ev where b: "fundBatch cr lib led f i currentSeq k = (None, ev)" by blast
    let ?i' = "nat (int i + sint (BatchSize (f_cfg f)))"
    have "length (f_needsFunding f) - ?i' < length (f_needsFunding f) - i"
      using True size(1) by linarith
    from less [OF this] obtain seq' trace
      where y: "fundLoop cr lib led f ?i' (currentSeq + 1) (Suc k) (evs @ ev)
                  = Some (None, seq', trace)" by blast
    have "fundLoop cr lib led f i currentSeq k evs = Some (None, seq', trace)"
      using True b y by (subst fundLoop.simps) simp
    then show ?thesis by blast
  qed
qed

lemma needsFundingLoop_all:
  "(\<And>j. j < length bks \<Longrightarrow> needsFundingCheck lib cfg fundCoin (resp (i + j)) = Inr True) \<Longrightarrow>
   needsFundingLoop lib cfg fundCoin resp i bks acc = Inr (acc @ map bk_addr bks)"
proof (induction bks arbitrary: i acc)
  case Nil
  then show ?case by simp
next
  case (Cons bk rest)
  from Cons.prems [of 0] have h: "needsFundingCheck lib cfg fundCoin (resp i) = Inr True" by simp
  have "needsFundingLoop lib cfg fundCoin resp (Suc i) rest (acc @ [bk_addr bk])
      = Inr ((acc @ [bk_addr bk]) @ map bk_addr rest)"
  proof (rule Cons.IH)
    fix j assume "j < length rest"
    with Cons.prems [of "Suc j"]
    show "needsFundingCheck lib cfg fundCoin (resp (Suc i + j)) = Inr True" by simp
  qed
  with h show ?case by simp
qed

lemma verifyLoop_all:
  "(\<And>j. j < length as \<Longrightarrow> verifyCheck lib cfg fundCoin (i + j) (as ! j) (resp (i + j)) = Inr None) \<Longrightarrow>
   verifyLoop lib cfg fundCoin resp i as allFunded ws = Inr (allFunded, ws)"
proof (induction as arbitrary: i)
  case Nil
  then show ?case by simp
next
  case (Cons a rest)
  from Cons.prems [of 0] have h: "verifyCheck lib cfg fundCoin i a (resp i) = Inr None" by simp
  have "verifyLoop lib cfg fundCoin resp (Suc i) rest allFunded ws = Inr (allFunded, ws)"
  proof (rule Cons.IH)
    fix j assume "j < length rest"
    with Cons.prems [of "Suc j"]
    show "verifyCheck lib cfg fundCoin (Suc i + j) (rest ! j) (resp (Suc i + j)) = Inr None"
      by simp
  qed
  with h show ?case by simp
qed

text \<open>The demo run: every worker needs funding, every batch is included, every account ends funded.\<close>

lemma demo_seed_run:
  assumes cfg: "cfg = demo_seed_cfg\<lparr>Workers := w, BatchSize := bsz\<rparr>"
    and w: "0 \<le> sint w" "sint w \<le> 50" "sint (w * 10000) = sint w * 10000" and bsz: "0 < sint bsz"
  shows "\<exists>r key res seq'.
           seedAccounts demo_crypto demo_sdk demo_ledger cfg = Some r
         \<and> returned r = Inr ()
         \<and> ParseCoinNormalized demo_sdk (FundAmount cfg) = Some demo_fundCoin
         \<and> needsFundingLoop demo_sdk cfg demo_fundCoin (workerBalanceResp demo_ledger) 0
              (benchKeys demo_crypto (nat (sint (Workers cfg)))) []
             = Inr (map bk_addr (benchKeys demo_crypto (nat (sint w))))
         \<and> querySeedAccount (seedAccountResp demo_ledger) = Inr (7, 41)
         \<and> seedKey demo_crypto cfg = Inr key
         \<and> fundLoop demo_crypto demo_sdk demo_ledger
              \<lparr>f_cfg = cfg, f_fundCoin = demo_fundCoin, f_seedPrivKey = fst key,
               f_seedAddr = snd key, f_accountNum = 7,
               f_needsFunding = map bk_addr (benchKeys demo_crypto (nat (sint w)))\<rparr> 0 41 0 []
             = Some (res, seq', events r)
         \<and> (sint w = 0 \<or> res = None)"
proof -
  have pc: "ParseCoinNormalized demo_sdk (FundAmount cfg) = Some demo_fundCoin"
    using demo_ParseCoin by (simp add: cfg demo_seed_cfg_def)
  have tr: "totalRequired demo_sdk cfg demo_fundCoin
      = Inr (NewCoins1 \<lparr>coin_Denom = ''aperpx'', coin_Amount = 1010000 * sint w\<rparr>)"
    using w by (simp add: cfg demo_seed_simps)
  obtain key where k0: "seedKey demo_crypto demo_seed_cfg = Inr key" using demo_seedKey by blast
  then have k: "seedKey demo_crypto cfg = Inr key" by (simp add: cfg seedKey_def demo_seed_cfg_def)
  obtain seedPrivKey seedAddr where key: "key = (seedPrivKey, seedAddr)" by (cases key)
  have sb: "querySeedBalance demo_sdk (seedBalanceResp demo_ledger)
             = Inr [\<lparr>coin_Denom = ''aperpx'', coin_Amount = 99000000\<rparr>]"
    by (simp add: demo_seed_simps)
  have d: "Denom cfg = ''aperpx''" by (simp add: cfg demo_seed_cfg_def)
  have enough: "\<not> AmountOf [\<lparr>coin_Denom = ''aperpx'', coin_Amount = 99000000\<rparr>] ''aperpx''
      < AmountOf (NewCoins1 \<lparr>coin_Denom = ''aperpx'', coin_Amount = 1010000 * sint w\<rparr>) ''aperpx''"
    using w by (simp add: AmountOf_def NewCoins1_def)
  have sa: "querySeedAccount (seedAccountResp demo_ledger) = Inr (7, 41)"
    by (simp add: demo_seed_simps)
  have chk: "needsFundingCheck demo_sdk cfg demo_fundCoin (workerBalanceResp demo_ledger j) = Inr True"
    for j by (simp add: needsFundingCheck_def demo_ledger_def StatusOK_def)
  let ?nf = "map bk_addr (benchKeys demo_crypto (nat (sint w)))"
  have nf: "needsFundingLoop demo_sdk cfg demo_fundCoin (workerBalanceResp demo_ledger) 0
              (benchKeys demo_crypto (nat (sint w))) [] = Inr ?nf"
    using needsFundingLoop_all [of "benchKeys demo_crypto (nat (sint w))" demo_sdk cfg demo_fundCoin
            "workerBalanceResp demo_ledger" 0 "[]"] chk by simp
  let ?f = "\<lparr>f_cfg = cfg, f_fundCoin = demo_fundCoin, f_seedPrivKey = seedPrivKey,
             f_seedAddr = seedAddr, f_accountNum = 7, f_needsFunding = ?nf\<rparr>"
  have len: "length ?nf = nat (sint w)" by (simp add: benchKeys_def)
  have "\<exists>seq' trace. fundLoop demo_crypto demo_sdk demo_ledger ?f 0 41 0 [] = Some (None, seq', trace)"
  proof (rule fundLoop_succeeds)
    have "nat (sint w) \<le> 50" using w by simp
    then show "length (f_needsFunding ?f) * 100000 < 2 ^ 63" by (simp add: benchKeys_def)
    show "0 < sint (BatchSize (f_cfg ?f))" using bsz by (simp add: cfg)
    show "\<And>k. pollTx (txStatusResps demo_ledger k) = Inr True"
      by (simp add: demo_ledger_def StatusOK_def)
  qed (simp_all add: demo_sdk_def demo_crypto_def demo_ledger_def d)
  then obtain seq' trace
    where fl: "fundLoop demo_crypto demo_sdk demo_ledger ?f 0 41 0 [] = Some (None, seq', trace)"
    by blast
  have vc: "verifyCheck demo_sdk cfg demo_fundCoin j a (verifyBalanceResp demo_ledger j) = Inr None"
    for j a
    by (simp add: verifyCheck_def demo_ledger_def demo_funded_def StatusOK_def demo_sdk_def
          NewCoin_def Coins_Add_def AmountOf_def is_digit_def digits_value_def d demo_fundCoin_def)
  have vl: "verifyLoop demo_sdk cfg demo_fundCoin (verifyBalanceResp demo_ledger) 0 ?nf True []
      = Inr (True, [])"
    by (rule verifyLoop_all) (simp add: vc)
  have wn: "\<not> sint w < 0" "Workers cfg = w" using w by (simp_all add: cfg)
  show ?thesis
  proof (cases "?nf = []")
    case True
    then have z: "sint w = 0" using w len by (metis length_0_conv nat_0_iff order_antisym)
    have fl0: "fundLoop demo_crypto demo_sdk demo_ledger ?f 0 41 0 [] = Some (None, 41, [])"
      using True by (subst fundLoop.simps) simp
    have "seedAccounts demo_crypto demo_sdk demo_ledger cfg
        = Some \<lparr>returned = Inr (), events = [], warnings = []\<rparr>"
      using True enough by (simp add: seedAccounts_def pc tr k key sb d sa wn nf)
    with k fl0 z pc nf sa wn(2) show ?thesis by (auto simp: key)
  next
    case False
    have "seedAccounts demo_crypto demo_sdk demo_ledger cfg
        = Some \<lparr>returned = Inr (), events = trace, warnings = []\<rparr>"
      using False enough by (simp add: seedAccounts_def pc tr k key sb d sa wn nf fl vl)
    with k fl pc nf sa wn(2) show ?thesis by (auto simp: key)
  qed
qed


text \<open>
  As long as the node accepts and includes the batches before it, the batch \<open>k + m\<close> is
  signed and sent.
\<close>

lemma funding_run_reaches:
  assumes lib: "\<And>ms. SetMsgs_ok lib ms" "\<And>s. SetSignatures_ok lib s"
      "\<And>sd b. GetSignBytes lib sd b \<noteq> None" "\<And>k m. Sign cr k m \<noteq> None"
      "\<And>b. TxEncoder lib b \<noteq> None" "ValidateDenom lib (Denom (f_cfg f))"
    and size: "0 < sint (BatchSize (f_cfg f))" "length (f_needsFunding f) * 100000 < 2 ^ 63"
    and dial: "\<And>j. \<not> dialFails led j"
  shows "funding_run cr lib led f i currentSeq k new res seq' \<Longrightarrow>
     i + m * nat (sint (BatchSize (f_cfg f))) < length (f_needsFunding f) \<Longrightarrow>
     (\<And>j bs. k \<le> j \<Longrightarrow> j < k + m \<Longrightarrow> broadcastResp led j bs = BroadcastResponse 0 (rl j bs) (h j bs)) \<Longrightarrow>
     (\<And>j. k \<le> j \<Longrightarrow> j < k + m \<Longrightarrow> pollTx (txStatusResps led j) = Inr True) \<Longrightarrow>
     \<exists>sd b bs. Signed (k + m) sd b \<in> set new \<and> Broadcast (k + m) bs \<in> set new"
proof (induction arbitrary: m rule: funding_run.induct)
  case (finished i currentSeq k)
  then show ?case by simp
next
  case (failed i currentSeq k err ev)
  show ?case
  proof (cases m)
    case 0
    from fundBatch_sent [OF lib size failed.hyps(1) dial, of k currentSeq] failed.hyps(2) 0
    show ?thesis by simp
  next
    case (Suc m')
    have "\<And>bs. broadcastResp led k bs = BroadcastResponse 0 (rl k bs) (h k bs)"
      using failed.prems(2) [of k] Suc by simp
    moreover have "pollTx (txStatusResps led k) = Inr True"
      using failed.prems(3) [of k] Suc by simp
    ultimately have "\<exists>ev. fundBatch cr lib led f i currentSeq k = (None, ev)"
      using fundBatch_succeeds [OF lib size failed.hyps(1) dial, of k "rl k" "h k" currentSeq]
      by blast
    with failed.hyps(2) show ?thesis by simp
  qed
next
  case (confirmed i currentSeq k ev evs res seq')
  show ?case
  proof (cases m)
    case 0
    from fundBatch_sent [OF lib size confirmed.hyps(1) dial, of k currentSeq] confirmed.hyps(2) 0
    show ?thesis by auto
  next
    case (Suc m')
    have "nat (int i + sint (BatchSize (f_cfg f))) + m' * nat (sint (BatchSize (f_cfg f)))
        = i + m * nat (sint (BatchSize (f_cfg f)))"
      using size(1) by (simp add: Suc nat_add_distrib)
    with confirmed.prems(1)
    have lt: "nat (int i + sint (BatchSize (f_cfg f))) + m' * nat (sint (BatchSize (f_cfg f)))
        < length (f_needsFunding f)" by simp
    have a: "broadcastResp led j bs = BroadcastResponse 0 (rl j bs) (h j bs)"
      if "Suc k \<le> j" "j < Suc k + m'" for j bs
      using confirmed.prems(2) [of j bs] that Suc by simp
    have p: "pollTx (txStatusResps led j) = Inr True" if "Suc k \<le> j" "j < Suc k + m'" for j
      using confirmed.prems(3) [of j] that Suc by simp
    from confirmed.IH [OF lt a p] Suc show ?thesis by auto
  qed
qed

text \<open>
  The demo run against any ledger that answers the queries before the loop as the demo
  ledger does: the events are those of the batch loop.
\<close>

lemma demo_seed_loop:
  assumes led: "seedBalanceResp led = seedBalanceResp demo_ledger"
      "seedAccountResp led = seedAccountResp demo_ledger"
      "workerBalanceResp led = workerBalanceResp demo_ledger"
    and r: "seedAccounts demo_crypto demo_sdk led demo_seed_cfg = Some r"
  shows "\<exists>key res seq'.
           fundLoop demo_crypto demo_sdk led
              \<lparr>f_cfg = demo_seed_cfg, f_fundCoin = demo_fundCoin, f_seedPrivKey = fst key,
               f_seedAddr = snd key, f_accountNum = 7,
               f_needsFunding = map bk_addr (benchKeys demo_crypto 3)\<rparr> 0 41 0 []
             = Some (res, seq', events r)"
proof -
  obtain key where k: "seedKey demo_crypto demo_seed_cfg = Inr key" using demo_seedKey by blast
  obtain seedPrivKey seedAddr where key: "key = (seedPrivKey, seedAddr)" by (cases key)
  have sb: "querySeedBalance demo_sdk (seedBalanceResp led)
             = Inr [\<lparr>coin_Denom = ''aperpx'', coin_Amount = 99000000\<rparr>]"
    by (simp add: led demo_seed_simps)
  have d: "Denom demo_seed_cfg = ''aperpx''" by (simp add: demo_seed_cfg_def)
  have enough: "\<not> AmountOf [\<lparr>coin_Denom = ''aperpx'', coin_Amount = 99000000\<rparr>] ''aperpx''
      < AmountOf [\<lparr>coin_Denom = ''aperpx'', coin_Amount = 3030000\<rparr>] ''aperpx''"
    by (simp add: AmountOf_def)
  have sa: "querySeedAccount (seedAccountResp led) = Inr (7, 41)"
    by (simp add: led demo_seed_simps)
  have chk: "needsFundingCheck demo_sdk demo_seed_cfg demo_fundCoin (workerBalanceResp led j)
      = Inr True" for j
    by (simp add: led needsFundingCheck_def demo_ledger_def StatusOK_def)
  have wn: "\<not> sint (Workers demo_seed_cfg) < 0" "nat (sint (Workers demo_seed_cfg)) = 3"
    by (simp_all add: demo_seed_cfg_def)
  let ?nf = "map bk_addr (benchKeys demo_crypto 3)"
  have nf: "needsFundingLoop demo_sdk demo_seed_cfg demo_fundCoin (workerBalanceResp led) 0
              (benchKeys demo_crypto 3) [] = Inr ?nf"
    using needsFundingLoop_all [of "benchKeys demo_crypto 3" demo_sdk demo_seed_cfg demo_fundCoin
            "workerBalanceResp led" 0 "[]"] chk by simp
  have ne: "length ?nf \<noteq> 0" by (simp add: benchKeys_def)
  let ?f = "\<lparr>f_cfg = demo_seed_cfg, f_fundCoin = demo_fundCoin, f_seedPrivKey = seedPrivKey,
             f_seedAddr = seedAddr, f_accountNum = 7, f_needsFunding = ?nf\<rparr>"
  from fundLoop_total [of demo_crypto demo_sdk led ?f 0 41 0 "[]"]
  obtain res seq' trace
    where fl: "fundLoop demo_crypto demo_sdk led ?f 0 41 0 [] = Some (res, seq', trace)"
    by (metis prod_cases3)
  have "events r = trace"
    using r ne enough
    by (auto simp: seedAccounts_def demo_ParseCoin demo_totalRequired k key sb d sa wn nf fl
             split: option.splits sum.splits prod.splits if_splits)
  with fl show ?thesis by (auto simp: key)
qed

section \<open>Sequence numbers of the funding batches\<close>

text \<open>
  C2. Let the seed account query answer with sequence \<open>sequence0\<close>. \<open>seedAccounts\<close> returns,
  and in its run: the batch number \<open>k\<close> is signed with \<open>sequence0 + k\<close> (in the signer data
  and in the signature entry; \<open>+\<close> on \<open>uint64\<close>) and with the queried account number; the
  batch \<open>k + 1\<close> is signed only after the batch \<open>k\<close> was seen included in a block; and when
  a batch was signed and never seen included, \<open>seedAccounts\<close> returns an error and there
  is no event of a later batch: none is signed or sent. The loop's \<open>currentSeq\<close> ends at
  \<open>sequence0\<close> plus the number of batches seen included.

  Seen included is what the node answered. The batch \<open>k\<close> is seen included only if its
  broadcast was answered with code 0 and the first status poll that reports a height
  (status 200, a body that decodes, a height other than \<open>""\<close> and \<open>"0"\<close>) reports code
  0; the height of the event is the height of that poll. Conversely, once the
  transaction of the batch \<open>k\<close> was sent (it was signed before): a broadcast error, a
  broadcast code other than 0, a first reported height with a code other than 0, and
  polls that never report a height each make \<open>seedAccounts\<close> return that error, with the
  batch never seen included, so that no later batch is built, signed or sent; a first
  reported height with code 0 makes the batch seen included. With a batch size of 0 the
  run panics right after the first accepted broadcast.
\<close>

theorem funding_batches_sequence:
  assumes "querySeedAccount (seedAccountResp led) = Inr (acct0, sequence0)"
  shows "\<exists>r. seedAccounts cr lib led cfg = Some r
       \<and> (\<forall>k sd b. Signed k sd b \<in> set (events r) \<longrightarrow>
            sd_Sequence sd = sequence0 + word_of_nat k
          \<and> map sig_Sequence (Signatures b) = [sequence0 + word_of_nat k]
          \<and> sd_AccountNumber sd = acct0)
       \<and> (\<forall>k sd b xs ys. events r = xs @ Signed (Suc k) sd b # ys \<longrightarrow>
            (\<exists>h. Included k h \<in> set xs))
       \<and> (\<forall>k sd b. Signed k sd b \<in> set (events r) \<and> (\<forall>h. Included k h \<notin> set (events r)) \<longrightarrow>
            (\<exists>err. returned r = Inl err) \<and> (\<forall>e\<in>set (events r). batch_of e \<le> k))
       \<and> (events r = []
          \<or> (\<exists>f res seq'. fundLoop cr lib led f 0 sequence0 0 [] = Some (res, seq', events r)
                \<and> seq' = sequence0
                     + word_of_nat (length (filter (\<lambda>e. \<exists>j h. e = Included j h) (events r)))))
       \<and> (\<forall>k h. Included k h \<in> set (events r) \<longrightarrow>
            (\<exists>bs. Broadcast k bs \<in> set (events r))
          \<and> (\<forall>bs. Broadcast k bs \<in> set (events r) \<longrightarrow>
                (\<exists>rawLog txHash. broadcastResp led k bs = BroadcastResponse 0 rawLog txHash))
          \<and> (\<exists>pre body d rest.
                txStatusResps led k = pre @ GetResponse StatusOK body (Some d) # rest
              \<and> (\<forall>body' d'. GetResponse StatusOK body' (Some d') \<in> set pre
                     \<longrightarrow> tx_Height d' = [] \<or> tx_Height d' = ''0'')
              \<and> tx_Height d = h \<and> h \<noteq> [] \<and> h \<noteq> ''0'' \<and> tx_Code d = 0))
       \<and> (\<forall>k bs. Broadcast k bs \<in> set (events r) \<longrightarrow> (\<exists>sd b. Signed k sd b \<in> set (events r)))
       \<and> (\<forall>k bs err.
             Broadcast k bs \<in> set (events r) \<and> broadcastResp led k bs = BroadcastError err \<longrightarrow>
             returned r = Inl (BroadcastFailed err) \<and> (\<forall>h. Included k h \<notin> set (events r)))
       \<and> (\<forall>k bs code rawLog txHash.
             Broadcast k bs \<in> set (events r)
           \<and> broadcastResp led k bs = BroadcastResponse code rawLog txHash \<and> code \<noteq> 0 \<longrightarrow>
             returned r = Inl (TransactionFailed rawLog) \<and> (\<forall>h. Included k h \<notin> set (events r)))
       \<and> (\<forall>k bs rawLog txHash.
             Broadcast k bs \<in> set (events r)
           \<and> broadcastResp led k bs = BroadcastResponse 0 rawLog txHash
           \<and> sint (BatchSize cfg) = 0 \<longrightarrow>
             returned r = Inl (Panic ''runtime error: integer divide by zero'')
           \<and> (\<forall>h. Included k h \<notin> set (events r)))
       \<and> (\<forall>k bs rawLog txHash pre body d rest.
             Broadcast k bs \<in> set (events r)
           \<and> broadcastResp led k bs = BroadcastResponse 0 rawLog txHash
           \<and> sint (BatchSize cfg) \<noteq> 0
           \<and> txStatusResps led k = pre @ GetResponse StatusOK body (Some d) # rest
           \<and> (\<forall>body' d'. GetResponse StatusOK body' (Some d') \<in> set pre
                  \<longrightarrow> tx_Height d' = [] \<or> tx_Height d' = ''0'')
           \<and> tx_Height d \<noteq> [] \<and> tx_Height d \<noteq> ''0'' \<longrightarrow>
             (if tx_Code d \<noteq> 0
              then returned r = Inl (TransactionFailedInBlock (tx_Height d) (tx_Code d)
                                       (tx_RawLog d))
                 \<and> (\<forall>h. Included k h \<notin> set (events r))
              else Included k (tx_Height d) \<in> set (events r)))
       \<and> (\<forall>k bs rawLog txHash.
             Broadcast k bs \<in> set (events r)
           \<and> broadcastResp led k bs = BroadcastResponse 0 rawLog txHash
           \<and> sint (BatchSize cfg) \<noteq> 0
           \<and> (\<forall>body' d'. GetResponse StatusOK body' (Some d') \<in> set (txStatusResps led k)
                  \<longrightarrow> tx_Height d' = [] \<or> tx_Height d' = ''0'') \<longrightarrow>
             returned r = Inl (NotIncluded txHash) \<and> (\<forall>h. Included k h \<notin> set (events r)))"
    (is "\<exists>r. _ = Some r \<and> ?P r")
proof -
  obtain r where r: "seedAccounts cr lib led cfg = Some r" using seedAccounts_total by blast
  from r have p: "?P r"
  proof (cases rule: seedAccounts_run)
    case early
    then show ?thesis by simp
  next
    case (loop fundCoin seedPrivKey seedAddr acct s0 needsFunding res seq')
    from loop(3) assms have eq: "acct = acct0" "s0 = sequence0" by simp_all
    define f where "f = \<lparr>f_cfg = cfg, f_fundCoin = fundCoin, f_seedPrivKey = seedPrivKey,
            f_seedAddr = seedAddr, f_accountNum = acct, f_needsFunding = needsFunding\<rparr>"
    have fa: "f_accountNum f = acct0" by (simp add: f_def eq)
    have fc: "f_cfg f = cfg" by (simp add: f_def)
    have fl: "fundLoop cr lib led f 0 sequence0 0 [] = Some (res, seq', events r)"
      using loop(6) by (simp add: f_def eq)
    have rr: "returned r = Inl err" if "res = Some err" for err
      using loop(7) that by simp
    from fundLoop_run [OF fl]
    have run: "funding_run cr lib led f 0 sequence0 0 (events r) res seq'" by simp
    have a: "sd_Sequence sd = sequence0 + word_of_nat k
          \<and> map sig_Sequence (Signatures b) = [sequence0 + word_of_nat k]
          \<and> sd_AccountNumber sd = acct0"
      if "Signed k sd b \<in> set (events r)" for k sd b
      using funding_run_sequence [OF run that] fa by simp
    have b: "\<exists>h. Included k h \<in> set xs"
      if "events r = xs @ Signed (Suc k) sd b # ys" for k sd b xs ys
      using funding_run_order [OF run that] by simp
    have c: "(\<exists>err. returned r = Inl err) \<and> (\<forall>e\<in>set (events r). batch_of e \<le> k)"
      if "Signed k sd b \<in> set (events r)" "\<forall>h. Included k h \<notin> set (events r)" for k sd b
    proof -
      from funding_run_unconfirmed [OF run that]
      have "res \<noteq> None" and le: "\<forall>e\<in>set (events r). batch_of e \<le> k" by simp_all
      with rr have "\<exists>err. returned r = Inl err" by (cases res) auto
      with le show ?thesis by simp
    qed
    have d: "events r = []
          \<or> (\<exists>f res seq'. fundLoop cr lib led f 0 sequence0 0 [] = Some (res, seq', events r)
                \<and> seq' = sequence0
                     + word_of_nat (length (filter (\<lambda>e. \<exists>j h. e = Included j h) (events r))))"
      using fl funding_run_counter [OF run] by blast
    have e: "(\<exists>bs. Broadcast k bs \<in> set (events r))
          \<and> (\<forall>bs. Broadcast k bs \<in> set (events r) \<longrightarrow>
                (\<exists>rawLog txHash. broadcastResp led k bs = BroadcastResponse 0 rawLog txHash))
          \<and> (\<exists>pre body d rest.
                txStatusResps led k = pre @ GetResponse StatusOK body (Some d) # rest
              \<and> (\<forall>body' d'. GetResponse StatusOK body' (Some d') \<in> set pre
                     \<longrightarrow> tx_Height d' = [] \<or> tx_Height d' = ''0'')
              \<and> tx_Height d = h \<and> h \<noteq> [] \<and> h \<noteq> ''0'' \<and> tx_Code d = 0)"
      if "Included k h \<in> set (events r)" for k h
    proof -
      from funding_run_included [OF run that]
      have p: "pollTx (txStatusResps led k) = Inr True"
        and h: "h = includedHeight (txStatusResps led k)"
        and s: "\<exists>bs. Broadcast k bs \<in> set (events r)"
        and t: "\<forall>bs. Broadcast k bs \<in> set (events r) \<longrightarrow>
                (\<exists>rawLog txHash. broadcastResp led k bs = BroadcastResponse 0 rawLog txHash)"
        by simp_all
      from pollTx_included [OF p]
      obtain pre body d rest
        where q: "txStatusResps led k = pre @ GetResponse StatusOK body (Some d) # rest"
          "\<forall>body' d'. GetResponse StatusOK body' (Some d') \<in> set pre
                     \<longrightarrow> tx_Height d' = [] \<or> tx_Height d' = ''0''"
          "tx_Height d = includedHeight (txStatusResps led k)"
          "tx_Height d \<noteq> []" "tx_Height d \<noteq> ''0''" "tx_Code d = 0"
        by blast
      from q(3,4,5) h have "tx_Height d = h" "h \<noteq> []" "h \<noteq> ''0''" by simp_all
      with q(1,2,6)
      have "\<exists>pre body d rest.
                txStatusResps led k = pre @ GetResponse StatusOK body (Some d) # rest
              \<and> (\<forall>body' d'. GetResponse StatusOK body' (Some d') \<in> set pre
                     \<longrightarrow> tx_Height d' = [] \<or> tx_Height d' = ''0'')
              \<and> tx_Height d = h \<and> h \<noteq> [] \<and> h \<noteq> ''0'' \<and> tx_Code d = 0"
        by (intro exI conjI)
      with s t show ?thesis by (intro conjI)
    qed
    have noinc: "Included k h \<notin> set (events r)"
      if "Broadcast k bs \<in> set (events r)"
        "\<not> (sint (BatchSize cfg) \<noteq> 0 \<and> pollTx (txStatusResps led k) = Inr True
          \<and> (\<exists>rawLog txHash. broadcastResp led k bs = BroadcastResponse 0 rawLog txHash))"
      for k bs h
      using funding_run_included [OF run, of k h, unfolded fc] that by blast
    have g1: "\<exists>sd b. Signed k sd b \<in> set (events r)"
      if sent: "Broadcast k bs \<in> set (events r)" for k bs
      using funding_run_sent_signed [OF run sent] .
    have g2: "returned r = Inl (BroadcastFailed err) \<and> (\<forall>h. Included k h \<notin> set (events r))"
      if sent: "Broadcast k bs \<in> set (events r)"
        and that: "broadcastResp led k bs = BroadcastError err" for k bs err
    proof -
      from funding_run_broadcast [OF run sent, unfolded fc] that
      have "res = Some (BroadcastFailed err)" by simp
      then have "returned r = Inl (BroadcastFailed err)" by (rule rr)
      moreover have "Included k h \<notin> set (events r)" for h
        by (rule noinc [OF sent]) (simp add: that)
      ultimately show ?thesis by simp
    qed
    have g3: "returned r = Inl (TransactionFailed rawLog) \<and> (\<forall>h. Included k h \<notin> set (events r))"
      if sent: "Broadcast k bs \<in> set (events r)"
        and that: "broadcastResp led k bs = BroadcastResponse code rawLog txHash" "code \<noteq> 0"
      for k bs code rawLog txHash
    proof -
      from funding_run_broadcast [OF run sent, unfolded fc] that
      have "res = Some (TransactionFailed rawLog)" by simp
      then have "returned r = Inl (TransactionFailed rawLog)" by (rule rr)
      moreover have "Included k h \<notin> set (events r)" for h
        by (rule noinc [OF sent]) (simp add: that)
      ultimately show ?thesis by simp
    qed
    have g4: "returned r = Inl (Panic ''runtime error: integer divide by zero'')
        \<and> (\<forall>h. Included k h \<notin> set (events r))"
      if sent: "Broadcast k bs \<in> set (events r)"
        and that: "broadcastResp led k bs = BroadcastResponse 0 rawLog txHash"
          "sint (BatchSize cfg) = 0"
      for k bs rawLog txHash
    proof -
      from funding_run_broadcast [OF run sent, unfolded fc] that
      have "res = Some (Panic ''runtime error: integer divide by zero'')" by simp
      then have "returned r = Inl (Panic ''runtime error: integer divide by zero'')" by (rule rr)
      moreover have "Included k h \<notin> set (events r)" for h
        by (rule noinc [OF sent]) (simp add: that)
      ultimately show ?thesis by simp
    qed
    have g5: "if tx_Code d \<noteq> 0
              then returned r = Inl (TransactionFailedInBlock (tx_Height d) (tx_Code d)
                                       (tx_RawLog d))
                 \<and> (\<forall>h. Included k h \<notin> set (events r))
              else Included k (tx_Height d) \<in> set (events r)"
      if sent: "Broadcast k bs \<in> set (events r)"
        and acc: "broadcastResp led k bs = BroadcastResponse 0 rawLog txHash"
          "sint (BatchSize cfg) \<noteq> 0"
        and dec: "txStatusResps led k = pre @ GetResponse StatusOK body (Some d) # rest"
        and pre: "\<forall>body' d'. GetResponse StatusOK body' (Some d') \<in> set pre
                         \<longrightarrow> tx_Height d' = [] \<or> tx_Height d' = ''0''"
        and ht: "tx_Height d \<noteq> []" "tx_Height d \<noteq> ''0''"
      for k bs rawLog txHash pre body d rest
    proof -
      note br = funding_run_broadcast [OF run sent, unfolded fc]
      from pollTx_first [OF pre ht, of body rest] dec
      have p: "pollTx (txStatusResps led k)
                = (if tx_Code d \<noteq> 0
                   then Inl (TransactionFailedInBlock (tx_Height d) (tx_Code d) (tx_RawLog d))
                   else Inr True)"
        and h: "includedHeight (txStatusResps led k) = tx_Height d" by simp_all
      show ?thesis
      proof (cases "tx_Code d \<noteq> 0")
        case True
        with p have p': "pollTx (txStatusResps led k)
            = Inl (TransactionFailedInBlock (tx_Height d) (tx_Code d) (tx_RawLog d))" by simp
        from br acc p' have "res = Some (TransactionFailedInBlock (tx_Height d) (tx_Code d)
                                           (tx_RawLog d))" by simp
        then have "returned r = Inl (TransactionFailedInBlock (tx_Height d) (tx_Code d)
                                           (tx_RawLog d))" by (rule rr)
        moreover have "Included k h \<notin> set (events r)" for h
          by (rule noinc [OF sent]) (simp add: p')
        ultimately show ?thesis using True by simp
      next
        case False
        with p have p': "pollTx (txStatusResps led k) = Inr True" by simp
        from br acc p' h False show ?thesis by simp
      qed
    qed
    have g6: "returned r = Inl (NotIncluded txHash) \<and> (\<forall>h. Included k h \<notin> set (events r))"
      if sent: "Broadcast k bs \<in> set (events r)"
        and acc: "broadcastResp led k bs = BroadcastResponse 0 rawLog txHash"
          "sint (BatchSize cfg) \<noteq> 0"
        and no: "\<forall>body' d'. GetResponse StatusOK body' (Some d') \<in> set (txStatusResps led k)
                         \<longrightarrow> tx_Height d' = [] \<or> tx_Height d' = ''0''"
      for k bs rawLog txHash
    proof -
      from pollTx_timeout [OF no] have p: "pollTx (txStatusResps led k) = Inr False" .
      from funding_run_broadcast [OF run sent, unfolded fc] acc p
      have "res = Some (NotIncluded txHash)" by simp
      then have "returned r = Inl (NotIncluded txHash)" by (rule rr)
      moreover have "Included k h \<notin> set (events r)" for h
        by (rule noinc [OF sent]) (simp add: p)
      ultimately show ?thesis by simp
    qed
    show ?thesis
      apply (intro conjI)
      subgoal by (intro allI impI) (rule a)
      subgoal by (intro allI impI) (rule b)
      subgoal by (intro allI impI, elim conjE) (rule c)
      subgoal by (rule d)
      subgoal by (intro allI impI) (rule e)
      subgoal by (intro allI impI) (rule g1)
      subgoal by (intro allI impI, elim conjE) (rule g2)
      subgoal by (intro allI impI, elim conjE) (rule g3)
      subgoal by (intro allI impI, elim conjE) (rule g4)
      subgoal by (intro allI impI, elim conjE) (rule g5)
      subgoal by (intro allI impI, elim conjE) (rule g6)
      done
  qed
  show ?thesis by (rule exI [of _ r]) (rule conjI [OF r p])
qed

theorem funding_batches_sequence_witness:
  "(\<exists>r. seedAccounts demo_crypto demo_sdk demo_ledger demo_seed_cfg = Some r
      \<and> returned r = Inr ()
      \<and> (\<exists>sd b. Signed 0 sd b \<in> set (events r) \<and> sd_Sequence sd = 41 \<and> sd_AccountNumber sd = 7)
      \<and> (\<exists>sd b. Signed 1 sd b \<in> set (events r) \<and> sd_Sequence sd = 42 \<and> sd_AccountNumber sd = 7)
      \<and> Included 0 ''12'' \<in> set (events r))
 \<and> (\<exists>r. seedAccounts demo_crypto demo_sdk demo_timeout_ledger demo_seed_cfg = Some r
      \<and> returned r = Inl (NotIncluded ''ABCD'')
      \<and> (\<exists>sd b. Signed 1 sd b \<in> set (events r) \<and> sd_Sequence sd = 42 \<and> sd_AccountNumber sd = 7)
      \<and> Included 0 ''12'' \<in> set (events r)
      \<and> (\<forall>h. Included 1 h \<notin> set (events r))
      \<and> (\<forall>sd b. Signed 2 sd b \<notin> set (events r)))"
proof -
  have lib: "\<And>ms. SetMsgs_ok demo_sdk ms" "\<And>s. SetSignatures_ok demo_sdk s"
      "\<And>sd b. GetSignBytes demo_sdk sd b \<noteq> None" "\<And>k m. Sign demo_crypto k m \<noteq> None"
      "\<And>b. TxEncoder demo_sdk b \<noteq> None"
    by (simp_all add: demo_sdk_def demo_crypto_def)
  have polls: "txStatusResps demo_ledger 0
      = [] @ [GetResponse 404 ''tx not found'' None]
        @ GetResponse StatusOK ''{}'' (Some \<lparr>tx_Height = ''12'', tx_Code = 0, tx_RawLog = []\<rparr>) # []"
    by (simp add: demo_ledger_def StatusOK_def)
  have first: "\<forall>body' d'. GetResponse StatusOK body' (Some d')
                 \<in> set ([] @ [GetResponse 404 ''tx not found'' None])
             \<longrightarrow> tx_Height d' = [] \<or> tx_Height d' = ''0''"
    by simp
  have sa: "querySeedAccount (seedAccountResp demo_ledger) = Inr (7, 41)"
    by (simp add: demo_seed_simps)
  from funding_batches_sequence [OF sa, of demo_crypto demo_sdk demo_seed_cfg]
  obtain r where r: "seedAccounts demo_crypto demo_sdk demo_ledger demo_seed_cfg = Some r"
    and seq: "\<forall>k sd b. Signed k sd b \<in> set (events r) \<longrightarrow>
            sd_Sequence sd = 41 + word_of_nat k
          \<and> map sig_Sequence (Signatures b) = [41 + word_of_nat k]
          \<and> sd_AccountNumber sd = 7"
    and sent: "\<forall>k bs. Broadcast k bs \<in> set (events r) \<longrightarrow> (\<exists>sd b. Signed k sd b \<in> set (events r))"
    and inc: "\<forall>k bs rawLog txHash pre body d rest.
             Broadcast k bs \<in> set (events r)
           \<and> broadcastResp demo_ledger k bs = BroadcastResponse 0 rawLog txHash
           \<and> sint (BatchSize demo_seed_cfg) \<noteq> 0
           \<and> txStatusResps demo_ledger k = pre @ GetResponse StatusOK body (Some d) # rest
           \<and> (\<forall>body' d'. GetResponse StatusOK body' (Some d') \<in> set pre
                  \<longrightarrow> tx_Height d' = [] \<or> tx_Height d' = ''0'')
           \<and> tx_Height d \<noteq> [] \<and> tx_Height d \<noteq> ''0'' \<longrightarrow>
             (if tx_Code d \<noteq> 0
              then returned r = Inl (TransactionFailedInBlock (tx_Height d) (tx_Code d)
                                       (tx_RawLog d))
                 \<and> (\<forall>h. Included k h \<notin> set (events r))
              else Included k (tx_Height d) \<in> set (events r))"
    by (elim exE conjE) (rule that)
  have cfg: "demo_seed_cfg = demo_seed_cfg\<lparr>Workers := 3, BatchSize := 2\<rparr>"
    by (simp add: demo_seed_cfg_def)
  have p: "0 \<le> sint (3 :: 64 word)" "sint (3 :: 64 word) \<le> 50"
    "sint ((3 :: 64 word) * 10000) = sint (3 :: 64 word) * 10000" "0 < sint (2 :: 64 word)"
    by simp_all
  from demo_seed_run [OF cfg p] r
  obtain key res seq' where ok: "returned r = Inr ()"
    and fl: "fundLoop demo_crypto demo_sdk demo_ledger
              \<lparr>f_cfg = demo_seed_cfg, f_fundCoin = demo_fundCoin, f_seedPrivKey = fst key,
               f_seedAddr = snd key, f_accountNum = 7,
               f_needsFunding = map bk_addr (benchKeys demo_crypto (nat (sint (3 :: 64 word))))\<rparr>
              0 41 0 [] = Some (res, seq', events r)"
    by auto
  let ?f = "\<lparr>f_cfg = demo_seed_cfg, f_fundCoin = demo_fundCoin, f_seedPrivKey = fst key,
               f_seedAddr = snd key, f_accountNum = 7,
               f_needsFunding = map bk_addr (benchKeys demo_crypto (nat (sint (3 :: 64 word))))\<rparr>"
  from fundLoop_run [OF fl]
  have run: "funding_run demo_crypto demo_sdk demo_ledger ?f 0 41 0 (events r) res seq'" by simp
  have size: "0 < sint (BatchSize (f_cfg ?f))" "length (f_needsFunding ?f) * 100000 < 2 ^ 63"
    "ValidateDenom demo_sdk (Denom (f_cfg ?f))"
    by (simp_all add: demo_seed_cfg_def benchKeys_def demo_sdk_def)
  have dial: "\<And>j. \<not> dialFails demo_ledger j" by (simp add: demo_ledger_def)
  have acc: "\<And>j bs. broadcastResp demo_ledger j bs = BroadcastResponse 0 [] ''ABCD''"
    by (simp add: demo_ledger_def)
  have pt: "\<And>j. pollTx (txStatusResps demo_ledger j) = Inr True"
    by (simp add: demo_ledger_def StatusOK_def)
  have lt0: "0 + 0 * nat (sint (BatchSize (f_cfg ?f))) < length (f_needsFunding ?f)"
    and lt1: "0 + 1 * nat (sint (BatchSize (f_cfg ?f))) < length (f_needsFunding ?f)"
    by (simp_all add: demo_seed_cfg_def benchKeys_def)
  from funding_run_reaches [OF lib size(3,1,2) dial run lt0, of "\<lambda>j bs. []" "\<lambda>j bs. ''ABCD''"]
  obtain sd0 b0 bs0 where s0: "Signed 0 sd0 b0 \<in> set (events r)"
    and t0: "Broadcast 0 bs0 \<in> set (events r)" by auto
  from funding_run_reaches [OF lib size(3,1,2) dial run lt1, of "\<lambda>j bs. []" "\<lambda>j bs. ''ABCD''"]
    acc pt
  obtain sd1 b1 where s1: "Signed 1 sd1 b1 \<in> set (events r)" by auto
  from seq s0 have q0: "sd_Sequence sd0 = 41 \<and> sd_AccountNumber sd0 = 7" by auto
  from seq s1 have q1: "sd_Sequence sd1 = 42 \<and> sd_AccountNumber sd1 = 7" by auto
  have nz: "sint (BatchSize demo_seed_cfg) \<noteq> 0" by (simp add: demo_seed_cfg_def)
  from inc [rule_format, of 0 bs0 "[]" "''ABCD''"
      "[] @ [GetResponse 404 ''tx not found'' None]" "''{}''"
      "\<lparr>tx_Height = ''12'', tx_Code = 0, tx_RawLog = []\<rparr>" "[]"] t0 acc nz polls first
  have i0: "Included 0 ''12'' \<in> set (events r)" by simp
  from r ok s0 q0 s1 q1 i0
  have one: "\<exists>r. seedAccounts demo_crypto demo_sdk demo_ledger demo_seed_cfg = Some r
      \<and> returned r = Inr ()
      \<and> (\<exists>sd b. Signed 0 sd b \<in> set (events r) \<and> sd_Sequence sd = 41 \<and> sd_AccountNumber sd = 7)
      \<and> (\<exists>sd b. Signed 1 sd b \<in> set (events r) \<and> sd_Sequence sd = 42 \<and> sd_AccountNumber sd = 7)
      \<and> Included 0 ''12'' \<in> set (events r)"
    by blast
  have sa': "querySeedAccount (seedAccountResp demo_timeout_ledger) = Inr (7, 41)"
    by (simp add: demo_timeout_ledger_def demo_seed_simps)
  from funding_batches_sequence [OF sa', of demo_crypto demo_sdk demo_seed_cfg]
  obtain r' where r': "seedAccounts demo_crypto demo_sdk demo_timeout_ledger demo_seed_cfg = Some r'"
    and seq': "\<forall>k sd b. Signed k sd b \<in> set (events r') \<longrightarrow>
            sd_Sequence sd = 41 + word_of_nat k
          \<and> map sig_Sequence (Signatures b) = [41 + word_of_nat k]
          \<and> sd_AccountNumber sd = 7"
    and stop': "\<forall>k sd b. Signed k sd b \<in> set (events r') \<and> (\<forall>h. Included k h \<notin> set (events r')) \<longrightarrow>
            (\<exists>err. returned r' = Inl err) \<and> (\<forall>e\<in>set (events r'). batch_of e \<le> k)"
    and inc': "\<forall>k bs rawLog txHash pre body d rest.
             Broadcast k bs \<in> set (events r')
           \<and> broadcastResp demo_timeout_ledger k bs = BroadcastResponse 0 rawLog txHash
           \<and> sint (BatchSize demo_seed_cfg) \<noteq> 0
           \<and> txStatusResps demo_timeout_ledger k = pre @ GetResponse StatusOK body (Some d) # rest
           \<and> (\<forall>body' d'. GetResponse StatusOK body' (Some d') \<in> set pre
                  \<longrightarrow> tx_Height d' = [] \<or> tx_Height d' = ''0'')
           \<and> tx_Height d \<noteq> [] \<and> tx_Height d \<noteq> ''0'' \<longrightarrow>
             (if tx_Code d \<noteq> 0
              then returned r' = Inl (TransactionFailedInBlock (tx_Height d) (tx_Code d)
                                       (tx_RawLog d))
                 \<and> (\<forall>h. Included k h \<notin> set (events r'))
              else Included k (tx_Height d) \<in> set (events r'))"
    and out': "\<forall>k bs rawLog txHash.
             Broadcast k bs \<in> set (events r')
           \<and> broadcastResp demo_timeout_ledger k bs = BroadcastResponse 0 rawLog txHash
           \<and> sint (BatchSize demo_seed_cfg) \<noteq> 0
           \<and> (\<forall>body' d'. GetResponse StatusOK body' (Some d')
                    \<in> set (txStatusResps demo_timeout_ledger k)
                  \<longrightarrow> tx_Height d' = [] \<or> tx_Height d' = ''0'') \<longrightarrow>
             returned r' = Inl (NotIncluded txHash) \<and> (\<forall>h. Included k h \<notin> set (events r'))"
    by (elim exE conjE) (rule that)
  from demo_seed_loop [OF _ _ _ r']
  obtain key' res' seq''
    where fl': "fundLoop demo_crypto demo_sdk demo_timeout_ledger
              \<lparr>f_cfg = demo_seed_cfg, f_fundCoin = demo_fundCoin, f_seedPrivKey = fst key',
               f_seedAddr = snd key', f_accountNum = 7,
               f_needsFunding = map bk_addr (benchKeys demo_crypto 3)\<rparr> 0 41 0 []
             = Some (res', seq'', events r')"
    by (auto simp: demo_timeout_ledger_def)
  let ?f' = "\<lparr>f_cfg = demo_seed_cfg, f_fundCoin = demo_fundCoin, f_seedPrivKey = fst key',
               f_seedAddr = snd key', f_accountNum = 7,
               f_needsFunding = map bk_addr (benchKeys demo_crypto 3)\<rparr>"
  from fundLoop_run [OF fl']
  have run': "funding_run demo_crypto demo_sdk demo_timeout_ledger ?f' 0 41 0 (events r') res' seq''"
    by simp
  have size': "0 < sint (BatchSize (f_cfg ?f'))" "length (f_needsFunding ?f') * 100000 < 2 ^ 63"
    "ValidateDenom demo_sdk (Denom (f_cfg ?f'))"
    by (simp_all add: demo_seed_cfg_def benchKeys_def demo_sdk_def)
  have dial': "\<And>j. \<not> dialFails demo_timeout_ledger j"
    by (simp add: demo_timeout_ledger_def demo_ledger_def)
  have acc': "\<And>j bs. broadcastResp demo_timeout_ledger j bs = BroadcastResponse 0 [] ''ABCD''"
    by (simp add: demo_timeout_ledger_def demo_ledger_def)
  have pt': "pollTx (txStatusResps demo_timeout_ledger 0) = Inr True"
    by (simp add: demo_timeout_ledger_def demo_ledger_def StatusOK_def)
  have polls': "txStatusResps demo_timeout_ledger 0
      = [] @ [GetResponse 404 ''tx not found'' None]
        @ GetResponse StatusOK ''{}'' (Some \<lparr>tx_Height = ''12'', tx_Code = 0, tx_RawLog = []\<rparr>) # []"
    by (simp add: demo_timeout_ledger_def demo_ledger_def StatusOK_def)
  have never: "\<forall>body' d'. GetResponse StatusOK body' (Some d')
                    \<in> set (txStatusResps demo_timeout_ledger 1)
                  \<longrightarrow> tx_Height d' = [] \<or> tx_Height d' = ''0''"
    by (simp add: demo_timeout_ledger_def StatusOK_def)
  have lt0': "0 + 0 * nat (sint (BatchSize (f_cfg ?f'))) < length (f_needsFunding ?f')"
    and lt1': "0 + 1 * nat (sint (BatchSize (f_cfg ?f'))) < length (f_needsFunding ?f')"
    by (simp_all add: demo_seed_cfg_def benchKeys_def)
  from funding_run_reaches [OF lib size'(3,1,2) dial' run' lt0', of "\<lambda>j bs. []" "\<lambda>j bs. ''ABCD''"]
  obtain bs0' where t0': "Broadcast 0 bs0' \<in> set (events r')" by auto
  from funding_run_reaches [OF lib size'(3,1,2) dial' run' lt1', of "\<lambda>j bs. []" "\<lambda>j bs. ''ABCD''"]
    acc' pt'
  obtain sd1' b1' bs1' where s1': "Signed 1 sd1' b1' \<in> set (events r')"
    and t1': "Broadcast 1 bs1' \<in> set (events r')" by auto
  from seq' s1' have q1': "sd_Sequence sd1' = 42 \<and> sd_AccountNumber sd1' = 7" by auto
  from inc' [rule_format, of 0 bs0' "[]" "''ABCD''"
      "[] @ [GetResponse 404 ''tx not found'' None]" "''{}''"
      "\<lparr>tx_Height = ''12'', tx_Code = 0, tx_RawLog = []\<rparr>" "[]"] t0' acc' nz polls' first
  have i0': "Included 0 ''12'' \<in> set (events r')" by simp
  from out' [rule_format, of 1 bs1' "[]" "''ABCD''"] t1' acc' nz never
  have ret': "returned r' = Inl (NotIncluded ''ABCD'')"
    and no1: "\<forall>h. Included 1 h \<notin> set (events r')" by simp_all
  from stop' s1' no1 have le: "\<forall>e\<in>set (events r'). batch_of e \<le> 1" by blast
  have no2: "Signed 2 sd b \<notin> set (events r')" for sd b
  proof
    assume "Signed 2 sd b \<in> set (events r')"
    with le have "batch_of (Signed 2 sd b) \<le> 1" by blast
    then show False by simp
  qed
  from r' ret' s1' q1' i0' no1 no2
  have two: "\<exists>r. seedAccounts demo_crypto demo_sdk demo_timeout_ledger demo_seed_cfg = Some r
      \<and> returned r = Inl (NotIncluded ''ABCD'')
      \<and> (\<exists>sd b. Signed 1 sd b \<in> set (events r) \<and> sd_Sequence sd = 42 \<and> sd_AccountNumber sd = 7)
      \<and> Included 0 ''12'' \<in> set (events r)
      \<and> (\<forall>h. Included 1 h \<notin> set (events r))
      \<and> (\<forall>sd b. Signed 2 sd b \<notin> set (events r))"
    by blast
  from one two show ?thesis by (rule conjI)
qed

section \<open>The partition into batches\<close>

lemma ceil_div_less: "0 < B \<Longrightarrow> (k < (N + B - 1) div B) = (k * B < (N :: nat))"
proof -
  assume B: "0 < B"
  have "(k < (N + B - 1) div B) = (Suc k \<le> (N + B - 1) div B)" by auto
  also have "\<dots> = (Suc k * B \<le> N + B - 1)" using B by (simp add: less_eq_div_iff_mult_less_eq)
  also have "\<dots> = (k * B < N)" using B by auto
  finally show ?thesis .
qed

lemma concat_chunks: "concat (map (\<lambda>k. take B (drop (k * B) xs)) [0..<m]) = take (m * B) xs"
proof (induction m)
  case 0
  then show ?case by simp
next
  case (Suc m)
  have "Suc m * B = m * B + B" by simp
  then have "take (Suc m * B) xs = take (m * B) xs @ take B (drop (m * B) xs)"
    by (simp only: take_add)
  with Suc show ?case by (simp del: mult_Suc)
qed

text \<open>
  C5. Let \<open>N\<close> accounts need funding and let the batch size \<open>B\<close> be positive. The batches
  signed in a run are numbered below \<open>ceil(N / B) = (N + B - 1) div B\<close>; the batch \<open>k\<close> holds
  one transfer message, from the seed address, for each of the accounts
  \<open>needsFunding[k * B .. k * B + B)\<close> in order, so it has \<open>B\<close> messages except for a last batch,
  which has the rest (at least one); its gas limit is 100000 times its size and its fee
  that times the gas price 25000000000, in the configured denom. A run that returns
  success has signed every one of the \<open>ceil(N / B)\<close> batches, and the batches together are
  \<open>needsFunding\<close>. The size condition keeps the gas limit within \<open>int64\<close>; no slice of a Go
  program is that long.
\<close>

theorem funding_batches_partition:
  assumes "seedAccounts cr lib led cfg = Some r"
    and "ParseCoinNormalized lib (FundAmount cfg) = Some fundCoin"
    and "seedKey cr cfg = Inr (seedPrivKey, seedAddr)"
    and "needsFundingLoop lib cfg fundCoin (workerBalanceResp led) 0
           (benchKeys cr (nat (sint (Workers cfg)))) [] = Inr needsFunding"
    and "B = nat (sint (BatchSize cfg))" and "0 < sint (BatchSize cfg)"
    and "N = length needsFunding" and "N * 100000 < 2 ^ 63"
  shows "(\<forall>k sd b. Signed k sd b \<in> set (events r) \<longrightarrow>
            k < (N + B - 1) div B
          \<and> Msgs b = map (\<lambda>a. \<lparr>FromAddress = AccAddressString lib seedAddr,
                                 ToAddress = AccAddressString lib a,
                                 MsgAmount = NewCoins1 fundCoin\<rparr>)
                       (take B (drop (k * B) needsFunding))
          \<and> length (Msgs b) = (if Suc k < (N + B - 1) div B then B else N - k * B)
          \<and> 0 < length (Msgs b) \<and> length (Msgs b) \<le> B
          \<and> unat (GasLimit b) = length (Msgs b) * 100000
          \<and> FeeAmount b = [\<lparr>coin_Denom = Denom cfg,
                              coin_Amount = int (length (Msgs b)) * 100000 * 25000000000\<rparr>])
       \<and> (returned r = Inr () \<longrightarrow> (\<forall>k<(N + B - 1) div B. \<exists>sd b. Signed k sd b \<in> set (events r)))
       \<and> concat (map (\<lambda>k. take B (drop (k * B) needsFunding)) [0..<(N + B - 1) div B])
           = needsFunding"
proof -
  have B: "0 < B" using assms(5,6) by simp
  let ?m = "(N + B - 1) div B"
  have part: "concat (map (\<lambda>k. take B (drop (k * B) needsFunding)) [0..<?m]) = needsFunding"
  proof -
    have "\<not> ?m * B < N" using ceil_div_less [OF B, of ?m N] by simp
    then show ?thesis by (simp add: concat_chunks assms(7))
  qed
  from assms(1) show ?thesis
  proof (cases rule: seedAccounts_run)
    case early
    have nf0: "needsFunding = []" if "returned r = Inr ()"
      using early(3) [OF that] assms(2,4) by auto
    have "?m = 0" if "N = 0" using that B by simp
    with early(1) nf0 assms(7) part show ?thesis by auto
  next
    case (loop fundCoin' seedPrivKey' seedAddr' acct sequence0 needsFunding' res seq')
    from loop(1,2,4) assms(2,3,4)
    have eq: "fundCoin' = fundCoin" "seedPrivKey' = seedPrivKey" "seedAddr' = seedAddr"
      "needsFunding' = needsFunding" by simp_all
    let ?g = "\<lparr>f_cfg = cfg, f_fundCoin = fundCoin, f_seedPrivKey = seedPrivKey,
               f_seedAddr = seedAddr, f_accountNum = acct, f_needsFunding = needsFunding\<rparr>"
    from fundLoop_run [OF loop(6)]
    have run: "funding_run cr lib led ?g 0 sequence0 0 (events r) res seq'" by (simp add: eq)
    have nn: "0 \<le> sint (BatchSize (f_cfg ?g))" using assms(6) by simp
    have sig: "k < ?m
          \<and> Msgs b = map (\<lambda>a. \<lparr>FromAddress = AccAddressString lib seedAddr,
                                 ToAddress = AccAddressString lib a,
                                 MsgAmount = NewCoins1 fundCoin\<rparr>)
                       (take B (drop (k * B) needsFunding))
          \<and> length (Msgs b) = (if Suc k < ?m then B else N - k * B)
          \<and> 0 < length (Msgs b) \<and> length (Msgs b) \<le> B
          \<and> unat (GasLimit b) = length (Msgs b) * 100000
          \<and> FeeAmount b = [\<lparr>coin_Denom = Denom cfg,
                              coin_Amount = int (length (Msgs b)) * 100000 * 25000000000\<rparr>]"
      if "Signed k sd b \<in> set (events r)" for k sd b
    proof -
      from funding_run_index [OF run nn that]
      have lt: "k * B < N"
        and msgs: "Msgs b = map (\<lambda>a. \<lparr>FromAddress = AccAddressString lib seedAddr,
                                 ToAddress = AccAddressString lib a,
                                 MsgAmount = NewCoins1 fundCoin\<rparr>)
                       (take B (drop (k * B) needsFunding))"
        and gas: "GasLimit b = 100000 * word_of_nat (length (Msgs b))"
        and fee: "FeeAmount b = NewCoins1 \<lparr>coin_Denom = Denom cfg,
                              coin_Amount = 25000000000 * sint (GasLimit b)\<rparr>"
        by (simp_all add: assms(5,7))
      have k: "k < ?m" using lt ceil_div_less [OF B, of k N] by blast
      have len: "length (Msgs b) = min B (N - k * B)" by (simp add: msgs assms(7) min.commute)
      have "(Suc k < ?m) = (k * B + B < N)"
        using ceil_div_less [OF B, of "Suc k" N] by (simp add: add.commute)
      with len lt have l1: "length (Msgs b) = (if Suc k < ?m then B else N - k * B)" by auto
      from len lt B have l2: "0 < length (Msgs b)" "length (Msgs b) \<le> B" by auto
      from len have "length (Msgs b) \<le> N" by simp
      with assms(8) have bound: "length (Msgs b) * 100000 < 2 ^ 63" by linarith
      note g = sint_gas [OF bound]
      have u: "unat (GasLimit b) = length (Msgs b) * 100000" by (simp only: gas g(2))
      have "sint (GasLimit b) = int (length (Msgs b)) * 100000" by (simp only: gas g(1))
      with l2(1) have f: "FeeAmount b = [\<lparr>coin_Denom = Denom cfg,
                              coin_Amount = int (length (Msgs b)) * 100000 * 25000000000\<rparr>]"
        by (simp add: fee NewCoins1_def)
      from k msgs l1 l2 u f show ?thesis by blast
    qed
    have all: "\<exists>sd b. Signed k sd b \<in> set (events r)" if "returned r = Inr ()" "k < ?m" for k
    proof -
      from that(1) loop(7) have none: "res = None" by (cases res) auto
      from that(2) ceil_div_less [OF B, of k N] have "k * B < N" by blast
      then have "0 + k * nat (sint (BatchSize (f_cfg ?g))) < length (f_needsFunding ?g)"
        by (simp add: assms(5,7))
      from funding_run_complete [OF run none nn this] show ?thesis by simp
    qed
    from sig all part show ?thesis by blast
  qed
qed

theorem funding_batches_partition_witness:
  "\<exists>r. seedAccounts demo_crypto demo_sdk demo_ledger demo_seed_cfg10 = Some r
      \<and> returned r = Inr ()
      \<and> (\<exists>sd b. Signed 0 sd b \<in> set (events r) \<and> length (Msgs b) = 4
            \<and> unat (GasLimit b) = 400000)
      \<and> (\<exists>sd b. Signed 1 sd b \<in> set (events r) \<and> length (Msgs b) = 4
            \<and> unat (GasLimit b) = 400000)
      \<and> (\<exists>sd b. Signed 2 sd b \<in> set (events r) \<and> length (Msgs b) = 2
            \<and> unat (GasLimit b) = 200000
            \<and> FeeAmount b = [\<lparr>coin_Denom = ''aperpx'', coin_Amount = 5000000000000000\<rparr>])
      \<and> list_all (\<lambda>e. case e of Signed k sd b \<Rightarrow> k < 3 | _ \<Rightarrow> True) (events r)"
proof -
  have cfg: "demo_seed_cfg10 = demo_seed_cfg\<lparr>Workers := 10, BatchSize := 4\<rparr>"
    by (simp add: demo_seed_cfg10_def)
  have p: "0 \<le> sint (10 :: 64 word)" "sint (10 :: 64 word) \<le> 50"
    "sint ((10 :: 64 word) * 10000) = sint (10 :: 64 word) * 10000" "0 < sint (4 :: 64 word)"
    by simp_all
  from demo_seed_run [OF cfg p]
  obtain r key where r: "seedAccounts demo_crypto demo_sdk demo_ledger demo_seed_cfg10 = Some r"
    and ok: "returned r = Inr ()"
    and pc: "ParseCoinNormalized demo_sdk (FundAmount demo_seed_cfg10) = Some demo_fundCoin"
    and nf: "needsFundingLoop demo_sdk demo_seed_cfg10 demo_fundCoin (workerBalanceResp demo_ledger) 0
              (benchKeys demo_crypto (nat (sint (Workers demo_seed_cfg10)))) []
             = Inr (map bk_addr (benchKeys demo_crypto (nat (sint (10 :: 64 word)))))"
    and k: "seedKey demo_crypto demo_seed_cfg10 = Inr key"
    by blast
  have k': "seedKey demo_crypto demo_seed_cfg10 = Inr (fst key, snd key)" using k by simp
  have B: "(4 :: nat) = nat (sint (BatchSize demo_seed_cfg10))" "0 < sint (BatchSize demo_seed_cfg10)"
    by (simp_all add: demo_seed_cfg10_def)
  have N: "(10 :: nat) = length (map bk_addr (benchKeys demo_crypto (nat (sint (10 :: 64 word)))))"
    "(10 :: nat) * 100000 < 2 ^ 63"
    by (simp_all add: benchKeys_def)
  note t = funding_batches_partition [OF r pc k' nf B N]
  have m: "((10 :: nat) + 4 - 1) div 4 = 3" by simp
  have d: "Denom demo_seed_cfg10 = ''aperpx''" by (simp add: demo_seed_cfg10_def demo_seed_cfg_def)
  from t ok have ex: "\<forall>k<3. \<exists>sd b. Signed k sd b \<in> set (events r)" unfolding m by blast
  from t have props: "\<forall>k sd b. Signed k sd b \<in> set (events r) \<longrightarrow>
            k < 3
          \<and> length (Msgs b) = (if Suc k < 3 then 4 else 10 - k * 4)
          \<and> unat (GasLimit b) = length (Msgs b) * 100000
          \<and> FeeAmount b = [\<lparr>coin_Denom = ''aperpx'',
                              coin_Amount = int (length (Msgs b)) * 100000 * 25000000000\<rparr>]"
    unfolding m d by blast
  from ex [rule_format, of 0] obtain sd0 b0 where s0: "Signed 0 sd0 b0 \<in> set (events r)" by auto
  from ex [rule_format, of 1] obtain sd1 b1 where s1: "Signed 1 sd1 b1 \<in> set (events r)" by auto
  from ex [rule_format, of 2] obtain sd2 b2 where s2: "Signed 2 sd2 b2 \<in> set (events r)" by auto
  from props s0 have p0: "length (Msgs b0) = 4 \<and> unat (GasLimit b0) = 400000" by fastforce
  from props s1 have p1: "length (Msgs b1) = 4 \<and> unat (GasLimit b1) = 400000" by fastforce
  from props s2 have p2: "length (Msgs b2) = 2 \<and> unat (GasLimit b2) = 200000
      \<and> FeeAmount b2 = [\<lparr>coin_Denom = ''aperpx'', coin_Amount = 5000000000000000\<rparr>]"
    by fastforce
  from props have la: "list_all (\<lambda>e. case e of Signed k sd b \<Rightarrow> k < 3 | _ \<Rightarrow> True) (events r)"
    by (auto simp: list_all_iff split: event.splits)
  from r ok s0 p0 s1 p1 s2 p2 la show ?thesis by blast
qed

end
